theory Spec2Isabelle
  imports Complex_Main
begin

section \<open>Character classes and global regular-expression scans\<close>

text \<open>
  The server (\<^verbatim>\<open>src/backend/api/server.js\<close>) finds its placeholders with small
  regular expressions. JavaScript's \<^verbatim>\<open>\w\<close> is the class \<^verbatim>\<open>[A-Za-z0-9_]\<close>.
  Strings are lists of characters; every character the regular expressions single out
  is ASCII.
\<close>

definition isWordChar :: "char \<Rightarrow> bool" where
  "isWordChar c =
     (c \<in> set ''ABCDEFGHIJKLMNOPQRSTUVWXYZabcdefghijklmnopqrstuvwxyz0123456789_'')"

text \<open>
  One match of a regular expression at the head of a string: the matched text and
  the text of capture group 1.
\<close>

record reMatch =
  matchText :: string
  group1 :: string

text \<open>\<^verbatim>\<open>/\{(\w+)\}/\<close> tried at the head of the string.\<close>

definition pathParamAt :: "string \<Rightarrow> reMatch option" where
  "pathParamAt s =
     (case s of
        c # rest \<Rightarrow>
          (let name = takeWhile isWordChar rest in
           if c = CHR ''{'' \<and> name \<noteq> [] \<and> take 1 (dropWhile isWordChar rest) = ''}''
           then Some \<lparr>matchText = c # name @ ''}'', group1 = name\<rparr>
           else None)
      | [] \<Rightarrow> None)"

text \<open>
  \<^verbatim>\<open>/:([\w_]+)/\<close>, \<^verbatim>\<open>/@([\w_]+)/\<close> and \<^verbatim>\<open>/\$(\w+)/\<close> tried at the head of the
  string: the sigil, then the longest run of word characters, which must not be empty.
\<close>

definition sigilParamAt :: "char \<Rightarrow> string \<Rightarrow> reMatch option" where
  "sigilParamAt sigil s =
     (case s of
        c # rest \<Rightarrow>
          (let name = takeWhile isWordChar rest in
           if c = sigil \<and> name \<noteq> []
           then Some \<lparr>matchText = c # name, group1 = name\<rparr>
           else None)
      | [] \<Rightarrow> None)"

text \<open>
  A regular expression with the \<^verbatim>\<open>g\<close> flag, run over the whole string
  (\<^verbatim>\<open>matchAll\<close>, \<^verbatim>\<open>match\<close>, a loop of \<^verbatim>\<open>exec\<close>): the leftmost match is taken and
  the scan resumes right after it; where nothing matches the scan moves one character on.
\<close>

fun matchAllRe :: "(string \<Rightarrow> reMatch option) \<Rightarrow> string \<Rightarrow> reMatch list" where
  "matchAllRe re [] = []"
| "matchAllRe re (c # cs) =
     (case re (c # cs) of
        Some m \<Rightarrow> m # matchAllRe re (drop (length (matchText m) - 1) cs)
      | None \<Rightarrow> matchAllRe re cs)"

text \<open>\<^verbatim>\<open>[...new Set(xs)]\<close>: the elements of \<open>xs\<close> in the order of their first insertion.\<close>

fun setInsertAll :: "'a list \<Rightarrow> 'a list \<Rightarrow> 'a list" where
  "setInsertAll seen [] = seen"
| "setInsertAll seen (x # xs) =
     setInsertAll (if x \<in> set seen then seen else seen @ [x]) xs"

definition newSet :: "'a list \<Rightarrow> 'a list" where
  "newSet xs = setInsertAll [] xs"

section \<open>ParameterExtractor\<close>

text \<open>
  \<^verbatim>\<open>extractDollarParam\<close>: the first \<^verbatim>\<open>$name\<close> of the text (the regular expression has
  no \<^verbatim>\<open>g\<close> flag, so index 1 of the match is the capture group).
\<close>

definition extractDollarParam :: "string \<Rightarrow> string option" where
  "extractDollarParam sql =
     (if sql = [] then None
      else case matchAllRe (sigilParamAt (CHR ''$'')) sql of
             m # _ \<Rightarrow> Some (group1 m)
           | [] \<Rightarrow> None)"

record paramDetails =
  pathParams :: "string list"
  queryParams :: "string list"
  outputParams :: "string list"

text \<open>The names written \<^verbatim>\<open>{name}\<close>, \<^verbatim>\<open>:name\<close> and \<^verbatim>\<open>@name\<close>, one per occurrence, in text order.\<close>

definition pathMatches :: "string \<Rightarrow> string list" where
  "pathMatches sql = map group1 (matchAllRe pathParamAt sql)"

definition queryMatches :: "string \<Rightarrow> string list" where
  "queryMatches sql = map group1 (matchAllRe (sigilParamAt (CHR '':'')) sql)"

definition outputMatches :: "string \<Rightarrow> string list" where
  "outputMatches sql = map group1 (matchAllRe (sigilParamAt (CHR ''@'')) sql)"

text \<open>
  \<^verbatim>\<open>sql.match(dollarParamRegex)?.[1]\<close> inside \<^verbatim>\<open>extractParamDetails\<close>: here the regular
  expression has the \<^verbatim>\<open>g\<close> flag, so \<^verbatim>\<open>match\<close> returns the array of all matched texts
  and index 1 is the second matched text, sigil included; \<open>None\<close> is \<^verbatim>\<open>undefined\<close>.
\<close>

definition detailsDollarParam :: "string \<Rightarrow> string option" where
  "detailsDollarParam sql =
     (case map matchText (matchAllRe (sigilParamAt (CHR ''$'')) sql) of
        _ # m # _ \<Rightarrow> Some m
      | _ \<Rightarrow> None)"

definition extractParamDetails :: "string \<Rightarrow> paramDetails" where
  "extractParamDetails sql =
     (if sql = [] then \<lparr>pathParams = [], queryParams = [], outputParams = []\<rparr>
      else
        let dollarParam = detailsDollarParam sql;
            pathPs = newSet (pathMatches sql);
            queryPs = filter (\<lambda>p. Some p \<noteq> dollarParam) (newSet (queryMatches sql));
            outputPs = newSet (outputMatches sql)
        in \<lparr>pathParams = pathPs,
            queryParams = filter (\<lambda>p. p \<notin> set pathPs) queryPs,
            outputParams = filter (\<lambda>p. p \<notin> set queryPs \<and> p \<notin> set pathPs) outputPs\<rparr>)"

text \<open>The position of the first occurrence of a name in a list of occurrences.\<close>

definition firstIndex :: "'a list \<Rightarrow> 'a \<Rightarrow> nat" where
  "firstIndex xs x = length (takeWhile (\<lambda>y. y \<noteq> x) xs)"

section \<open>JavaScript numbers\<close>

text \<open>
  A number is an IEEE 754 double: a finite value, an infinity or \<^verbatim>\<open>NaN\<close>. A finite
  number is given by the rational it stands for; the sign of zero is not kept. The
  functions that make a number from a text round it as the engine does.
\<close>

datatype jsNumber = Finite rat | PosInfinity | NegInfinity | NaN

definition digitChar :: "nat \<Rightarrow> char" where
  "digitChar d = ''0123456789'' ! d"

function showNat :: "nat \<Rightarrow> string" where
  "showNat n = (if n < 10 then [digitChar n] else showNat (n div 10) @ [digitChar (n mod 10)])"
  by pat_completeness auto
termination
  by (relation "measure id") auto

declare showNat.simps [simp del]

text \<open>The decimal digits and the number of binary digits of an integer that is not negative.\<close>

function decimalDigits :: "int \<Rightarrow> string" where
  "decimalDigits n =
     (if n < 10 then [digitChar (nat n)]
      else decimalDigits (n div 10) @ [digitChar (nat (n mod 10))])"
  by pat_completeness auto
termination
  by (relation "measure nat") auto

declare decimalDigits.simps [simp del]

function bitLength :: "int \<Rightarrow> nat" where
  "bitLength n = (if n \<le> 0 then 0 else Suc (bitLength (n div 2)))"
  by pat_completeness auto
termination
  by (relation "measure nat") auto

declare bitLength.simps [simp del]

definition twoTo :: "int \<Rightarrow> rat" where
  "twoTo e = (if 0 \<le> e then 2 ^ nat e else 1 / 2 ^ nat (- e))"

definition tenTo :: "int \<Rightarrow> rat" where
  "tenTo e = (if 0 \<le> e then 10 ^ nat e else 1 / 10 ^ nat (- e))"

text \<open>For a positive \<open>q\<close>, the exponent \<open>e\<close> with \<open>2\<^sup>e \<le> q < 2\<^sup>e\<^sup>+\<^sup>1\<close>.\<close>

definition binaryExponent :: "rat \<Rightarrow> int" where
  "binaryExponent q =
     (if 1 \<le> q then int (bitLength \<lfloor>q\<rfloor>) - 1
      else let f = int (bitLength \<lfloor>1 / q\<rfloor>) - 1
           in if 1 / q = twoTo f then - f else - f - 1)"

text \<open>Rounding to the nearest integer, a tie going to the even one.\<close>

definition roundHalfEven :: "rat \<Rightarrow> int" where
  "roundHalfEven x =
     (let f = \<lfloor>x\<rfloor>; d = x - of_int f
      in if d < 1 / 2 then f
         else if 1 / 2 < d then f + 1
         else if even f then f else f + 1)"

text \<open>
  The double nearest to a rational, a tie going to the even significand: 53 binary
  digits for a normal number, multiples of \<open>2\<^sup>-\<^sup>1\<^sup>0\<^sup>7\<^sup>4\<close> below \<open>2\<^sup>-\<^sup>1\<^sup>0\<^sup>2\<^sup>2\<close>, and an infinity when
  the rounded value reaches \<open>2\<^sup>1\<^sup>0\<^sup>2\<^sup>4\<close>, which takes an exponent of 1023 at least.
\<close>

definition roundToDouble :: "rat \<Rightarrow> jsNumber" where
  "roundToDouble q =
     (if q = 0 then Finite 0
      else let a = \<bar>q\<bar>;
               e = max (binaryExponent a) (- 1022);
               ulp = twoTo (e - 52);
               v = of_int (roundHalfEven (a / ulp)) * ulp
           in if 1023 \<le> e \<and> twoTo 1024 \<le> v then (if q < 0 then NegInfinity else PosInfinity)
              else Finite (if q < 0 then - v else v))"

text \<open>
  The comparison \<^verbatim>\<open>a < b\<close> of two numbers (false when either is \<^verbatim>\<open>NaN\<close>),
  \<^verbatim>\<open>Number.isInteger\<close> and \<^verbatim>\<open>isNaN\<close>.
\<close>

definition numberRank :: "jsNumber \<Rightarrow> int \<times> rat" where
  "numberRank a =
     (case a of
        NegInfinity \<Rightarrow> (- 1, 0)
      | Finite q \<Rightarrow> (0, q)
      | _ \<Rightarrow> (1, 0))"

definition numberLess :: "jsNumber \<Rightarrow> jsNumber \<Rightarrow> bool" where
  "numberLess a b =
     (a \<noteq> NaN \<and> b \<noteq> NaN \<and>
      (fst (numberRank a) < fst (numberRank b) \<or>
       fst (numberRank a) = fst (numberRank b) \<and> snd (numberRank a) < snd (numberRank b)))"

definition numberIsInteger :: "jsNumber \<Rightarrow> bool" where
  "numberIsInteger a = (case a of Finite q \<Rightarrow> of_int \<lfloor>q\<rfloor> = q | _ \<Rightarrow> False)"

subsection \<open>The text of a number\<close>

text \<open>For a positive \<open>x\<close>, the exponent \<open>n\<close> with \<open>10\<^sup>n\<^sup>-\<^sup>1 \<le> x < 10\<^sup>n\<close>.\<close>

definition decimalExponent :: "rat \<Rightarrow> int" where
  "decimalExponent x =
     (if 1 \<le> x then int (length (decimalDigits \<lfloor>x\<rfloor>))
      else let d = int (length (decimalDigits \<lfloor>1 / x\<rfloor>))
           in if 1 / x = tenTo (d - 1) then 2 - d else 1 - d)"

text \<open>
  \<^verbatim>\<open>Number.prototype.toString\<close> looks for the least count \<open>k\<close> of digits such that an
  integer \<open>s\<close> of \<open>k\<close> digits and an exponent \<open>n\<close> give back the number:
  \<open>s \<times> 10\<^sup>n\<^sup>-\<^sup>k\<close> rounds to \<open>x\<close>. With \<open>k\<close> digits the two candidates are the multiples of
  \<open>10\<^sup>n\<^sup>-\<^sup>k\<close> around \<open>x\<close>; of two candidates that round to \<open>x\<close> the nearer one is taken, and
  the even one when they are as near. A candidate that reaches \<open>10\<^sup>k\<close> is written with the
  next exponent.
\<close>

definition digitsOfLength :: "rat \<Rightarrow> int \<Rightarrow> nat \<Rightarrow> (int \<times> int) option" where
  "digitsOfLength x n k =
     (let scale = tenTo (n - int k);
          lo = \<lfloor>x / scale\<rfloor>;
          okLo = (roundToDouble (of_int lo * scale) = Finite x);
          okHi = (roundToDouble (of_int (lo + 1) * scale) = Finite x);
          hi = (if lo + 1 = 10 ^ k then (10 ^ (k - 1), n + 1) else (lo + 1, n))
      in if okLo \<and> okHi
         then (if x / scale - of_int lo < of_int (lo + 1) - x / scale then Some (lo, n)
               else if of_int (lo + 1) - x / scale < x / scale - of_int lo then Some hi
               else if even lo then Some (lo, n) else Some hi)
         else if okLo then Some (lo, n)
         else if okHi then Some hi
         else None)"

text \<open>
  The search from \<open>k\<close> digits on. Seventeen digits tell any two doubles apart, so for a
  double the search ends before the count of tries runs out.
\<close>

fun shortestDigits :: "nat \<Rightarrow> rat \<Rightarrow> int \<Rightarrow> nat \<Rightarrow> int \<times> int" where
  "shortestDigits 0 x n k = (\<lfloor>x / tenTo (n - int k)\<rfloor>, n)"
| "shortestDigits (Suc tries) x n k =
     (case digitsOfLength x n k of
        Some r \<Rightarrow> r
      | None \<Rightarrow> shortestDigits tries x n (Suc k))"

text \<open>
  The text of a positive number from its digits and its exponent: plain decimal when
  \<open>-6 < n \<le> 21\<close>, else the exponent form.
\<close>

definition positiveToString :: "rat \<Rightarrow> string" where
  "positiveToString x =
     (case shortestDigits 17 x (decimalExponent x) 1 of
        (s, n) \<Rightarrow>
          (let ds = decimalDigits s; k = int (length ds)
           in if - 6 < n \<and> n \<le> 21
              then (if k \<le> n then ds @ replicate (nat (n - k)) (CHR ''0'')
                    else if 0 < n then take (nat n) ds @ ''.'' @ drop (nat n) ds
                    else ''0.'' @ replicate (nat (- n)) (CHR ''0'') @ ds)
              else take 1 ds @ (if k = 1 then [] else ''.'' @ drop 1 ds) @ ''e''
                     @ (if 0 \<le> n - 1 then ''+'' else ''-'') @ decimalDigits \<bar>n - 1\<bar>))"

text \<open>\<^verbatim>\<open>String(x)\<close> for a number.\<close>

definition numberToString :: "jsNumber \<Rightarrow> string" where
  "numberToString a =
     (case a of
        NaN \<Rightarrow> ''NaN''
      | PosInfinity \<Rightarrow> ''Infinity''
      | NegInfinity \<Rightarrow> ''-Infinity''
      | Finite x \<Rightarrow>
          if x = 0 then ''0''
          else if x < 0 then ''-'' @ positiveToString (- x)
          else positiveToString x)"

section \<open>JavaScript values and \<^verbatim>\<open>String.prototype.replace\<close>\<close>

text \<open>
  The values that travel through the server: request parameters, JSON bodies, bind values
  and the values a database driver hands back. An object is the list of its own
  properties in enumeration order. \<open>JNative name\<close> is what a plain object inherits
  from \<^verbatim>\<open>Object.prototype\<close> under \<open>name\<close>: a built-in function, or for \<^verbatim>\<open>__proto__\<close> the
  prototype itself. Dates and buffers are outside this datatype.
\<close>

datatype json =
    JUndefined
  | JNull
  | JBool bool
  | JNum jsNumber
  | JStr string
  | JArr "json list"
  | JObj "(string \<times> json) list"
  | JNative string

text \<open>\<^verbatim>\<open>Array.prototype.join\<close>.\<close>

fun joinWith :: "string \<Rightarrow> string list \<Rightarrow> string" where
  "joinWith sep [] = []"
| "joinWith sep [x] = x"
| "joinWith sep (x # y # ys) = x @ sep @ joinWith sep (y # ys)"

text \<open>
  \<^verbatim>\<open>String(value)\<close>, the conversion a template literal and \<^verbatim>\<open>replace\<close> apply to a value
  that is not a string: an array joins its elements with commas (\<^verbatim>\<open>null\<close> and
  \<^verbatim>\<open>undefined\<close> elements render empty), a plain object renders as \<^verbatim>\<open>[object Object]\<close>,
  a built-in function as Node prints it; the function under \<^verbatim>\<open>constructor\<close> is \<^verbatim>\<open>Object\<close>.
\<close>

fun jsToString :: "json \<Rightarrow> string" where
  "jsToString JUndefined = ''undefined''"
| "jsToString JNull = ''null''"
| "jsToString (JBool b) = (if b then ''true'' else ''false'')"
| "jsToString (JNum x) = numberToString x"
| "jsToString (JStr s) = s"
| "jsToString (JArr xs) =
     joinWith '','' (map (\<lambda>x. if x = JNull \<or> x = JUndefined then [] else jsToString x) xs)"
| "jsToString (JObj kvs) = ''[object Object]''"
| "jsToString (JNative name) =
     (if name = ''__proto__'' then ''[object Object]''
      else ''function '' @ (if name = ''constructor'' then ''Object'' else name)
             @ ''() { [native code] }'')"

definition isStringValue :: "json \<Rightarrow> bool" where
  "isStringValue v = (case v of JStr _ \<Rightarrow> True | _ \<Rightarrow> False)"

text \<open>
  The replacement patterns of \<^verbatim>\<open>replace\<close> when the replacement is a string and the
  regular expression has no capture group: \<^verbatim>\<open>$$\<close> is a dollar sign, \<^verbatim>\<open>$&\<close> the matched
  text, \<^verbatim>\<open>$`\<close> the text preceding the match and \<^verbatim>\<open>$'\<close> the text following it; any other
  character, a dollar sign included, stands for itself.
\<close>

fun expandReplacement :: "string \<Rightarrow> string \<Rightarrow> string \<Rightarrow> string \<Rightarrow> string" where
  "expandReplacement [] matched preceding following = []"
| "expandReplacement [c] matched preceding following = [c]"
| "expandReplacement (c # d # r) matched preceding following =
     (if c = CHR ''$'' \<and> d = CHR ''$'' then CHR ''$'' # expandReplacement r matched preceding following
      else if c = CHR ''$'' \<and> d = CHR ''&'' then matched @ expandReplacement r matched preceding following
      else if c = CHR ''$'' \<and> d = CHR 0x60 then preceding @ expandReplacement r matched preceding following
      else if c = CHR ''$'' \<and> d = CHR 0x27 then following @ expandReplacement r matched preceding following
      else c # expandReplacement (d # r) matched preceding following)"

text \<open>
  \<^verbatim>\<open>text.replace(re, replacement)\<close> for a regular expression with the \<^verbatim>\<open>g\<close> flag:
  every match, found as in \<open>matchAllRe\<close>, is replaced by the expanded replacement;
  \<open>preceding\<close> is the text already scanned.
\<close>

fun replaceFrom :: "(string \<Rightarrow> reMatch option) \<Rightarrow> string \<Rightarrow> string \<Rightarrow> string \<Rightarrow> string" where
  "replaceFrom re replacement preceding [] = []"
| "replaceFrom re replacement preceding (c # cs) =
     (case re (c # cs) of
        Some m \<Rightarrow>
          expandReplacement replacement (matchText m) preceding (drop (length (matchText m) - 1) cs)
            @ replaceFrom re replacement (preceding @ take (length (matchText m)) (c # cs))
                (drop (length (matchText m) - 1) cs)
      | None \<Rightarrow> c # replaceFrom re replacement (preceding @ [c]) cs)"

definition replaceAllRe :: "(string \<Rightarrow> reMatch option) \<Rightarrow> string \<Rightarrow> string \<Rightarrow> string" where
  "replaceAllRe re replacement text = replaceFrom re replacement [] text"

text \<open>
  A regular expression built as \<^verbatim>\<open>new RegExp(`${lit}\\b`, 'g')\<close> from a literal text that
  ends in a word character (\<^verbatim>\<open>@name\<close>, \<^verbatim>\<open>$name\<close>, \<^verbatim>\<open>:name\<close> with a name of word
  characters): the literal, followed by the end of the text or by a character that is not
  a word character.
\<close>

definition literalBoundaryAt :: "string \<Rightarrow> string \<Rightarrow> reMatch option" where
  "literalBoundaryAt lit s =
     (if lit \<noteq> [] \<and> take (length lit) s = lit \<and>
         (case drop (length lit) s of [] \<Rightarrow> True | d # _ \<Rightarrow> \<not> isWordChar d)
      then Some \<lparr>matchText = lit, group1 = []\<rparr>
      else None)"

text \<open>The same without the \<^verbatim>\<open>\b\<close>: \<^verbatim>\<open>new RegExp(lit, 'g')\<close> for a literal text.\<close>

definition literalAt :: "string \<Rightarrow> string \<Rightarrow> reMatch option" where
  "literalAt lit s =
     (if lit \<noteq> [] \<and> take (length lit) s = lit
      then Some \<lparr>matchText = lit, group1 = []\<rparr>
      else None)"

section \<open>ExecutionOrchestrator: substituting procedure outputs\<close>

text \<open>
  The loop over \<^verbatim>\<open>Object.entries(procedureResult.outBinds)\<close> that rewrites the trailing
  query: every \<^verbatim>\<open>@key\<close> (up to a word boundary) is replaced by the output value, wrapped
  in single quotes when \<^verbatim>\<open>typeof value === 'string'\<close> and converted by \<^verbatim>\<open>replace\<close>
  itself otherwise. The keys are names of word characters, and the values are what a
  driver hands back, so none is a function.
\<close>

definition outputReplacement :: "json \<Rightarrow> string" where
  "outputReplacement v =
     (if isStringValue v then [CHR 0x27] @ jsToString v @ [CHR 0x27] else jsToString v)"

fun substituteOutBinds :: "(string \<times> json) list \<Rightarrow> string \<Rightarrow> string" where
  "substituteOutBinds [] modifiedSql = modifiedSql"
| "substituteOutBinds ((key, v) # entries) modifiedSql =
     substituteOutBinds entries
       (replaceAllRe (literalBoundaryAt (CHR ''@'' # key)) (outputReplacement v) modifiedSql)"






section \<open>ParameterValidator\<close>

text \<open>
  A declared parameter (\<^verbatim>\<open>endpoint.pathParams\<close>, \<^verbatim>\<open>endpoint.queryParams\<close>). An absent
  field is \<open>None\<close>; a field that is there has the type the configuration screen gives it:
  the bounds are finite numbers, the precision and the maximum length are counts.
\<close>

datatype paramType = TString | TNumber | TDate | TObject | TArray

record stringConstraints =
  maxLength :: "nat option"
  allowedValues :: "string option"

record numberConstraints =
  minimum :: "rat option"
  maximum :: "rat option"
  precision :: "nat option"

record paramConfig =
  paramName :: string
  ptype :: "paramType option"
  required :: bool
  stringCons :: "stringConstraints option"
  numberCons :: "numberConstraints option"
  dateFormat :: "string option"

text \<open>\<^verbatim>\<open>configs.find(p => p.name === param)\<close>.\<close>

definition findConfig :: "paramConfig list \<Rightarrow> string \<Rightarrow> paramConfig option" where
  "findConfig configs param = find (\<lambda>p. paramName p = param) configs"

text \<open>What \<^verbatim>\<open>convertAndValidateValue\<close> returns: the value to bind.\<close>

datatype validated = VNull | VString string | VNumber jsNumber | VDate json

definition isDigit :: "char \<Rightarrow> bool" where
  "isDigit c = (c \<in> set ''0123456789'')"

text \<open>
  The white space \<^verbatim>\<open>trim\<close> removes and \<^verbatim>\<open>parseFloat\<close> skips: tab, line feed, vertical
  tab, form feed, carriage return, space and no-break space (the characters of that class
  below 256).
\<close>

definition isJsSpace :: "char \<Rightarrow> bool" where
  "isJsSpace c = (c \<in> {CHR 0x09, CHR 0x0A, CHR 0x0B, CHR 0x0C, CHR 0x0D, CHR 0x20, CHR 0xA0})"

definition jsTrim :: "string \<Rightarrow> string" where
  "jsTrim s = rev (dropWhile isJsSpace (rev (dropWhile isJsSpace s)))"

text \<open>\<^verbatim>\<open>s.split(sep)\<close> for a separator of one character.\<close>

fun splitChar :: "char \<Rightarrow> string \<Rightarrow> string list" where
  "splitChar sep [] = [[]]"
| "splitChar sep (c # cs) =
     (if c = sep then [] # splitChar sep cs
      else case splitChar sep cs of
             p # ps \<Rightarrow> (c # p) # ps
           | [] \<Rightarrow> [[c]])"

text \<open>\<^verbatim>\<open>text.includes(part)\<close>.\<close>

fun strIncludes :: "string \<Rightarrow> string \<Rightarrow> bool" where
  "strIncludes [] part = (part = [])"
| "strIncludes (c # cs) part = (take (length part) (c # cs) = part \<or> strIncludes cs part)"

definition digitValue :: "char \<Rightarrow> int" where
  "digitValue c = of_char c - of_char (CHR ''0'')"

definition digitsValue :: "string \<Rightarrow> int" where
  "digitsValue ds = foldl (\<lambda>a c. 10 * a + digitValue c) 0 ds"

text \<open>The test \<^verbatim>\<open>/^[+-]?(\d+(\.\d*)?|\.\d+)$/\<close>.\<close>

definition isNumericLiteral :: "string \<Rightarrow> bool" where
  "isNumericLiteral s =
     (let body = (case s of c # r \<Rightarrow> if c = CHR ''+'' \<or> c = CHR ''-'' then r else s | [] \<Rightarrow> s);
          intPart = takeWhile isDigit body;
          rest = dropWhile isDigit body
      in if intPart \<noteq> []
         then (case rest of [] \<Rightarrow> True | d # fr \<Rightarrow> d = CHR ''.'' \<and> list_all isDigit fr)
         else (case rest of [] \<Rightarrow> False | d # fr \<Rightarrow> d = CHR ''.'' \<and> fr \<noteq> [] \<and> list_all isDigit fr))"

text \<open>
  \<^verbatim>\<open>parseFloat(text)\<close>: leading white space is skipped, then the longest decimal text is
  read, a sign, digits and a fraction, and the number it denotes is rounded to a double;
  without a digit the result is \<^verbatim>\<open>NaN\<close>. The exponent and \<^verbatim>\<open>Infinity\<close> forms are left
  out: no text that passed \<open>isNumericLiteral\<close> has one.
\<close>

definition parseUnsigned :: "string \<Rightarrow> rat option" where
  "parseUnsigned s =
     (let intPart = takeWhile isDigit s;
          rest = dropWhile isDigit s;
          fracPart = (case rest of d # fr \<Rightarrow> if d = CHR ''.'' then takeWhile isDigit fr else []
                                 | [] \<Rightarrow> [])
      in if intPart = [] \<and> fracPart = [] then None
         else Some (of_int (digitsValue intPart)
                      + of_int (digitsValue fracPart) / 10 ^ length fracPart))"

definition parseFloat :: "string \<Rightarrow> jsNumber" where
  "parseFloat s =
     (case dropWhile isJsSpace s of
        c # r \<Rightarrow>
          if c = CHR ''-''
          then (case parseUnsigned r of Some q \<Rightarrow> roundToDouble (- q) | None \<Rightarrow> NaN)
          else if c = CHR ''+''
          then (case parseUnsigned r of Some q \<Rightarrow> roundToDouble q | None \<Rightarrow> NaN)
          else (case parseUnsigned (c # r) of Some q \<Rightarrow> roundToDouble q | None \<Rightarrow> NaN)
      | [] \<Rightarrow> NaN)"

text \<open>A count inside an error message, as a template literal writes a number.\<close>

definition showCount :: "nat \<Rightarrow> string" where
  "showCount n = numberToString (Finite (of_nat n))"

text \<open>
  \<^verbatim>\<open>validateStringConstraints(value, constraints)\<close>; \<open>Inl\<close> is the message of the error
  thrown. A \<^verbatim>\<open>maxLength\<close> of 0 and an empty \<^verbatim>\<open>allowedValues\<close> are falsy and switch the
  check off.
\<close>

definition validateStringConstraints :: "string \<Rightarrow> stringConstraints \<Rightarrow> string + unit" where
  "validateStringConstraints v constraints =
     (if v = [] then Inr ()
      else case (case maxLength constraints of
                   Some n \<Rightarrow> if n \<noteq> 0 \<and> length v > n then Some n else None
                 | None \<Rightarrow> None) of
             Some n \<Rightarrow> Inl (''Value exceeds maximum length of '' @ showCount n @ '' characters'')
           | None \<Rightarrow>
          case allowedValues constraints of
             None \<Rightarrow> Inr ()
           | Some allowed \<Rightarrow>
               (let allowedList = filter (\<lambda>a. length a > 0) (map jsTrim (splitChar (CHR '','') allowed))
                in if allowed \<noteq> [] \<and> length allowedList > 0 \<and> v \<notin> set allowedList
                   then Inl (''Value must be one of: '' @ joinWith '', '' allowedList)
                   else Inr ()))"

text \<open>
  \<^verbatim>\<open>validateNumberConstraints(value, constraints)\<close>. It is handed the value as received,
  not the trimmed text: \<^verbatim>\<open>parseFloat\<close> and \<^verbatim>\<open>toString\<close> convert it themselves.
  \<^verbatim>\<open>NaN\<close> compares false with every bound and is not an integer.
\<close>

definition validateNumberConstraints :: "json \<Rightarrow> numberConstraints \<Rightarrow> string + unit" where
  "validateNumberConstraints v constraints =
     (let numValue = parseFloat (jsToString v) in
      case (case minimum constraints of
              Some lo \<Rightarrow> if numberLess numValue (Finite lo) then Some lo else None
            | None \<Rightarrow> None) of
        Some lo \<Rightarrow> Inl (''Value must be greater than or equal to '' @ numberToString (Finite lo))
      | None \<Rightarrow>
      case (case maximum constraints of
              Some hi \<Rightarrow> if numberLess (Finite hi) numValue then Some hi else None
            | None \<Rightarrow> None) of
        Some hi \<Rightarrow> Inl (''Value must be less than or equal to '' @ numberToString (Finite hi))
      | None \<Rightarrow>
      case precision constraints of
             None \<Rightarrow> Inr ()
           | Some p \<Rightarrow>
               if p = 0
               then (if numberIsInteger numValue then Inr ()
                     else Inl ''Value must be a whole number'')
               else (let decimalPlaces =
                           (case splitChar (CHR ''.'') (jsToString v) of
                              _ # fr # _ \<Rightarrow> length fr
                            | _ \<Rightarrow> 0)
                     in if decimalPlaces > p
                        then Inl (''Value cannot have more than '' @ showCount p @ '' decimal places'')
                        else Inr ()))"

text \<open>
  \<^verbatim>\<open>validateDateFormat\<close>: the Oracle format is rewritten token by token into a
  \<^verbatim>\<open>date-fns\<close> format, in the order of the source; the parse itself belongs to the
  \<^verbatim>\<open>date-fns\<close> library and is a parameter: \<open>dateParses value format\<close> says that
  \<^verbatim>\<open>parse\<close> returned a valid date.
\<close>

definition eitherLiteralAt :: "string \<Rightarrow> string \<Rightarrow> string \<Rightarrow> reMatch option" where
  "eitherLiteralAt a b s = (case literalAt a s of Some m \<Rightarrow> Some m | None \<Rightarrow> literalAt b s)"

definition toFnsFormat :: "string \<Rightarrow> string" where
  "toFnsFormat format =
     replaceAllRe (eitherLiteralAt ''AM'' ''PM'') ''a''
      (replaceAllRe (literalAt ''SS'') ''ss''
       (replaceAllRe (literalAt ''MI'') ''mm''
        (replaceAllRe (literalAt ''HH'') ''hh''
         (replaceAllRe (literalAt ''HH24'') ''HH''
          (replaceAllRe (literalAt ''DD'') ''dd''
           (replaceAllRe (literalAt ''MM'') ''MM''
            (replaceAllRe (literalAt ''YY'') ''yy''
             (replaceAllRe (literalAt ''YYYY'') ''yyyy'' format))))))))"

definition validateDateFormat :: "(json \<Rightarrow> string \<Rightarrow> bool) \<Rightarrow> json \<Rightarrow> string \<Rightarrow> string + unit" where
  "validateDateFormat dateParses v format =
     (if dateParses v (toFnsFormat format) then Inr ()
      else Inl (''Invalid date format. Expected format: '' @ format))"

text \<open>
  \<^verbatim>\<open>convertAndValidateValue(paramType, value, paramName, paramConfig)\<close>. The first argument
  is the parameter class, \<^verbatim>\<open>"path"\<close> or \<^verbatim>\<open>"query"\<close>. \<open>Inl\<close> carries the message of the
  error thrown.
\<close>

definition convertAndValidateValue ::
  "(json \<Rightarrow> string \<Rightarrow> bool) \<Rightarrow> string \<Rightarrow> json \<Rightarrow> string \<Rightarrow> paramConfig option
     \<Rightarrow> string + validated" where
  "convertAndValidateValue dateParses pclass v pname config =
     (if v = JNull \<or> v = JUndefined \<or> jsTrim (jsToString v) = []
      then (if (case config of Some c \<Rightarrow> required c | None \<Rightarrow> False)
            then Inl (''Required '' @ pclass @ '' parameter '' @ [CHR 0x27] @ pname @ [CHR 0x27]
                        @ '' must be provided.'')
            else Inr VNull)
      else
        let ty = (case config of Some c \<Rightarrow> (case ptype c of Some t \<Rightarrow> t | None \<Rightarrow> TString)
                               | None \<Rightarrow> TString);
            stringValue = jsTrim (jsToString v);
            named = pclass @ '' parameter '' @ [CHR 0x27] @ pname @ [CHR 0x27] @ '': ''
        in case ty of
             TString \<Rightarrow>
               (case (case config of Some c \<Rightarrow> stringCons c | None \<Rightarrow> None) of
                  Some sc \<Rightarrow>
                    (case validateStringConstraints stringValue sc of
                       Inl msg \<Rightarrow> Inl (''Invalid value for '' @ named @ msg)
                     | Inr _ \<Rightarrow> Inr (VString stringValue))
                | None \<Rightarrow> Inr (VString stringValue))
           | TNumber \<Rightarrow>
               if \<not> isNumericLiteral stringValue
               then Inl (''Invalid number value for '' @ named @ jsToString v)
               else if parseFloat stringValue = NaN
               then Inl (''Invalid number value for '' @ named @ jsToString v)
               else (case (case config of Some c \<Rightarrow> numberCons c | None \<Rightarrow> None) of
                       Some nc \<Rightarrow>
                         (case validateNumberConstraints v nc of
                            Inl msg \<Rightarrow> Inl (''Invalid value for '' @ named @ msg)
                          | Inr _ \<Rightarrow> Inr (VNumber (parseFloat stringValue)))
                     | None \<Rightarrow> Inr (VNumber (parseFloat stringValue)))
           | TDate \<Rightarrow>
               (let dateFmt = (case (case config of Some c \<Rightarrow> dateFormat c | None \<Rightarrow> None) of
                                 Some f \<Rightarrow> if f = [] then ''YYYY-MM-DD'' else f
                               | None \<Rightarrow> ''YYYY-MM-DD'')
                in case validateDateFormat dateParses v dateFmt of
                     Inl msg \<Rightarrow> Inl (''Invalid date format for '' @ named @ msg)
                   | Inr _ \<Rightarrow> Inr (VDate v))
           | _ \<Rightarrow> Inr (VString stringValue))"

text \<open>
  The texts the number test accepts, by their parts: a sign (empty, \<^verbatim>\<open>+\<close> or \<^verbatim>\<open>-\<close>), the
  digits before the point, the point (or nothing) and the digits after it; without a point
  there are digits, with a point there are digits on at least one side of it.
\<close>

definition numberText :: "string \<Rightarrow> string \<Rightarrow> string \<Rightarrow> string \<Rightarrow> bool" where
  "numberText sg ip dot fp \<longleftrightarrow>
     sg \<in> {[], ''+'', ''-''} \<and> list_all isDigit ip \<and> list_all isDigit fp \<and>
     ((dot = [] \<and> fp = [] \<and> ip \<noteq> []) \<or> (dot = ''.'' \<and> (ip \<noteq> [] \<or> fp \<noteq> [])))"

text \<open>The number such a text denotes, and the parsed value: the double nearest to it.\<close>

definition numberValue :: "string \<Rightarrow> string \<Rightarrow> string \<Rightarrow> rat" where
  "numberValue sg ip fp =
     (if sg = ''-'' then - 1 else 1) *
       (of_int (digitsValue ip) + of_int (digitsValue fp) / 10 ^ length fp)"

definition parsedValue :: "string \<Rightarrow> string \<Rightarrow> string \<Rightarrow> jsNumber" where
  "parsedValue sg ip fp = roundToDouble (numberValue sg ip fp)"

text \<open>
  The constraints of a number parameter, said of the parsed value and of how many digits
  the text has after the point: the value is not below the minimum nor above the maximum
  where they are set (an infinity lies beyond every bound); a precision of 0 asks for a
  whole number, a precision above 0 bounds the digits after the point.
\<close>

definition notBelow :: "rat \<Rightarrow> jsNumber \<Rightarrow> bool" where
  "notBelow lo v = (case v of Finite q \<Rightarrow> lo \<le> q | PosInfinity \<Rightarrow> True | _ \<Rightarrow> False)"

definition notAbove :: "rat \<Rightarrow> jsNumber \<Rightarrow> bool" where
  "notAbove hi v = (case v of Finite q \<Rightarrow> q \<le> hi | NegInfinity \<Rightarrow> True | _ \<Rightarrow> False)"

definition numberConstraintsHold :: "numberConstraints \<Rightarrow> jsNumber \<Rightarrow> nat \<Rightarrow> bool" where
  "numberConstraintsHold nc v places \<longleftrightarrow>
     (case minimum nc of None \<Rightarrow> True | Some lo \<Rightarrow> notBelow lo v) \<and>
     (case maximum nc of None \<Rightarrow> True | Some hi \<Rightarrow> notAbove hi v) \<and>
     (case precision nc of None \<Rightarrow> True
        | Some p \<Rightarrow> if p = 0 then (\<exists>i. v = Finite (of_int i)) else places \<le> p)"

text \<open>
  The grammar in the words of the specification, \<^verbatim>\<open>[+-]?digits[.digits]\<close>: an optional
  sign, digits, and optionally a point followed by digits.
\<close>

definition specNumericLiteral :: "string \<Rightarrow> bool" where
  "specNumericLiteral s =
     (let body = (case s of c # r \<Rightarrow> if c = CHR ''+'' \<or> c = CHR ''-'' then r else s | [] \<Rightarrow> s);
          intPart = takeWhile isDigit body;
          rest = dropWhile isDigit body
      in intPart \<noteq> [] \<and>
         (case rest of [] \<Rightarrow> True
            | d # fr \<Rightarrow> d = CHR ''.'' \<and> fr \<noteq> [] \<and> list_all isDigit fr))"

section \<open>Requests, responses and errors\<close>

text \<open>
  A JavaScript object is the list of its own properties in enumeration order: the names
  that are array indices first, in ascending order, then the other names in the order
  in which they were made. An array index is the decimal text, without a leading zero, of
  an integer below \<open>2\<^sup>3\<^sup>2 - 1\<close>.
\<close>

type_synonym 'v jsObject = "(string \<times> 'v) list"

definition arrayIndex :: "string \<Rightarrow> int option" where
  "arrayIndex k =
     (if k \<noteq> [] \<and> list_all isDigit k \<and> (k = ''0'' \<or> hd k \<noteq> CHR ''0'') \<and> length k \<le> 10 \<and>
         digitsValue k < 4294967295
      then Some (digitsValue k) else None)"

definition keyBefore :: "string \<Rightarrow> string \<Rightarrow> bool" where
  "keyBefore k k' =
     (case arrayIndex k of
        None \<Rightarrow> False
      | Some i \<Rightarrow> (case arrayIndex k' of None \<Rightarrow> True | Some j \<Rightarrow> i < j))"

fun insertProperty :: "string \<Rightarrow> 'v \<Rightarrow> 'v jsObject \<Rightarrow> 'v jsObject" where
  "insertProperty k v [] = [(k, v)]"
| "insertProperty k v ((k', v') # rest) =
     (if keyBefore k k' then (k, v) # (k', v') # rest else (k', v') # insertProperty k v rest)"

text \<open>
  The definition of an own property, as a spread and \<^verbatim>\<open>JSON.parse\<close> do it: a property
  that is there keeps its place and takes the value, a new one goes to its place in the
  enumeration order.
\<close>

definition objDefine :: "string \<Rightarrow> 'v \<Rightarrow> 'v jsObject \<Rightarrow> 'v jsObject" where
  "objDefine k v obj =
     (if k \<in> fst ` set obj then map (\<lambda>(k', v'). if k' = k then (k', v) else (k', v')) obj
      else insertProperty k v obj)"

text \<open>
  The members of \<^verbatim>\<open>Object.prototype\<close>, which every object made by a literal, a spread or
  \<^verbatim>\<open>JSON.parse\<close> inherits, and the read \<^verbatim>\<open>obj[k]\<close> on such an object: the own property, else
  the inherited member, else \<^verbatim>\<open>undefined\<close>.
\<close>

definition objectPrototypeNames :: "string list" where
  "objectPrototypeNames =
     [''constructor'', ''__defineGetter__'', ''__defineSetter__'', ''hasOwnProperty'',
      ''__lookupGetter__'', ''__lookupSetter__'', ''isPrototypeOf'', ''propertyIsEnumerable'',
      ''toString'', ''valueOf'', ''__proto__'', ''toLocaleString'']"

definition objGet :: "json jsObject \<Rightarrow> string \<Rightarrow> json" where
  "objGet obj k =
     (case map_of obj k of
        Some v \<Rightarrow> v
      | None \<Rightarrow> if k \<in> set objectPrototypeNames then JNative k else JUndefined)"

text \<open>
  The assignment \<^verbatim>\<open>obj[k] = v\<close> on such an object defines the property, but for the name
  \<^verbatim>\<open>__proto__\<close> when the object has no own property of that name: the assignment then
  goes to the setter of \<^verbatim>\<open>Object.prototype\<close> and makes no property. (The setter changes
  what the object inherits when \<open>v\<close> is an object or \<^verbatim>\<open>null\<close>; the objects of the model
  keep inheriting from \<^verbatim>\<open>Object.prototype\<close>.)
\<close>

definition objSet :: "string \<Rightarrow> 'v \<Rightarrow> 'v jsObject \<Rightarrow> 'v jsObject" where
  "objSet k v obj =
     (if k = ''__proto__'' \<and> k \<notin> fst ` set obj then obj else objDefine k v obj)"

text \<open>
  \<^verbatim>\<open>{ ...a, ...b, ...c }\<close>: the properties of each object in turn are defined, in their
  order, on a new object.
\<close>

definition objSpread :: "'v jsObject list \<Rightarrow> 'v jsObject" where
  "objSpread objs = foldl (\<lambda>obj (k, v). objDefine k v obj) [] (concat objs)"

text \<open>What JavaScript takes for true in a condition.\<close>

definition jsTruthy :: "json \<Rightarrow> bool" where
  "jsTruthy v =
     (case v of
        JUndefined \<Rightarrow> False
      | JNull \<Rightarrow> False
      | JBool b \<Rightarrow> b
      | JNum x \<Rightarrow> x \<noteq> NaN \<and> x \<noteq> Finite 0
      | JStr s \<Rightarrow> s \<noteq> []
      | _ \<Rightarrow> True)"

text \<open>A thrown error: its \<^verbatim>\<open>name\<close>, its \<^verbatim>\<open>message\<close> and its \<^verbatim>\<open>status\<close>, when it has one.\<close>

record jsError =
  errName :: string
  errMessage :: string
  errStatus :: "nat option"

definition newError :: "string \<Rightarrow> jsError" where
  "newError msg = \<lparr>errName = ''Error'', errMessage = msg, errStatus = None\<rparr>"

text \<open>
  The JSON envelopes the server sends: \<^verbatim>\<open>{success: true, data}\<close>,
  \<^verbatim>\<open>{success: false, error}\<close>, \<^verbatim>\<open>{success: false, errors}\<close> and, for an unmatched
  route, \<^verbatim>\<open>{success: false, error, requestedPath}\<close>.
\<close>

datatype responseBody =
    SuccessData json
  | FailureError string
  | FailureErrors "string list"
  | FailureNotFound string string

record response =
  status :: nat
  body :: responseBody

record request =
  reqMethod :: string
  reqPath :: string
  authorization :: "string option"
  reqQuery :: "json jsObject"
  reqBody :: "json jsObject"

record endpoint =
  epName :: string
  epMethod :: string
  epUrl :: "string option"
  requireToken :: bool
  sqlQuery :: "string option"
  sqlProcedure :: "string option"
  epPathParams :: "paramConfig list"
  epQueryParams :: "paramConfig list"
  jsonSchema :: bool

section \<open>AuthGuard\<close>

text \<open>
  What \<^verbatim>\<open>validateToken\<close> asks of the \<^verbatim>\<open>jsonwebtoken\<close> library and of the database; these
  are parameters of the model.
  \<^item> \<open>jwtDecode token\<close> is \<^verbatim>\<open>jwt.decode(token, {complete: true})\<close>: it throws, returns
    \<^verbatim>\<open>null\<close>, or returns the decoded token, of which the model keeps the \<^verbatim>\<open>kid\<close> of the
    header (\<open>None\<close> when the header is missing) and whether there is a payload.
  \<^item> \<open>getConnection\<close> is the error \<^verbatim>\<open>getConnection()\<close> throws, if it throws.
  \<^item> \<open>keyLookup kid\<close> is the query on \<^verbatim>\<open>giis_token_key\<close>: an error, or the cell
    \<^verbatim>\<open>keyResult.rows[0][0]\<close> (\<^verbatim>\<open>undefined\<close> when there is no row).
  \<^item> \<open>jwtVerify token key\<close> is \<^verbatim>\<open>jwt.verify(token, Buffer.from(key, 'base64'))\<close>: the error
    thrown, or the \<^verbatim>\<open>jti\<close> of the verified token.
  \<^item> \<open>sessionLookup jti\<close> is the query on \<^verbatim>\<open>giis_auth_session\<close>: an error, or the rows,
    each given by its cell \<^verbatim>\<open>row[0]\<close>.
\<close>

datatype decodeResult =
    DecodeThrows jsError
  | DecodeNull
  | Decoded "json option" bool

record authEnv =
  jwtDecode :: "string \<Rightarrow> decodeResult"
  getConnection :: "jsError option"
  keyLookup :: "json \<Rightarrow> jsError + json"
  jwtVerify :: "string \<Rightarrow> json \<Rightarrow> jsError + json"
  sessionLookup :: "json \<Rightarrow> jsError + json list"

text \<open>The outcome of the guard: a response was sent, or \<^verbatim>\<open>next()\<close> was called.\<close>

datatype guard = Responded response | Next request

definition unauthorized :: "string \<Rightarrow> guard" where
  "unauthorized msg = Responded \<lparr>status = 401, body = FailureError msg\<rparr>"

text \<open>The part of \<^verbatim>\<open>validateToken\<close> from \<^verbatim>\<open>getConnection()\<close> on, whose errors are caught.\<close>

definition resolveSession :: "authEnv \<Rightarrow> request \<Rightarrow> string \<Rightarrow> json \<Rightarrow> jsError + request" where
  "resolveSession env req token keyId =
     (case getConnection env of
        Some e \<Rightarrow> Inl e
      | None \<Rightarrow>
          (case keyLookup env keyId of
             Inl e \<Rightarrow> Inl e
           | Inr tokenKey \<Rightarrow>
               if \<not> jsTruthy tokenKey then Inl (newError ''Invalid token'')
               else (case jwtVerify env token tokenKey of
                       Inl e \<Rightarrow> Inl e
                     | Inr jwtId \<Rightarrow>
                         if \<not> jsTruthy jwtId then Inl (newError ''Invalid token'')
                         else (case sessionLookup env jwtId of
                                 Inl e \<Rightarrow> Inl e
                               | Inr [] \<Rightarrow> Inl (newError ''Invalid token'')
                               | Inr (userId # _) \<Rightarrow>
                                   if reqMethod req = ''GET''
                                   then Inr (req\<lparr>reqQuery := objSet ''appUser'' userId (reqQuery req)\<rparr>)
                                   else Inr (req\<lparr>reqBody := objSet ''appUser'' userId (reqBody req)\<rparr>)))))"

text \<open>The \<^verbatim>\<open>catch\<close> block of \<^verbatim>\<open>validateToken\<close>.\<close>

definition tokenErrorMessage :: "jsError \<Rightarrow> string" where
  "tokenErrorMessage e =
     (if errName e = ''TokenExpiredError'' then ''Token has expired''
      else if errName e = ''JsonWebTokenError'' then ''Invalid token''
      else errMessage e)"

definition validateToken :: "authEnv \<Rightarrow> request \<Rightarrow> endpoint \<Rightarrow> guard" where
  "validateToken env req ep =
     (if \<not> requireToken ep then Next req
      else case authorization req of
             None \<Rightarrow> unauthorized ''No authorization header provided''
           | Some authHeader \<Rightarrow>
               if authHeader = [] then unauthorized ''No authorization header provided''
               else (case splitChar (CHR '' '') authHeader of
                       _ # token # _ \<Rightarrow>
                         if token = [] then unauthorized ''No token provided''
                         else (case jwtDecode env token of
                                 DecodeThrows e \<Rightarrow> unauthorized ''Invalid token format''
                               | DecodeNull \<Rightarrow> unauthorized ''Invalid token structure''
                               | Decoded None payload \<Rightarrow> unauthorized ''Invalid token structure''
                               | Decoded (Some keyId) payload \<Rightarrow>
                                   if \<not> payload then unauthorized ''Invalid token structure''
                                   else if \<not> jsTruthy keyId then unauthorized ''Token missing keyId''
                                   else (case resolveSession env req token keyId of
                                           Inl e \<Rightarrow> unauthorized (tokenErrorMessage e)
                                         | Inr req' \<Rightarrow> Next req'))
                     | _ \<Rightarrow> unauthorized ''No token provided''))"

section \<open>ExecutionOrchestrator: the handler of \<^verbatim>\<open>/api/*\<close>\<close>

datatype dbKind = Oracle | MySQL

datatype oracleType = ORA_STRING | ORA_NUMBER | ORA_DATE

text \<open>
  A bind of a procedure call: a validated value, or for Oracle an input bind of type
  string with its value, or an output bind with its type and \<^verbatim>\<open>maxSize\<close>. \<open>Inherited name\<close>
  is what a read of the binds under \<open>name\<close> gives when the binds have no such property
  and \<^verbatim>\<open>Object.prototype\<close> has a member of that name.
\<close>

datatype bindValue =
    Plain validated
  | OracleIn string
  | OracleOut oracleType "nat option"
  | Inherited string

text \<open>
  The environment of a request. Besides the database kind of the configuration and the
  environment of the guard:
  \<^item> \<open>dateParses\<close> is the \<^verbatim>\<open>date-fns\<close> parse used by \<open>validateDateFormat\<close>;
  \<^item> \<open>validateJsonPayload body\<close> is the list of messages of the JSON-schema validator for
    the endpoint's schema;
  \<^item> \<open>executeProcedure original body binds autoCommit\<close> is the call of
    \<^verbatim>\<open>executeProcedure\<close>: the error it throws, or the \<^verbatim>\<open>outBinds\<close> of its result
    (\<open>None\<close> when the result has none);
  \<^item> \<open>runQuery sql params outBinds autoCommit\<close> is the preparation of the engine's
    binds and the execution of the query, all that follows the substitution of the
    procedure's outputs: the error thrown, or the \<^verbatim>\<open>rows\<close> of the result.
\<close>

record env =
  dbType :: dbKind
  auth :: authEnv
  dateParses :: "json \<Rightarrow> string \<Rightarrow> bool"
  validateJsonPayload :: "json jsObject \<Rightarrow> string list"
  executeProcedure ::
    "string \<Rightarrow> string \<Rightarrow> bindValue jsObject \<Rightarrow> bool \<Rightarrow> jsError + json jsObject option"
  runQuery ::
    "string \<Rightarrow> validated jsObject \<Rightarrow> json jsObject option \<Rightarrow> bool \<Rightarrow> jsError + json"

text \<open>A step of the handler returns a response, throws, or goes on with a value.\<close>

datatype 'a outcome = Return response | Throw jsError | Continue 'a

text \<open>
  \<^verbatim>\<open>text && text.trim() !== ''\<close>, and the text itself; where the text is missing the
  handler does not read it.
\<close>

definition hasText :: "string option \<Rightarrow> bool" where
  "hasText t = (case t of Some s \<Rightarrow> jsTrim s \<noteq> [] | None \<Rightarrow> False)"

definition textOf :: "string option \<Rightarrow> string" where
  "textOf t = (case t of Some s \<Rightarrow> s | None \<Rightarrow> [])"

definition upperAscii :: "char \<Rightarrow> char" where
  "upperAscii c =
     (if c \<in> set ''abcdefghijklmnopqrstuvwxyz'' then char_of (of_char c - (32::nat)) else c)"

text \<open>
  The second alternative of \<^verbatim>\<open>/^BEGIN\s*|\s*;?\s*END;?$/gi\<close> tried at the head of the rest
  of the text: white space, an optional semicolon, white space, \<^verbatim>\<open>END\<close> in any case, an
  optional semicolon, and the end of the text.
\<close>

definition endTailAt :: "string \<Rightarrow> bool" where
  "endTailAt r =
     (let r1 = dropWhile isJsSpace r;
          r2 = (case r1 of c # t \<Rightarrow> if c = CHR '';'' then t else r1 | [] \<Rightarrow> r1);
          r3 = dropWhile isJsSpace r2
      in map upperAscii r3 = ''END'' \<or> map upperAscii r3 = ''END;'')"

fun cutEnd :: "string \<Rightarrow> string" where
  "cutEnd [] = []"
| "cutEnd (c # cs) = (if endTailAt (c # cs) then [] else c # cutEnd cs)"

text \<open>
  \<^verbatim>\<open>endpoint.sqlProcedure.trim().replace(/^BEGIN\s*|\s*;?\s*END;?$/gi, '').trim().replace(/;$/, '')\<close>:
  a leading \<^verbatim>\<open>BEGIN\<close> with the white space behind it and the closing \<^verbatim>\<open>END\<close> are cut,
  then one final semicolon.
\<close>

definition procedureBodyOf :: "string \<Rightarrow> string" where
  "procedureBodyOf sqlProc =
     (let t = jsTrim sqlProc;
          afterBegin = (if map upperAscii (take 5 t) = ''BEGIN''
                        then dropWhile isJsSpace (drop 5 t) else t);
          inner = jsTrim (cutEnd afterBegin)
      in if inner \<noteq> [] \<and> last inner = CHR '';'' then butlast inner else inner)"

subsection \<open>\<^verbatim>\<open>JSON.stringify\<close>\<close>

definition hexDigit :: "nat \<Rightarrow> char" where
  "hexDigit d = ''0123456789abcdef'' ! d"

definition jsonEscapeChar :: "char \<Rightarrow> string" where
  "jsonEscapeChar c =
     (if c = CHR 0x22 then [CHR 0x5C, CHR 0x22]
      else if c = CHR 0x5C then [CHR 0x5C, CHR 0x5C]
      else if c = CHR 0x08 then [CHR 0x5C, CHR ''b'']
      else if c = CHR 0x0C then [CHR 0x5C, CHR ''f'']
      else if c = CHR 0x0A then [CHR 0x5C, CHR ''n'']
      else if c = CHR 0x0D then [CHR 0x5C, CHR ''r'']
      else if c = CHR 0x09 then [CHR 0x5C, CHR ''t'']
      else if (of_char c :: nat) < 32
      then [CHR 0x5C, CHR ''u'', CHR ''0'', CHR ''0'',
            hexDigit ((of_char c :: nat) div 16), hexDigit ((of_char c :: nat) mod 16)]
      else [c])"

definition jsonQuote :: "string \<Rightarrow> string" where
  "jsonQuote s = [CHR 0x22] @ concat (map jsonEscapeChar s) @ [CHR 0x22]"

text \<open>
  A property whose value is \<^verbatim>\<open>undefined\<close> or a function is left out of an object; inside
  an array such a value is written \<^verbatim>\<open>null\<close>, as is a number that is not finite.
  \<^verbatim>\<open>Object.prototype\<close> has no property to enumerate. The server stringifies objects only.
\<close>

definition jsonOmitted :: "json \<Rightarrow> bool" where
  "jsonOmitted v =
     (case v of
        JUndefined \<Rightarrow> True
      | JNative name \<Rightarrow> name \<noteq> ''__proto__''
      | _ \<Rightarrow> False)"

fun jsonStringify :: "json \<Rightarrow> string" where
  "jsonStringify JUndefined = ''null''"
| "jsonStringify JNull = ''null''"
| "jsonStringify (JBool b) = (if b then ''true'' else ''false'')"
| "jsonStringify (JNum x) = (case x of Finite q \<Rightarrow> numberToString x | _ \<Rightarrow> ''null'')"
| "jsonStringify (JStr s) = jsonQuote s"
| "jsonStringify (JArr xs) = ''['' @ joinWith '','' (map jsonStringify xs) @ '']''"
| "jsonStringify (JObj kvs) =
     ''{'' @ joinWith '',''
              (map (\<lambda>kv. jsonQuote (fst kv) @ '':'' @ jsonStringify (snd kv))
                 (filter (\<lambda>kv. \<not> jsonOmitted (snd kv)) kvs))
       @ ''}''"
| "jsonStringify (JNative name) = (if name = ''__proto__'' then ''{}'' else ''null'')"

subsection \<open>Preparing the procedure call\<close>

text \<open>
  The bind sources: for \<^verbatim>\<open>GET\<close> path and query parameters, otherwise path, query and
  body for the procedure and path and body for the query.
\<close>

definition procBindSourceOf :: "json jsObject \<Rightarrow> request \<Rightarrow> json jsObject" where
  "procBindSourceOf pathPs req =
     (if reqMethod req = ''GET'' then objSpread [pathPs, reqQuery req]
      else objSpread [pathPs, reqQuery req, reqBody req])"

definition queryBindSourceOf :: "json jsObject \<Rightarrow> request \<Rightarrow> json jsObject" where
  "queryBindSourceOf pathPs req =
     (if reqMethod req = ''GET'' then objSpread [pathPs, reqQuery req]
      else objSpread [pathPs, reqBody req])"

text \<open>
  The dollar parameter (lines 1016 to 1045 of the source): the bind source is an object,
  so it is stringified; every single quote of the text is doubled; the value is bound
  under the dollar name, for Oracle as an input bind of type string; every \<^verbatim>\<open>$name\<close> of
  the body, up to a word boundary, becomes \<^verbatim>\<open>:name\<close>. The state is the body to execute and
  the binds.
\<close>

definition sanitizeQuotes :: "string \<Rightarrow> string" where
  "sanitizeQuotes paramValue = replaceAllRe (literalAt [CHR 0x27]) [CHR 0x27, CHR 0x27] paramValue"

definition bindDollarParam ::
  "dbKind \<Rightarrow> json jsObject \<Rightarrow> string \<Rightarrow> string \<times> bindValue jsObject \<Rightarrow> string \<times> bindValue jsObject" where
  "bindDollarParam db procBindSource originalProcedureBody st =
     (case extractDollarParam originalProcedureBody of
        None \<Rightarrow> st
      | Some dollarParam \<Rightarrow>
          (let sanitizedValue = sanitizeQuotes (jsonStringify (JObj procBindSource))
           in (replaceAllRe (literalBoundaryAt (CHR ''$'' # dollarParam)) (CHR '':'' # dollarParam) (fst st),
               objSet dollarParam
                 (if db = Oracle then OracleIn sanitizedValue else Plain (VString sanitizedValue))
                 (snd st))))"

text \<open>The loop over \<^verbatim>\<open>procParamDetails.pathParams\<close>.\<close>

fun validateProcPathParams ::
  "(json \<Rightarrow> string \<Rightarrow> bool) \<Rightarrow> paramConfig list \<Rightarrow> json jsObject \<Rightarrow> string list
     \<Rightarrow> string \<times> bindValue jsObject \<Rightarrow> jsError + string \<times> bindValue jsObject" where
  "validateProcPathParams dp configs src [] st = Inr st"
| "validateProcPathParams dp configs src (param # params) st =
     (if objGet src param \<noteq> JUndefined
      then (case convertAndValidateValue dp ''path'' (objGet src param) param (findConfig configs param) of
              Inl msg \<Rightarrow> Inl (newError msg)
            | Inr v \<Rightarrow>
                validateProcPathParams dp configs src params
                  (replaceAllRe (literalAt (CHR ''{'' # param @ ''}'')) (CHR '':'' # param) (fst st),
                   objSet param (Plain v) (snd st)))
      else if (case findConfig configs param of Some c \<Rightarrow> required c | None \<Rightarrow> False)
      then Inl (newError (''Required path parameter '' @ [CHR 0x27] @ param @ [CHR 0x27]
                            @ '' must be provided.''))
      else validateProcPathParams dp configs src params st)"

text \<open>The loop over \<^verbatim>\<open>procParamDetails.queryParams\<close>.\<close>

fun validateProcQueryParams ::
  "(json \<Rightarrow> string \<Rightarrow> bool) \<Rightarrow> paramConfig list \<Rightarrow> json jsObject \<Rightarrow> string list
     \<Rightarrow> bindValue jsObject \<Rightarrow> jsError + bindValue jsObject" where
  "validateProcQueryParams dp configs src [] validatedPs = Inr validatedPs"
| "validateProcQueryParams dp configs src (param # params) validatedPs =
     (case convertAndValidateValue dp ''query'' (objGet src param) param (findConfig configs param) of
        Inl msg \<Rightarrow> Inl (newError msg)
      | Inr v \<Rightarrow> validateProcQueryParams dp configs src params (objSet param (Plain v) validatedPs))"

definition getOracleType :: "paramConfig option \<Rightarrow> oracleType" where
  "getOracleType config =
     (case config of
        None \<Rightarrow> ORA_STRING
      | Some c \<Rightarrow>
          (case ptype c of
             Some TNumber \<Rightarrow> ORA_NUMBER
           | Some TDate \<Rightarrow> ORA_DATE
           | _ \<Rightarrow> ORA_STRING))"

text \<open>The loop over \<^verbatim>\<open>procParamDetails.outputParams\<close>, run for Oracle only.\<close>

fun setupOutputParams ::
  "paramConfig list \<Rightarrow> string list \<Rightarrow> string \<times> bindValue jsObject \<Rightarrow> string \<times> bindValue jsObject" where
  "setupOutputParams configs [] st = st"
| "setupOutputParams configs (param # params) st =
     setupOutputParams configs params
       (replaceAllRe (literalAt (CHR ''@'' # param)) (CHR '':'' # param) (fst st),
        objSet param
          (OracleOut (getOracleType (findConfig configs param))
             (if getOracleType (findConfig configs param) = ORA_STRING then Some 4000 else None))
          (snd st))"

text \<open>
  The block \<^verbatim>\<open>if (isProcedureOnly || isProcedureThenQuery)\<close> before the execution: the
  original body, the body to execute and the binds.
\<close>

definition prepareProcedure ::
  "env \<Rightarrow> endpoint \<Rightarrow> json jsObject \<Rightarrow> request \<Rightarrow> (string \<times> string \<times> bindValue jsObject) outcome" where
  "prepareProcedure e ep pathPs req =
     (if jsonSchema ep \<and> validateJsonPayload e (reqBody req) \<noteq> []
      then Return \<lparr>status = 400, body = FailureErrors (validateJsonPayload e (reqBody req))\<rparr>
      else
        let procBindSource = procBindSourceOf pathPs req;
            originalProcedureBody = procedureBodyOf (textOf (sqlProcedure ep));
            st0 = bindDollarParam (dbType e) procBindSource originalProcedureBody
                    (originalProcedureBody, []);
            procParamDetails = extractParamDetails originalProcedureBody
        in case validateProcPathParams (dateParses e) (epPathParams ep) procBindSource
                  (pathParams procParamDetails) st0 of
             Inl err \<Rightarrow> Throw err
           | Inr st1 \<Rightarrow>
               (case validateProcQueryParams (dateParses e) (epQueryParams ep) procBindSource
                       (queryParams procParamDetails) (snd st1) of
                  Inl err \<Rightarrow> Throw err
                | Inr validatedPs \<Rightarrow>
                    (let st2 = (if dbType e = Oracle
                                then setupOutputParams (epPathParams ep @ epQueryParams ep)
                                       (outputParams procParamDetails) (fst st1, validatedPs)
                                else (fst st1, validatedPs))
                     in Continue (originalProcedureBody, fst st2, snd st2))))"

subsection \<open>Preparing the query\<close>

text \<open>The loops over \<^verbatim>\<open>queryParamDetails.pathParams\<close> and \<^verbatim>\<open>queryParamDetails.queryParams\<close>.\<close>

fun validateQueryPathParams ::
  "(json \<Rightarrow> string \<Rightarrow> bool) \<Rightarrow> paramConfig list \<Rightarrow> json jsObject \<Rightarrow> string list
     \<Rightarrow> string \<times> validated jsObject \<Rightarrow> jsError + string \<times> validated jsObject" where
  "validateQueryPathParams dp configs src [] st = Inr st"
| "validateQueryPathParams dp configs src (param # params) st =
     (case convertAndValidateValue dp ''path'' (objGet src param) param (findConfig configs param) of
        Inl msg \<Rightarrow> Inl (newError msg)
      | Inr v \<Rightarrow>
          validateQueryPathParams dp configs src params
            (replaceAllRe (literalAt (CHR ''{'' # param @ ''}'')) (CHR '':'' # param) (fst st),
             objSet param v (snd st)))"

fun validateQueryQueryParams ::
  "(json \<Rightarrow> string \<Rightarrow> bool) \<Rightarrow> paramConfig list \<Rightarrow> json jsObject \<Rightarrow> string list
     \<Rightarrow> validated jsObject \<Rightarrow> jsError + validated jsObject" where
  "validateQueryQueryParams dp configs src [] validatedPs = Inr validatedPs"
| "validateQueryQueryParams dp configs src (param # params) validatedPs =
     (case convertAndValidateValue dp ''query'' (objGet src param) param (findConfig configs param) of
        Inl msg \<Rightarrow> Inl (newError msg)
      | Inr v \<Rightarrow> validateQueryQueryParams dp configs src params (objSet param v validatedPs))"

definition prepareQuery ::
  "env \<Rightarrow> endpoint \<Rightarrow> json jsObject \<Rightarrow> request \<Rightarrow> (string \<times> validated jsObject) outcome" where
  "prepareQuery e ep pathPs req =
     (let queryBindSource = queryBindSourceOf pathPs req;
          queryParamDetails = extractParamDetails (textOf (sqlQuery ep))
      in case validateQueryPathParams (dateParses e) (epPathParams ep) queryBindSource
                (pathParams queryParamDetails) (textOf (sqlQuery ep), []) of
           Inl err \<Rightarrow> Throw err
         | Inr st \<Rightarrow>
             (case validateQueryQueryParams (dateParses e) (epQueryParams ep) queryBindSource
                     (queryParams queryParamDetails) (snd st) of
                Inl err \<Rightarrow> Throw err
              | Inr validatedPs \<Rightarrow> Continue (fst st, validatedPs)))"

subsection \<open>Execution and response\<close>

text \<open>
  The body of the \<^verbatim>\<open>try\<close> block after the guard: validation of the procedure's
  parameters, validation of the query's parameters, the procedure, the query (with the
  outputs of the procedure substituted into its text), and the data of the response,
  \<^verbatim>\<open>queryResult?.rows || []\<close>.
\<close>

definition runEndpoint :: "env \<Rightarrow> endpoint \<Rightarrow> json jsObject \<Rightarrow> request \<Rightarrow> json outcome" where
  "runEndpoint e ep pathPs req =
     (let isGetRequest = (reqMethod req = ''GET'');
          hasProcedure = hasText (sqlProcedure ep);
          hasQuery = hasText (sqlQuery ep)
      in case (if hasProcedure then prepareProcedure e ep pathPs req
               else Continue ([], [], [])) of
           Return r \<Rightarrow> Return r
         | Throw err \<Rightarrow> Throw err
         | Continue (originalProcedureBody, executionProcedureBody, validatedProcParams) \<Rightarrow>
             (case (if hasQuery then prepareQuery e ep pathPs req else Continue ([], [])) of
                Return r \<Rightarrow> Return r
              | Throw err \<Rightarrow> Throw err
              | Continue (sqlToExecuteQuery, validatedQueryParams) \<Rightarrow>
                  (case (if hasProcedure
                         then (case executeProcedure e originalProcedureBody executionProcedureBody
                                      validatedProcParams (\<not> isGetRequest) of
                                 Inl err \<Rightarrow> Throw err
                               | Inr outs \<Rightarrow> Continue outs)
                         else Continue None) of
                     Return r \<Rightarrow> Return r
                   | Throw err \<Rightarrow> Throw err
                   | Continue procOutBinds \<Rightarrow>
                       if hasQuery
                       then (case runQuery e
                                     (case procOutBinds of
                                        Some outs \<Rightarrow> substituteOutBinds outs sqlToExecuteQuery
                                      | None \<Rightarrow> sqlToExecuteQuery)
                                     validatedQueryParams procOutBinds
                                     (\<not> isGetRequest \<and> \<not> hasProcedure) of
                               Inl err \<Rightarrow> Throw err
                             | Inr rows \<Rightarrow> Continue (if jsTruthy rows then rows else JArr []))
                       else Continue (JArr []))))"

text \<open>The \<^verbatim>\<open>catch\<close> block of the handler.\<close>

definition errorResponse :: "jsError \<Rightarrow> response" where
  "errorResponse err =
     \<lparr>status =
        (if strIncludes (errMessage err) ''must be provided'' \<or>
            strIncludes (errMessage err) ''not found from procedure'' \<or>
            strIncludes (errMessage err) ''Invalid''
         then 400
         else case errStatus err of Some s \<Rightarrow> if s = 0 then 500 else s | None \<Rightarrow> 500),
      body = FailureError (if errMessage err = [] then ''Failed to execute endpoint''
                           else errMessage err)\<rparr>"

text \<open>
  The handler once an endpoint has matched, with the path parameters captured from the
  URL. When the guard has responded its promise never resolves, and the response of the
  guard is the response of the request.
\<close>

definition handleMatched :: "env \<Rightarrow> endpoint \<Rightarrow> json jsObject \<Rightarrow> request \<Rightarrow> response" where
  "handleMatched e ep pathPs req =
     (case validateToken (auth e) req ep of
        Responded r \<Rightarrow> r
      | Next req' \<Rightarrow>
          (case runEndpoint e ep pathPs req' of
             Return r \<Rightarrow> r
           | Throw err \<Rightarrow> errorResponse err
           | Continue rows \<Rightarrow> \<lparr>status = 200, body = SuccessData rows\<rparr>))"

subsection \<open>The validation steps, one parameter at a time\<close>

text \<open>
  What one turn of each validation loop does with one parameter; \<open>Some\<close> is the message
  of the error it throws. A path parameter of the procedure is validated when its value
  is there, and must be declared not required when it is not there; a query parameter,
  and a path parameter of the query, is handed to \<open>convertAndValidateValue\<close> as it is.
\<close>

definition procPathFailure :: "env \<Rightarrow> endpoint \<Rightarrow> json jsObject \<Rightarrow> string \<Rightarrow> string option" where
  "procPathFailure e ep src p =
     (if objGet src p \<noteq> JUndefined
      then (case convertAndValidateValue (dateParses e) ''path'' (objGet src p) p
                   (findConfig (epPathParams ep) p) of
              Inl msg \<Rightarrow> Some msg
            | Inr _ \<Rightarrow> None)
      else if (case findConfig (epPathParams ep) p of Some c \<Rightarrow> required c | None \<Rightarrow> False)
      then Some (''Required path parameter '' @ [CHR 0x27] @ p @ [CHR 0x27] @ '' must be provided.'')
      else None)"

definition pathFailure :: "env \<Rightarrow> endpoint \<Rightarrow> json jsObject \<Rightarrow> string \<Rightarrow> string option" where
  "pathFailure e ep src p =
     (case convertAndValidateValue (dateParses e) ''path'' (objGet src p) p
             (findConfig (epPathParams ep) p) of
        Inl msg \<Rightarrow> Some msg
      | Inr _ \<Rightarrow> None)"

definition queryFailure :: "env \<Rightarrow> endpoint \<Rightarrow> json jsObject \<Rightarrow> string \<Rightarrow> string option" where
  "queryFailure e ep src p =
     (case convertAndValidateValue (dateParses e) ''query'' (objGet src p) p
             (findConfig (epQueryParams ep) p) of
        Inl msg \<Rightarrow> Some msg
      | Inr _ \<Rightarrow> None)"

text \<open>
  The parameters of a request in the order in which the handler validates them, each
  with the outcome of its validation taken alone: the path parameters of the procedure,
  its query parameters, then the path parameters of the query and its query parameters;
  the parameters of a statement the endpoint does not have are not validated.
\<close>

definition validationFailures ::
  "env \<Rightarrow> endpoint \<Rightarrow> json jsObject \<Rightarrow> request \<Rightarrow> string option list" where
  "validationFailures e ep pathPs req =
     (if hasText (sqlProcedure ep)
      then map (procPathFailure e ep (procBindSourceOf pathPs req))
             (pathParams (extractParamDetails (procedureBodyOf (textOf (sqlProcedure ep)))))
           @ map (queryFailure e ep (procBindSourceOf pathPs req))
               (queryParams (extractParamDetails (procedureBodyOf (textOf (sqlProcedure ep)))))
      else [])
     @ (if hasText (sqlQuery ep)
        then map (pathFailure e ep (queryBindSourceOf pathPs req))
               (pathParams (extractParamDetails (textOf (sqlQuery ep))))
             @ map (queryFailure e ep (queryBindSourceOf pathPs req))
                 (queryParams (extractParamDetails (textOf (sqlQuery ep))))
        else [])"

subsection \<open>The text of the procedure call, one rewriting at a time\<close>

text \<open>
  What the loops of the preparation do to the text to execute: every path placeholder
  whose value is there becomes a named bind, and for Oracle so does every output
  placeholder.
\<close>

fun rewriteProcPaths :: "json jsObject \<Rightarrow> string list \<Rightarrow> string \<Rightarrow> string" where
  "rewriteProcPaths src [] sql = sql"
| "rewriteProcPaths src (param # params) sql =
     rewriteProcPaths src params
       (if objGet src param \<noteq> JUndefined
        then replaceAllRe (literalAt (CHR ''{'' # param @ ''}'')) (CHR '':'' # param) sql
        else sql)"

fun rewriteOutputs :: "string list \<Rightarrow> string \<Rightarrow> string" where
  "rewriteOutputs [] sql = sql"
| "rewriteOutputs (param # params) sql =
     rewriteOutputs params (replaceAllRe (literalAt (CHR ''@'' # param)) (CHR '':'' # param) sql)"
section \<open>DialectAdapter: \<^verbatim>\<open>executeProcedure\<close> on MySQL\<close>

text \<open>
  The calls made on the connection, in order, are the trace of an execution. The
  database is a parameter: \<open>respond trace op\<close> is its answer to \<open>op\<close> after the calls of
  \<open>trace\<close>, a failure with the error thrown or the rows returned (for the
  \<^verbatim>\<open>SELECT @name as value\<close> of an output, the \<^verbatim>\<open>value\<close> of each row); \<open>connect\<close> is the
  error of \<^verbatim>\<open>getConnection()\<close>, if it throws.
\<close>

datatype dbOp =
    BeginTransaction
  | Execute string "bindValue list"
  | Query string
  | Commit
  | Rollback
  | Release

datatype dbReply = Failed jsError | Rows "json list"

record mysqlConn =
  connect :: "jsError option"
  respond :: "dbOp list \<Rightarrow> dbOp \<Rightarrow> dbReply"

record procedureRun =
  trace :: "dbOp list"
  outcome :: "jsError + json jsObject"

text \<open>\<^verbatim>\<open>/(\{(\w+)\}|:(\w+))/\<close> at the head of the text: a path placeholder, else an input bind.\<close>

definition bindPlaceholderAt :: "string \<Rightarrow> reMatch option" where
  "bindPlaceholderAt s =
     (case pathParamAt s of Some m \<Rightarrow> Some m | None \<Rightarrow> sigilParamAt (CHR '':'') s)"

text \<open>The loop of \<^verbatim>\<open>exec\<close> with the index of every match.\<close>

fun matchPositions :: "(string \<Rightarrow> reMatch option) \<Rightarrow> nat \<Rightarrow> string \<Rightarrow> (nat \<times> reMatch) list" where
  "matchPositions re i [] = []"
| "matchPositions re i (c # cs) =
     (case re (c # cs) of
        Some m \<Rightarrow> (i, m) # matchPositions re (i + length (matchText m))
                              (drop (length (matchText m) - 1) cs)
      | None \<Rightarrow> matchPositions re (Suc i) cs)"

record paramPosition =
  posStart :: nat
  posEnd :: nat
  posName :: string
  posValue :: bindValue

text \<open>
  The read \<^verbatim>\<open>params[paramName]\<close> on the binds, a plain object: the own property, else the
  member of \<^verbatim>\<open>Object.prototype\<close> of that name; \<open>None\<close> is \<^verbatim>\<open>undefined\<close>.
\<close>

definition bindGet :: "bindValue jsObject \<Rightarrow> string \<Rightarrow> bindValue option" where
  "bindGet params k =
     (case map_of params k of
        Some v \<Rightarrow> Some v
      | None \<Rightarrow> if k \<in> set objectPrototypeNames then Some (Inherited k) else None)"

text \<open>
  The positions of the placeholders whose parameter is defined, in text order; sorted by
  descending start they are this list reversed.
\<close>

definition paramPositions :: "string \<Rightarrow> bindValue jsObject \<Rightarrow> paramPosition list" where
  "paramPositions mysqlSql params =
     concat (map (\<lambda>(i, m).
                case bindGet params (group1 m) of
                  Some v \<Rightarrow> [\<lparr>posStart = i, posEnd = i + length (matchText m),
                               posName = group1 m, posValue = v\<rparr>]
                | None \<Rightarrow> [])
             (matchPositions bindPlaceholderAt 0 mysqlSql))"

text \<open>
  The replacement from the end to the start: each placeholder becomes \<^verbatim>\<open>?\<close> and its
  value is put in front of \<^verbatim>\<open>inParams\<close>.
\<close>

definition rewritePlaceholders :: "string \<Rightarrow> bindValue jsObject \<Rightarrow> string \<times> bindValue list" where
  "rewritePlaceholders mysqlSql params =
     foldl (\<lambda>(sql, inParams) pos.
              (take (posStart pos) sql @ ''?'' @ drop (posEnd pos) sql, posValue pos # inParams))
       (mysqlSql, []) (rev (paramPositions mysqlSql params))"

definition resetOp :: "string \<Rightarrow> dbOp" where
  "resetOp outName = Execute (''SET @'' @ outName @ '' = NULL'') []"

definition selectOp :: "string \<Rightarrow> dbOp" where
  "selectOp outName = Query (''SELECT @'' @ outName @ '' as value'')"

text \<open>The loop that sets every output variable to \<^verbatim>\<open>NULL\<close>; it stops at the first error.\<close>

fun resetOutputs ::
  "(dbOp list \<Rightarrow> dbOp \<Rightarrow> dbReply) \<Rightarrow> dbOp list \<Rightarrow> string list \<Rightarrow> dbOp list \<times> jsError option" where
  "resetOutputs r tr [] = (tr, None)"
| "resetOutputs r tr (outName # names) =
     (case r tr (resetOp outName) of
        Failed e \<Rightarrow> (tr @ [resetOp outName], Some e)
      | Rows _ \<Rightarrow> resetOutputs r (tr @ [resetOp outName]) names)"

text \<open>
  The loop that reads the output variables back: an error of the \<^verbatim>\<open>SELECT\<close> is caught
  and logged, and a result without rows sets nothing.
\<close>

fun fetchOutputs ::
  "(dbOp list \<Rightarrow> dbOp \<Rightarrow> dbReply) \<Rightarrow> dbOp list \<Rightarrow> string list \<Rightarrow> json jsObject
     \<Rightarrow> dbOp list \<times> json jsObject" where
  "fetchOutputs r tr [] outParams = (tr, outParams)"
| "fetchOutputs r tr (outName # names) outParams =
     (case r tr (selectOp outName) of
        Failed e \<Rightarrow> fetchOutputs r (tr @ [selectOp outName]) names outParams
      | Rows [] \<Rightarrow> fetchOutputs r (tr @ [selectOp outName]) names outParams
      | Rows (v # _) \<Rightarrow>
          fetchOutputs r (tr @ [selectOp outName]) names (objSet outName v outParams))"

text \<open>
  The inner \<^verbatim>\<open>try\<close> block: \<^verbatim>\<open>beginTransaction\<close>, the output names of the original body
  (one per occurrence of \<^verbatim>\<open>@name\<close>), the resets, the statement with positional markers,
  the outputs, \<^verbatim>\<open>commit\<close>. Without output names only the statement runs between
  \<^verbatim>\<open>beginTransaction\<close> and \<^verbatim>\<open>commit\<close>.
\<close>

definition mysqlTransaction ::
  "(dbOp list \<Rightarrow> dbOp \<Rightarrow> dbReply) \<Rightarrow> string \<Rightarrow> string \<Rightarrow> bindValue jsObject
     \<Rightarrow> dbOp list \<times> (jsError + json jsObject)" where
  "mysqlTransaction r originalProcedureBody procedureBody params =
     (case r [] BeginTransaction of
        Failed e \<Rightarrow> ([BeginTransaction], Inl e)
      | Rows _ \<Rightarrow>
          (let outputNames = map group1 (matchAllRe (sigilParamAt (CHR ''@'')) originalProcedureBody);
               statement = Execute (fst (rewritePlaceholders (jsTrim procedureBody) params))
                                   (snd (rewritePlaceholders (jsTrim procedureBody) params))
           in if outputNames \<noteq> []
              then (case resetOutputs r [BeginTransaction] outputNames of
                      (tr1, Some e) \<Rightarrow> (tr1, Inl e)
                    | (tr1, None) \<Rightarrow>
                        (case r tr1 statement of
                           Failed e \<Rightarrow> (tr1 @ [statement], Inl e)
                         | Rows _ \<Rightarrow>
                             (case fetchOutputs r (tr1 @ [statement]) outputNames [] of
                                (tr2, outParams) \<Rightarrow>
                                  (case r tr2 Commit of
                                     Failed e \<Rightarrow> (tr2 @ [Commit], Inl e)
                                   | Rows _ \<Rightarrow> (tr2 @ [Commit], Inr outParams)))))
              else (case r [BeginTransaction] statement of
                      Failed e \<Rightarrow> ([BeginTransaction, statement], Inl e)
                    | Rows _ \<Rightarrow>
                        (case r [BeginTransaction, statement] Commit of
                           Failed e \<Rightarrow> ([BeginTransaction, statement, Commit], Inl e)
                         | Rows _ \<Rightarrow> ([BeginTransaction, statement, Commit], Inr [])))))"

text \<open>
  \<^verbatim>\<open>executeProcedure\<close> for MySQL: an error of the inner block is answered by
  \<^verbatim>\<open>rollback\<close> and thrown again (an error of \<^verbatim>\<open>rollback\<close> itself replaces it); the
  connection is released at the end in every case.
\<close>

definition mysqlExecuteProcedure ::
  "mysqlConn \<Rightarrow> string \<Rightarrow> string \<Rightarrow> bindValue jsObject \<Rightarrow> procedureRun" where
  "mysqlExecuteProcedure conn originalProcedureBody procedureBody params =
     (case connect conn of
        Some e \<Rightarrow> \<lparr>trace = [], outcome = Inl e\<rparr>
      | None \<Rightarrow>
          (case mysqlTransaction (respond conn) originalProcedureBody procedureBody params of
             (tr, Inr outParams) \<Rightarrow> \<lparr>trace = tr @ [Release], outcome = Inr outParams\<rparr>
           | (tr, Inl e) \<Rightarrow>
               (case respond conn tr Rollback of
                  Failed e' \<Rightarrow> \<lparr>trace = tr @ [Rollback, Release], outcome = Inl e'\<rparr>
                | Rows _ \<Rightarrow> \<lparr>trace = tr @ [Rollback, Release], outcome = Inl e\<rparr>)))"

text \<open>The same as the \<open>executeProcedure\<close> of a request environment.\<close>

definition mysqlProcedureCall ::
  "mysqlConn \<Rightarrow> string \<Rightarrow> string \<Rightarrow> bindValue jsObject \<Rightarrow> bool \<Rightarrow> jsError + json jsObject option" where
  "mysqlProcedureCall conn originalProcedureBody procedureBody params autoCommit =
     (case outcome (mysqlExecuteProcedure conn originalProcedureBody procedureBody params) of
        Inl e \<Rightarrow> Inl e
      | Inr outParams \<Rightarrow> Inr (Some outParams))"

text \<open>
  The steps of the emulation before the outputs are read, and the reads: what the trace
  of a run is made of.
\<close>

definition procedureSteps :: "string \<Rightarrow> string \<Rightarrow> bindValue jsObject \<Rightarrow> dbOp list" where
  "procedureSteps originalProcedureBody procedureBody params =
     BeginTransaction
       # map resetOp (map group1 (matchAllRe (sigilParamAt (CHR ''@'')) originalProcedureBody))
       @ [Execute (fst (rewritePlaceholders (jsTrim procedureBody) params))
                  (snd (rewritePlaceholders (jsTrim procedureBody) params))]"

definition outputReads :: "string \<Rightarrow> dbOp list" where
  "outputReads originalProcedureBody =
     map selectOp (map group1 (matchAllRe (sigilParamAt (CHR ''@'')) originalProcedureBody))"

text \<open>
  The output names of a body, one per occurrence of \<^verbatim>\<open>@name\<close>, and what the reads of the
  variable \<open>n\<close> give when the reads of \<open>names\<close> are issued in order after the calls of
  \<open>tr\<close>: the value of the last read of \<open>n\<close> that came back with a row, and \<open>None\<close> when no
  read of \<open>n\<close> did.
\<close>

definition mysqlOutputNames :: "string \<Rightarrow> string list" where
  "mysqlOutputNames originalProcedureBody =
     map group1 (matchAllRe (sigilParamAt (CHR ''@'')) originalProcedureBody)"

fun lastRead :: "(dbOp list \<Rightarrow> dbOp \<Rightarrow> dbReply) \<Rightarrow> dbOp list \<Rightarrow> string list \<Rightarrow> string \<Rightarrow> json option" where
  "lastRead r tr [] n = None"
| "lastRead r tr (m # names) n =
     (case lastRead r (tr @ [selectOp m]) names n of
        Some v \<Rightarrow> Some v
      | None \<Rightarrow>
          if m = n
          then (case r tr (selectOp m) of Rows (v # _) \<Rightarrow> Some v | _ \<Rightarrow> None)
          else None)"

definition isRows :: "dbReply \<Rightarrow> bool" where
  "isRows reply = (case reply of Rows _ \<Rightarrow> True | Failed _ \<Rightarrow> False)"

text \<open>Every call of \<open>ops\<close>, issued in order after the calls of \<open>tr\<close>, is answered without failure.\<close>

fun allSucceed :: "(dbOp list \<Rightarrow> dbOp \<Rightarrow> dbReply) \<Rightarrow> dbOp list \<Rightarrow> dbOp list \<Rightarrow> bool" where
  "allSucceed r tr [] = True"
| "allSucceed r tr (op # ops) = (isRows (r tr op) \<and> allSucceed r (tr @ [op]) ops)"

section \<open>A sample environment\<close>

text \<open>
  A key store with one key, a session table with one session, and three tokens: one that
  verifies, one that has expired and one whose signature does not match. They serve the
  concrete instances below.
\<close>

definition sampleAuth :: authEnv where
  "sampleAuth =
     \<lparr>jwtDecode = (\<lambda>token. if token \<in> {''good'', ''expired'', ''forged''}
                            then Decoded (Some (JStr ''key-1'')) True else DecodeNull),
      getConnection = None,
      keyLookup = (\<lambda>keyId. Inr (if keyId = JStr ''key-1'' then JStr ''c2VjcmV0'' else JUndefined)),
      jwtVerify = (\<lambda>token key.
         if token = ''good'' then Inr (JStr ''session-1'')
         else if token = ''expired''
         then Inl \<lparr>errName = ''TokenExpiredError'', errMessage = ''jwt expired'', errStatus = None\<rparr>
         else Inl \<lparr>errName = ''JsonWebTokenError'', errMessage = ''invalid signature'',
                   errStatus = None\<rparr>),
      sessionLookup = (\<lambda>jwtId. Inr (if jwtId = JStr ''session-1'' then [JStr ''alice''] else []))\<rparr>"

definition sampleRequest :: "string \<Rightarrow> string \<Rightarrow> json jsObject \<Rightarrow> json jsObject \<Rightarrow> request" where
  "sampleRequest method token query payload =
     \<lparr>reqMethod = method, reqPath = ''/api/orders'', authorization = Some (''Bearer '' @ token),
      reqQuery = query, reqBody = payload\<rparr>"

definition sampleEndpoint :: "bool \<Rightarrow> string option \<Rightarrow> string option \<Rightarrow> paramConfig list \<Rightarrow> endpoint" where
  "sampleEndpoint guarded proc query queryConfigs =
     \<lparr>epName = ''orders'', epMethod = ''POST'', epUrl = Some ''/api/orders'',
      requireToken = guarded, sqlQuery = query, sqlProcedure = proc,
      epPathParams = [], epQueryParams = queryConfigs, jsonSchema = False\<rparr>"

text \<open>
  A MySQL-like environment whose procedure call returns the given output binds and whose
  query returns the given rows; every date parses and the payload validator finds nothing.
\<close>

definition sampleEnv :: "json jsObject option \<Rightarrow> json \<Rightarrow> env" where
  "sampleEnv outs rows =
     \<lparr>dbType = MySQL, auth = sampleAuth, dateParses = (\<lambda>v format. True),
      validateJsonPayload = (\<lambda>payload. []),
      executeProcedure = (\<lambda>original procBody binds autoCommit. Inr outs),
      runQuery = (\<lambda>sql params outBinds autoCommit. Inr rows)\<rparr>"

definition numberParam :: "string \<Rightarrow> paramConfig" where
  "numberParam n =
     \<lparr>paramName = n, ptype = Some TNumber, required = True, stringCons = None,
      numberCons = None, dateFormat = None\<rparr>"


text \<open>
  A connection that fails exactly the calls singled out and answers every other call
  with one row holding 42.
\<close>

definition sampleConn :: "(dbOp \<Rightarrow> bool) \<Rightarrow> mysqlConn" where
  "sampleConn failing =
     \<lparr>connect = None,
      respond = (\<lambda>tr op. if failing op then Failed (newError ''ER_FAILED'') else Rows [JNum (Finite 42)])\<rparr>"

definition isRead :: "dbOp \<Rightarrow> bool" where
  "isRead op = (case op of Query _ \<Rightarrow> True | _ \<Rightarrow> False)"

definition isStatement :: "dbOp \<Rightarrow> bool" where
  "isStatement op = (case op of Execute _ (_ # _) \<Rightarrow> True | _ \<Rightarrow> False)"

section \<open>ParameterExtractor: properties\<close>

lemma set_setInsertAll: "set (setInsertAll seen xs) = set seen \<union> set xs"
  by (induction xs arbitrary: seen) auto

lemma distinct_setInsertAll: "distinct seen \<Longrightarrow> distinct (setInsertAll seen xs)"
  by (induction xs arbitrary: seen) auto

lemma firstIndex_append_old: "a \<in> set pre \<Longrightarrow> firstIndex (pre @ xs) a = firstIndex pre a"
  by (simp add: firstIndex_def takeWhile_append1)

lemma firstIndex_less: assumes that: "a \<in> set pre" shows "firstIndex pre a < length pre"
proof -
  have "takeWhile (\<lambda>y. y \<noteq> a) pre \<noteq> pre" using that by (simp add: takeWhile_eq_all_conv)
  moreover have "length (takeWhile (\<lambda>y. y \<noteq> a) pre) \<le> length pre" by (rule length_takeWhile_le)
  moreover have "length (takeWhile (\<lambda>y. y \<noteq> a) pre) = length pre \<Longrightarrow> takeWhile (\<lambda>y. y \<noteq> a) pre = pre"
    by (metis takeWhile_eq_take take_all order_refl)
  ultimately show ?thesis unfolding firstIndex_def by linarith
qed

lemma firstIndex_new: "x \<notin> set pre \<Longrightarrow> firstIndex (pre @ x # xs) x = length pre"
  by (induction pre) (auto simp: firstIndex_def)

lemma sorted_setInsertAll:
  "distinct seen \<Longrightarrow> set seen = set pre \<Longrightarrow>
   sorted_wrt (\<lambda>a b. firstIndex pre a < firstIndex pre b) seen \<Longrightarrow>
   sorted_wrt (\<lambda>a b. firstIndex (pre @ xs) a < firstIndex (pre @ xs) b) (setInsertAll seen xs)"
proof (induction xs arbitrary: seen pre)
  case Nil
  then show ?case by simp
next
  case (Cons x xs)
  let ?pre = "pre @ [x]"
  let ?seen = "if x \<in> set seen then seen else seen @ [x]"
  have old: "firstIndex ?pre a = firstIndex pre a" if "a \<in> set pre" for a
    using that by (rule firstIndex_append_old)
  have s0: "sorted_wrt (\<lambda>a b. firstIndex ?pre a < firstIndex ?pre b) seen"
    using Cons.prems(3) Cons.prems(2) old
    by (auto elim!: sorted_wrt_mono_rel[rotated])
  have d: "distinct ?seen" using Cons.prems(1) by simp
  have e: "set ?seen = set ?pre" using Cons.prems(2) by auto
  have s: "sorted_wrt (\<lambda>a b. firstIndex ?pre a < firstIndex ?pre b) ?seen"
  proof (cases "x \<in> set seen")
    case True
    then show ?thesis using s0 by simp
  next
    case False
    then have xn: "x \<notin> set pre" using Cons.prems(2) by simp
    have "firstIndex ?pre a < firstIndex ?pre x" if "a \<in> set seen" for a
    proof -
      have "a \<in> set pre" using that Cons.prems(2) by simp
      then show ?thesis
        using firstIndex_new[OF xn, of "[]"] old[of a] firstIndex_less[of a pre] by simp
    qed
    then show ?thesis using s0 False by (simp add: sorted_wrt_append)
  qed
  from Cons.IH[OF d e s] show ?case by simp
qed

lemma newSet_props:
  "distinct (newSet xs)" "set (newSet xs) = set xs"
  "sorted_wrt (\<lambda>a b. firstIndex xs a < firstIndex xs b) (newSet xs)"
  using distinct_setInsertAll[of "[]" xs] set_setInsertAll[of "[]" xs]
    sorted_setInsertAll[of "[]" "[]" xs]
  by (simp_all add: newSet_def)

lemma sigilParamAt_Some:
  "sigilParamAt c s = Some m \<Longrightarrow>
     matchText m = c # group1 m \<and> group1 m \<noteq> [] \<and> (\<forall>w \<in> set (group1 m). isWordChar w)"
  by (auto simp: sigilParamAt_def Let_def split: list.splits if_splits dest: set_takeWhileD)

lemma matchAllRe_sigil:
  "m \<in> set (matchAllRe (sigilParamAt c) s) \<Longrightarrow>
     matchText m = c # group1 m \<and> group1 m \<noteq> [] \<and> (\<forall>w \<in> set (group1 m). isWordChar w)"
proof (induction "sigilParamAt c" s rule: matchAllRe.induct)
  case 1
  then show ?case by simp
next
  case (2 d ds)
  show ?case
  proof (cases "sigilParamAt c (d # ds)")
    case None
    with 2 show ?thesis by simp
  next
    case (Some m')
    with 2 show ?thesis using sigilParamAt_Some[OF Some] by auto
  qed
qed

lemma queryMatches_word: "n \<in> set (queryMatches sql) \<Longrightarrow> \<forall>w \<in> set n. isWordChar w"
  unfolding queryMatches_def using matchAllRe_sigil by fastforce

lemma detailsDollarParam_sigil: "detailsDollarParam sql = Some m \<Longrightarrow> \<exists>r. m = CHR ''$'' # r"
proof -
  assume a: "detailsDollarParam sql = Some m"
  then obtain z za zs where ms: "matchAllRe (sigilParamAt (CHR ''$'')) sql = z # za # zs" and m: "m = matchText za"
    by (auto simp: detailsDollarParam_def split: list.splits)
  have "za \<in> set (matchAllRe (sigilParamAt (CHR ''$'')) sql)" using ms by simp
  from matchAllRe_sigil[OF this] m show ?thesis by blast
qed

lemma dollar_filter_noop:
  "filter (\<lambda>p. Some p \<noteq> detailsDollarParam sql) (newSet (queryMatches sql)) = newSet (queryMatches sql)"
proof -
  have "Some p \<noteq> detailsDollarParam sql" if "p \<in> set (newSet (queryMatches sql))" for p
  proof
    assume "Some p = detailsDollarParam sql"
    then obtain r where "p = CHR ''$'' # r" using detailsDollarParam_sigil[of sql p] by auto
    moreover have "\<forall>w \<in> set p. isWordChar w" using that queryMatches_word by (simp add: newSet_props)
    ultimately show False by (simp add: isWordChar_def)
  qed
  then show ?thesis by (simp add: filter_id_conv)
qed

text \<open>
  C1 (as amended). For every SQL or procedure text, \<^verbatim>\<open>extractParamDetails\<close> returns three
  pairwise disjoint lists of names, each without duplicates and in first-seen order:
  \<open>pathParams\<close> holds exactly the names of the \<^verbatim>\<open>{name}\<close> occurrences; \<open>queryParams\<close>
  holds only names of \<^verbatim>\<open>:name\<close> occurrences that are not path parameters, and holds every
  such name that is not the dollar-bind (a name that also occurs as \<^verbatim>\<open>@name\<close> stays a
  query parameter); \<open>outputParams\<close> holds exactly the names of the \<^verbatim>\<open>@name\<close>
  occurrences that are neither path nor query parameters.
\<close>

theorem extractParamDetails_classes:
  "distinct (pathParams (extractParamDetails sql)) \<and>
   set (pathParams (extractParamDetails sql)) = set (pathMatches sql) \<and>
   sorted_wrt (\<lambda>a b. firstIndex (pathMatches sql) a < firstIndex (pathMatches sql) b)
     (pathParams (extractParamDetails sql)) \<and>
   distinct (queryParams (extractParamDetails sql)) \<and>
   set (queryParams (extractParamDetails sql)) \<subseteq> set (queryMatches sql) - set (pathMatches sql) \<and>
   set (queryMatches sql) - set (pathMatches sql) - set_option (extractDollarParam sql)
     \<subseteq> set (queryParams (extractParamDetails sql)) \<and>
   sorted_wrt (\<lambda>a b. firstIndex (queryMatches sql) a < firstIndex (queryMatches sql) b)
     (queryParams (extractParamDetails sql)) \<and>
   distinct (outputParams (extractParamDetails sql)) \<and>
   set (outputParams (extractParamDetails sql)) =
     set (outputMatches sql) - set (pathParams (extractParamDetails sql))
       - set (queryParams (extractParamDetails sql)) \<and>
   sorted_wrt (\<lambda>a b. firstIndex (outputMatches sql) a < firstIndex (outputMatches sql) b)
     (outputParams (extractParamDetails sql)) \<and>
   set (pathParams (extractParamDetails sql)) \<inter> set (queryParams (extractParamDetails sql)) = {} \<and>
   set (pathParams (extractParamDetails sql)) \<inter> set (outputParams (extractParamDetails sql)) = {} \<and>
   set (queryParams (extractParamDetails sql)) \<inter> set (outputParams (extractParamDetails sql)) = {}"
proof (cases "sql = []")
  case True
  then show ?thesis
    by (simp add: extractParamDetails_def pathMatches_def queryMatches_def outputMatches_def)
next
  case False
  have eq: "extractParamDetails sql =
      \<lparr>pathParams = newSet (pathMatches sql),
       queryParams = filter (\<lambda>p. p \<notin> set (newSet (pathMatches sql))) (newSet (queryMatches sql)),
       outputParams = filter (\<lambda>p. p \<notin> set (newSet (queryMatches sql)) \<and> p \<notin> set (newSet (pathMatches sql)))
          (newSet (outputMatches sql))\<rparr>"
    using False by (simp only: extractParamDetails_def Let_def dollar_filter_noop if_False)
  have p: "pathParams (extractParamDetails sql) = newSet (pathMatches sql)"
    by (simp add: eq)
  have q: "queryParams (extractParamDetails sql) =
      filter (\<lambda>p. p \<notin> set (pathMatches sql)) (newSet (queryMatches sql))"
    by (simp add: eq newSet_props)
  have out: "outputParams (extractParamDetails sql) =
      filter (\<lambda>p. p \<notin> set (queryMatches sql) \<and> p \<notin> set (pathMatches sql)) (newSet (outputMatches sql))"
    by (simp add: eq newSet_props)
  show ?thesis
    unfolding p q out
    by (auto simp: newSet_props sorted_wrt_filter)
qed


theorem extractParamDetails_classes_witness:
  "pathParams (extractParamDetails ''CALL p({a}, :b, @c, :b, {a}, :a, @b)'') = [''a''] \<and>
   queryParams (extractParamDetails ''CALL p({a}, :b, @c, :b, {a}, :a, @b)'') = [''b''] \<and>
   outputParams (extractParamDetails ''CALL p({a}, :b, @c, :b, {a}, :a, @b)'') = [''c''] \<and>
   set (queryParams (extractParamDetails ''CALL p({a}, :b, @c, :b, {a}, :a, @b)'')) \<inter>
     set (outputParams (extractParamDetails ''CALL p({a}, :b, @c, :b, {a}, :a, @b)'')) = {}"
proof -
  have vals: "pathParams (extractParamDetails ''CALL p({a}, :b, @c, :b, {a}, :a, @b)'') = [''a'']"
    "queryParams (extractParamDetails ''CALL p({a}, :b, @c, :b, {a}, :a, @b)'') = [''b'']"
    "outputParams (extractParamDetails ''CALL p({a}, :b, @c, :b, {a}, :a, @b)'') = [''c'']"
    by code_simp+
  from extractParamDetails_classes [of "''CALL p({a}, :b, @c, :b, {a}, :a, @b)''"]
  have "set (queryParams (extractParamDetails ''CALL p({a}, :b, @c, :b, {a}, :a, @b)'')) \<inter>
     set (outputParams (extractParamDetails ''CALL p({a}, :b, @c, :b, {a}, :a, @b)'')) = {}"
    by blast
  with vals show ?thesis by blast
qed

text \<open>
  C1 as stated fails: a \<^verbatim>\<open>:name\<close> whose name is the dollar-bind, or whose name also
  occurs as \<^verbatim>\<open>@name\<close>, is still classified as a query parameter.
\<close>

theorem extractParamDetails_query_counterexample:
  "extractDollarParam ''CALL p($data, :data)'' = Some ''data'' \<and>
   queryParams (extractParamDetails ''CALL p($data, :data)'') = [''data''] \<and>
   queryParams (extractParamDetails ''CALL p(@x, :x)'') = [''x''] \<and>
   outputParams (extractParamDetails ''CALL p(@x, :x)'') = []"
  by code_simp

section \<open>ExecutionOrchestrator: properties of the output substitution\<close>






















section \<open>ParameterValidator: number parameters\<close>

lemma isDigit_facts:
  "isDigit c \<Longrightarrow> \<not> isJsSpace c \<and> c \<noteq> CHR ''.'' \<and> c \<noteq> CHR ''+'' \<and> c \<noteq> CHR ''-''"
  by (auto simp: isDigit_def isJsSpace_def)

lemma jsTrim_no_space: "\<forall>c \<in> set s. \<not> isJsSpace c \<Longrightarrow> jsTrim s = s"
proof -
  assume a: "\<forall>c \<in> set s. \<not> isJsSpace c"
  have 1: "dropWhile isJsSpace s = s"
    using a by (cases s) (simp_all add: dropWhile_eq_self_iff)
  have "\<forall>c \<in> set (rev s). \<not> isJsSpace c" using a by simp
  then have 2: "dropWhile isJsSpace (rev s) = rev s"
    by (cases "rev s") (simp_all add: dropWhile_eq_self_iff)
  show ?thesis by (simp add: jsTrim_def 1 2)
qed

lemma takeWhile_digits:
  "list_all isDigit ip \<Longrightarrow> (case rest of [] \<Rightarrow> True | d # _ \<Rightarrow> \<not> isDigit d) \<Longrightarrow>
   takeWhile isDigit (ip @ rest) = ip \<and> dropWhile isDigit (ip @ rest) = rest"
  by (induction ip) (auto split: list.splits)

lemma takeWhile_digits_all:
  "list_all isDigit ip \<Longrightarrow> takeWhile isDigit ip = ip \<and> dropWhile isDigit ip = []"
  by (induction ip) auto

lemma body_of_sign:
  assumes "numberText sg ip dot fp"
  shows "(case sg @ ip @ dot @ fp of c # r \<Rightarrow> if c = CHR ''+'' \<or> c = CHR ''-'' then r else sg @ ip @ dot @ fp | [] \<Rightarrow> sg @ ip @ dot @ fp)
       = ip @ dot @ fp"
  using assms unfolding numberText_def
  by (cases ip) (auto split: list.splits dest: isDigit_facts)

lemma isNumericLiteral_decomp:
  assumes "numberText sg ip dot fp"
  shows "isNumericLiteral (sg @ ip @ dot @ fp)"
proof -
  have d: "list_all isDigit ip" "list_all isDigit fp" using assms by (auto simp: numberText_def)
  have r: "case dot @ fp of [] \<Rightarrow> True | d # _ \<Rightarrow> \<not> isDigit d"
    using assms by (auto simp: numberText_def isDigit_def)
  have tw: "takeWhile isDigit (ip @ dot @ fp) = ip" "dropWhile isDigit (ip @ dot @ fp) = dot @ fp"
    using takeWhile_digits[OF d(1) r] by auto
  show ?thesis
    unfolding isNumericLiteral_def body_of_sign[OF assms] Let_def tw
    using assms by (auto simp: numberText_def)
qed


lemma no_space_decomp:
  assumes "numberText sg ip dot fp"
  shows "\<forall>c \<in> set (sg @ ip @ dot @ fp). \<not> isJsSpace c"
proof -
  have "\<forall>c \<in> set ip. \<not> isJsSpace c" "\<forall>c \<in> set fp. \<not> isJsSpace c"
    using assms by (auto simp: numberText_def list_all_iff dest: isDigit_facts)
  moreover have "\<forall>c \<in> set sg. \<not> isJsSpace c" "\<forall>c \<in> set dot. \<not> isJsSpace c"
    using assms by (auto simp: numberText_def isJsSpace_def)
  ultimately show ?thesis by auto
qed

lemma parseUnsigned_decomp:
  assumes "numberText sg ip dot fp"
  shows "parseUnsigned (ip @ dot @ fp) =
     Some (of_int (digitsValue ip) + of_int (digitsValue fp) / 10 ^ length fp)"
proof -
  have d: "list_all isDigit ip" "list_all isDigit fp" using assms by (auto simp: numberText_def)
  have r: "case dot @ fp of [] \<Rightarrow> True | d # _ \<Rightarrow> \<not> isDigit d"
    using assms by (auto simp: numberText_def isDigit_def)
  have tw: "takeWhile isDigit (ip @ dot @ fp) = ip" "dropWhile isDigit (ip @ dot @ fp) = dot @ fp"
    using takeWhile_digits[OF d(1) r] by auto
  have fr: "(case dot @ fp of d # fr \<Rightarrow> if d = CHR ''.'' then takeWhile isDigit fr else [] | [] \<Rightarrow> []) = fp"
    using assms takeWhile_digits_all[OF d(2)] by (auto simp: numberText_def)
  have nonempty: "\<not> (ip = [] \<and> fp = [])" using assms by (auto simp: numberText_def)
  show ?thesis
    unfolding parseUnsigned_def Let_def tw fr using nonempty by auto
qed

lemma parseFloat_decomp:
  assumes "numberText sg ip dot fp"
  shows "parseFloat (sg @ ip @ dot @ fp) = parsedValue sg ip fp"
proof -
  let ?b = "ip @ dot @ fp"
  obtain c cs where b: "?b = c # cs" using assms by (cases ?b) (auto simp: numberText_def)
  have "c \<in> set ?b" using b by simp
  then have c: "\<not> isJsSpace c" using no_space_decomp[OF assms] by auto
  have c2: "c \<noteq> CHR ''-''" "c \<noteq> CHR ''+''"
    using assms b by (cases ip; auto simp: numberText_def dest: isDigit_facts)+
  have sp: "\<not> isJsSpace (CHR ''+'')" "\<not> isJsSpace (CHR ''-'')" by (simp_all add: isJsSpace_def)
  have pu: "parseUnsigned (c # cs) = Some (of_int (digitsValue ip) + of_int (digitsValue fp) / 10 ^ length fp)"
    using parseUnsigned_decomp[OF assms] b by simp
  consider "sg = []" | "sg = ''+''" | "sg = ''-''" using assms by (auto simp: numberText_def)
  then show ?thesis
  proof cases
    case 1
    have "parseFloat (sg @ ip @ dot @ fp) = parseFloat ([] @ c # cs)" by (simp only: 1 b)
    also have "\<dots> = parsedValue sg ip fp"
      using c c2 by (simp add: parseFloat_def pu parsedValue_def numberValue_def 1)
    finally show ?thesis .
  next
    case 2
    have "parseFloat (sg @ ip @ dot @ fp) = parseFloat (''+'' @ c # cs)" by (simp only: 2 b)
    also have "\<dots> = parsedValue sg ip fp"
      using sp by (simp add: parseFloat_def pu parsedValue_def numberValue_def 2)
    finally show ?thesis .
  next
    case 3
    have "parseFloat (sg @ ip @ dot @ fp) = parseFloat (''-'' @ c # cs)" by (simp only: 3 b)
    also have "\<dots> = parsedValue sg ip fp"
      using sp by (simp add: parseFloat_def pu parsedValue_def numberValue_def 3)
    finally show ?thesis .
  qed
qed

lemma splitChar_none: "sep \<notin> set s \<Longrightarrow> splitChar sep s = [s]"
  by (induction s) auto

lemma splitChar_first: "sep \<notin> set a \<Longrightarrow> splitChar sep (a @ sep # b) = a # splitChar sep b"
  by (induction a) auto

lemma decimalPlaces_decomp:
  assumes "numberText sg ip dot fp"
  shows "(case splitChar (CHR ''.'') (sg @ ip @ dot @ fp) of _ # fr # _ \<Rightarrow> length fr | _ \<Rightarrow> 0) = length fp"
proof -
  have a: "\<not> isDigit (CHR ''.'')" by (simp add: isDigit_def)
  have d: "list_all isDigit ip" "list_all isDigit fp" "sg \<in> {[], ''+'', ''-''}"
    using assms by (simp_all add: numberText_def)
  have n1: "CHR ''.'' \<notin> set ip" "CHR ''.'' \<notin> set fp"
    using d(1,2) a by (auto simp: list_all_iff)
  have n2: "CHR ''.'' \<notin> set sg" using d(3) by auto
  have nd: "CHR ''.'' \<notin> set (sg @ ip)" "CHR ''.'' \<notin> set fp"
    using n1 n2 by simp_all
  show ?thesis
  proof (cases "dot = []")
    case True
    then have "fp = []" using assms by (auto simp: numberText_def)
    then show ?thesis using True splitChar_none[OF nd(1)] by simp
  next
    case False
    then have dot: "dot = ''.''" using assms by (auto simp: numberText_def)
    have "splitChar (CHR ''.'') ((sg @ ip) @ CHR ''.'' # fp) = (sg @ ip) # [fp]"
      using splitChar_first[OF nd(1), of fp] splitChar_none[OF nd(2)] by simp
    then show ?thesis using dot by simp
  qed
qed

lemma isNumericLiteral_imp_decomp:
  assumes "isNumericLiteral s"
  shows "\<exists>sg ip dot fp. s = sg @ ip @ dot @ fp \<and> numberText sg ip dot fp"
proof -
  define sg where "sg = (if take 1 s = ''+'' \<or> take 1 s = ''-'' then take 1 s else [])"
  define body where "body = (case s of c # r \<Rightarrow> if c = CHR ''+'' \<or> c = CHR ''-'' then r else s | [] \<Rightarrow> s)"
  define ip where "ip = takeWhile isDigit body"
  define rest where "rest = dropWhile isDigit body"
  have s: "s = sg @ body" by (cases s) (auto simp: sg_def body_def)
  have b: "body = ip @ rest" by (simp add: ip_def rest_def)
  have sgs: "sg \<in> {[], ''+'', ''-''}" by (cases s) (auto simp: sg_def)
  have ipd: "list_all isDigit ip" unfolding ip_def list_all_iff by (auto dest: set_takeWhileD)
  have lit: "if ip \<noteq> []
         then (case rest of [] \<Rightarrow> True | d # fr \<Rightarrow> d = CHR ''.'' \<and> list_all isDigit fr)
         else (case rest of [] \<Rightarrow> False | d # fr \<Rightarrow> d = CHR ''.'' \<and> fr \<noteq> [] \<and> list_all isDigit fr)"
    using assms unfolding isNumericLiteral_def Let_def body_def[symmetric] ip_def[symmetric] rest_def[symmetric] .
  show ?thesis
  proof (cases rest)
    case Nil
    then have "ip \<noteq> []" using lit by (auto split: if_splits)
    then have "numberText sg ip [] []" using sgs ipd by (simp add: numberText_def)
    moreover have "s = sg @ ip @ [] @ []" using s b Nil by simp
    ultimately show ?thesis by blast
  next
    case (Cons d fr)
    then have d: "d = CHR ''.''" and fr: "list_all isDigit fr" and ne: "ip \<noteq> [] \<or> fr \<noteq> []"
      using lit by (auto split: if_splits)
    then have "numberText sg ip ''.'' fr" using sgs ipd by (simp add: numberText_def)
    moreover have "s = sg @ ip @ ''.'' @ fr" using s b Cons d by simp
    ultimately show ?thesis by blast
  qed
qed


lemma roundToDouble_cases:
  "roundToDouble q = PosInfinity \<or> roundToDouble q = NegInfinity \<or> (\<exists>r. roundToDouble q = Finite r)"
  by (simp add: roundToDouble_def Let_def)

lemma parsedValue_not_NaN: "parsedValue sg ip fp \<noteq> NaN"
  using roundToDouble_cases[of "numberValue sg ip fp"] by (auto simp: parsedValue_def)

lemma numberLess_notBelow: "v \<noteq> NaN \<Longrightarrow> (\<not> numberLess v (Finite lo)) = notBelow lo v"
  by (cases v) (auto simp: numberLess_def numberRank_def notBelow_def)

lemma numberLess_notAbove: "v \<noteq> NaN \<Longrightarrow> (\<not> numberLess (Finite hi) v) = notAbove hi v"
  by (cases v) (auto simp: numberLess_def numberRank_def notAbove_def)

lemma numberIsInteger_iff: "numberIsInteger v = (\<exists>i. v = Finite (of_int i))"
proof (cases v)
  case (Finite q)
  have "(of_int \<lfloor>q\<rfloor> = q) = (\<exists>i. q = of_int i)"
    by (metis floor_of_int)
  then show ?thesis by (simp add: numberIsInteger_def Finite del: of_int_floor_cancel)
qed (simp_all add: numberIsInteger_def)

lemma validateNumberConstraints_decomp:
  assumes "numberText sg ip dot fp"
  shows "(validateNumberConstraints (JStr (sg @ ip @ dot @ fp)) nc = Inr ()) \<longleftrightarrow>
     numberConstraintsHold nc (parsedValue sg ip fp) (length fp)"
proof -
  have str: "jsToString (JStr (sg @ ip @ dot @ fp)) = sg @ ip @ dot @ fp" by simp
  note nn = parsedValue_not_NaN[of sg ip fp]
  show ?thesis
    unfolding validateNumberConstraints_def Let_def str parseFloat_decomp[OF assms]
      decimalPlaces_decomp[OF assms] numberConstraintsHold_def
      numberLess_notBelow[OF nn, symmetric] numberLess_notAbove[OF nn, symmetric]
      numberIsInteger_iff[symmetric]
    by (auto split: option.splits)
qed

lemma convertAndValidateValue_decomp:
  assumes wf: "numberText sg ip dot fp" and ty: "ptype c = Some TNumber"
  shows "(\<exists>v. convertAndValidateValue dp cls (JStr (sg @ ip @ dot @ fp)) nm (Some c) = Inr v) \<longleftrightarrow>
     (case numberCons c of None \<Rightarrow> True
        | Some nc \<Rightarrow> numberConstraintsHold nc (parsedValue sg ip fp) (length fp))"
proof -
  let ?s = "sg @ ip @ dot @ fp"
  have ne: "?s \<noteq> []" using wf by (auto simp: numberText_def)
  have tr: "jsTrim ?s = ?s" by (rule jsTrim_no_space[OF no_space_decomp[OF wf]])
  have str: "jsToString (JStr ?s) = ?s" by simp
  show ?thesis
  proof (cases "numberCons c")
    case None
    then show ?thesis
      unfolding convertAndValidateValue_def Let_def str tr
      using ne ty isNumericLiteral_decomp[OF wf] parseFloat_decomp[OF wf] parsedValue_not_NaN[of sg ip fp]
      by (simp add: tr)
  next
    case (Some nc)
    show ?thesis
    proof (cases "validateNumberConstraints (JStr ?s) nc")
      case (Inl msg)
      then have "\<not> numberConstraintsHold nc (parsedValue sg ip fp) (length fp)"
        using validateNumberConstraints_decomp[OF wf, of nc] by simp
      then show ?thesis
        unfolding convertAndValidateValue_def Let_def str tr
        using ne ty isNumericLiteral_decomp[OF wf] parseFloat_decomp[OF wf] parsedValue_not_NaN[of sg ip fp] Some Inl
        by (simp add: tr)
    next
      case (Inr u)
      then have "numberConstraintsHold nc (parsedValue sg ip fp) (length fp)"
        using validateNumberConstraints_decomp[OF wf, of nc] by simp
      then show ?thesis
        unfolding convertAndValidateValue_def Let_def str tr
        using ne ty isNumericLiteral_decomp[OF wf] parseFloat_decomp[OF wf] parsedValue_not_NaN[of sg ip fp] Some Inr
        by (simp add: tr)
    qed
  qed
qed

lemma convertAndValidateValue_not_literal:
  assumes "ptype c = Some TNumber" "s \<noteq> []" "jsTrim s = s" "\<not> isNumericLiteral s"
  shows "\<exists>msg. convertAndValidateValue dp cls (JStr s) nm (Some c) = Inl msg"
  using assms by (simp add: convertAndValidateValue_def Let_def)

text \<open>
  C7 (as amended). For a parameter declared with type number and a text value given
  without surrounding white space, validation accepts the value if and only if the text
  is an optional sign followed by \<^verbatim>\<open>digits\<close>, \<^verbatim>\<open>digits.\<close>, \<^verbatim>\<open>digits.digits\<close> or
  \<^verbatim>\<open>.digits\<close> and, when constraints are declared, the parsed value, which is the double
  nearest to the number the text denotes, is not below the minimum nor above the maximum
  that are set, is whole when the precision is 0, and the text has no more digits after
  the point than a precision above 0.
\<close>

theorem convertAndValidateValue_number:
  assumes "ptype c = Some TNumber" and "s \<noteq> []" and "jsTrim s = s"
  shows "(\<exists>v. convertAndValidateValue dp cls (JStr s) nm (Some c) = Inr v) \<longleftrightarrow>
     (\<exists>sg ip dot fp. s = sg @ ip @ dot @ fp \<and> numberText sg ip dot fp \<and>
        (case numberCons c of None \<Rightarrow> True
           | Some nc \<Rightarrow> numberConstraintsHold nc (parsedValue sg ip fp) (length fp)))"
proof
  assume acc: "\<exists>v. convertAndValidateValue dp cls (JStr s) nm (Some c) = Inr v"
  have "isNumericLiteral s"
  proof (rule ccontr)
    assume "\<not> isNumericLiteral s"
    from convertAndValidateValue_not_literal[OF assms this, of dp cls nm] acc
    show False by auto
  qed
  then obtain sg ip dot fp where s: "s = sg @ ip @ dot @ fp" and wf: "numberText sg ip dot fp"
    using isNumericLiteral_imp_decomp by blast
  from acc convertAndValidateValue_decomp[OF wf assms(1), of dp cls nm] s wf
  show "\<exists>sg ip dot fp. s = sg @ ip @ dot @ fp \<and> numberText sg ip dot fp \<and>
        (case numberCons c of None \<Rightarrow> True
           | Some nc \<Rightarrow> numberConstraintsHold nc (parsedValue sg ip fp) (length fp))"
    by blast
next
  assume "\<exists>sg ip dot fp. s = sg @ ip @ dot @ fp \<and> numberText sg ip dot fp \<and>
        (case numberCons c of None \<Rightarrow> True
           | Some nc \<Rightarrow> numberConstraintsHold nc (parsedValue sg ip fp) (length fp))"
  then obtain sg ip dot fp where s: "s = sg @ ip @ dot @ fp" and wf: "numberText sg ip dot fp"
    and ok: "case numberCons c of None \<Rightarrow> True
           | Some nc \<Rightarrow> numberConstraintsHold nc (parsedValue sg ip fp) (length fp)"
    by blast
  show "\<exists>v. convertAndValidateValue dp cls (JStr s) nm (Some c) = Inr v"
    using convertAndValidateValue_decomp[OF wf assms(1), of dp cls nm] ok s by blast
qed


theorem convertAndValidateValue_number_witness:
  "(\<exists>v. convertAndValidateValue (\<lambda>_ _. True) ''query'' (JStr ''1.23'') ''amount''
      (Some \<lparr>paramName = ''amount'', ptype = Some TNumber, required = True, stringCons = None,
             numberCons = Some \<lparr>minimum = Some 0, maximum = Some 1000, precision = Some 2\<rparr>,
             dateFormat = None\<rparr>) = Inr v) \<and>
   (\<exists>msg. convertAndValidateValue (\<lambda>_ _. True) ''query'' (JStr ''1.234'') ''amount''
      (Some \<lparr>paramName = ''amount'', ptype = Some TNumber, required = True, stringCons = None,
             numberCons = Some \<lparr>minimum = Some 0, maximum = Some 1000, precision = Some 2\<rparr>,
             dateFormat = None\<rparr>) = Inl msg) \<and>
   (\<exists>msg. convertAndValidateValue (\<lambda>_ _. True) ''query'' (JStr ''1.5'') ''amount''
      (Some \<lparr>paramName = ''amount'', ptype = Some TNumber, required = True, stringCons = None,
             numberCons = Some \<lparr>minimum = None, maximum = None, precision = Some 0\<rparr>,
             dateFormat = None\<rparr>) = Inl msg) \<and>
   convertAndValidateValue (\<lambda>_ _. True) ''query'' (JStr ''1.0000000000000000001'') ''amount''
      (Some \<lparr>paramName = ''amount'', ptype = Some TNumber, required = True, stringCons = None,
             numberCons = Some \<lparr>minimum = None, maximum = Some 1, precision = Some 0\<rparr>,
             dateFormat = None\<rparr>) = Inr (VNumber (Finite 1))"
proof -
  let ?c = "\<lparr>paramName = ''amount'', ptype = Some TNumber, required = True, stringCons = None,
             numberCons = Some \<lparr>minimum = Some 0, maximum = Some 1000, precision = Some 2\<rparr>,
             dateFormat = None\<rparr>"
  have h1: "ptype ?c = Some TNumber" by simp
  have h2: "''1.23'' \<noteq> []" by simp
  have h3: "jsTrim ''1.23'' = ''1.23''" by code_simp
  have parts: "''1.23'' = [] @ ''1'' @ ''.'' @ ''23''" by simp
  have wf: "numberText [] ''1'' ''.'' ''23''" by (simp add: numberText_def isDigit_def)
  have v: "parsedValue [] ''1'' ''23'' = Finite (2769713770832855 / 2251799813685248)"
    by code_simp
  have ok: "case numberCons ?c of None \<Rightarrow> True
      | Some nc \<Rightarrow> numberConstraintsHold nc (parsedValue [] ''1'' ''23'') (length ''23'')"
    by (simp add: v numberConstraintsHold_def notBelow_def notAbove_def)
  have a: "\<exists>v. convertAndValidateValue (\<lambda>_ _. True) ''query'' (JStr ''1.23'') ''amount'' (Some ?c) = Inr v"
    using convertAndValidateValue_number [OF h1 h2 h3, of "\<lambda>_ _. True" "''query''" "''amount''"]
      parts wf ok by blast
  have b: "convertAndValidateValue (\<lambda>_ _. True) ''query'' (JStr ''1.234'') ''amount'' (Some ?c) =
      Inl (''Invalid value for query parameter '' @ [CHR 0x27] @ ''amount'' @ [CHR 0x27]
             @ '': Value cannot have more than 2 decimal places'')"
    by code_simp
  have c: "convertAndValidateValue (\<lambda>_ _. True) ''query'' (JStr ''1.5'') ''amount''
      (Some \<lparr>paramName = ''amount'', ptype = Some TNumber, required = True, stringCons = None,
             numberCons = Some \<lparr>minimum = None, maximum = None, precision = Some 0\<rparr>,
             dateFormat = None\<rparr>) =
      Inl (''Invalid value for query parameter '' @ [CHR 0x27] @ ''amount'' @ [CHR 0x27]
             @ '': Value must be a whole number'')"
    by code_simp
  have d: "convertAndValidateValue (\<lambda>_ _. True) ''query'' (JStr ''1.0000000000000000001'') ''amount''
      (Some \<lparr>paramName = ''amount'', ptype = Some TNumber, required = True, stringCons = None,
             numberCons = Some \<lparr>minimum = None, maximum = Some 1, precision = Some 0\<rparr>,
             dateFormat = None\<rparr>) = Inr (VNumber (Finite 1))"
    by code_simp
  show ?thesis using a b c d by blast
qed

text \<open>
  C7 as stated fails: the texts \<^verbatim>\<open>.5\<close> and \<^verbatim>\<open>5.\<close> are not of the form
  \<^verbatim>\<open>[+-]?digits[.digits]\<close>, and validation accepts them.
\<close>

theorem convertAndValidateValue_grammar_counterexample:
  "\<not> specNumericLiteral ''.5'' \<and>
   convertAndValidateValue (\<lambda>_ _. True) ''query'' (JStr ''.5'') ''amount''
      (Some \<lparr>paramName = ''amount'', ptype = Some TNumber, required = True, stringCons = None,
             numberCons = None, dateFormat = None\<rparr>) = Inr (VNumber (Finite (1 / 2))) \<and>
   \<not> specNumericLiteral ''5.'' \<and>
   convertAndValidateValue (\<lambda>_ _. True) ''query'' (JStr ''5.'') ''amount''
      (Some \<lparr>paramName = ''amount'', ptype = Some TNumber, required = True, stringCons = None,
             numberCons = None, dateFormat = None\<rparr>) = Inr (VNumber (Finite 5))"
  by code_simp
section \<open>Objects: properties\<close>

lemma map_of_insertProperty:
  "k \<notin> fst ` set obj \<Longrightarrow> map_of (insertProperty k v obj) = (map_of obj)(k \<mapsto> v)"
proof (induction obj)
  case Nil
  then show ?case by simp
next
  case (Cons kv obj)
  obtain k' v' where kv: "kv = (k', v')" by (cases kv)
  from Cons.prems have ne: "k' \<noteq> k" and nin: "k \<notin> fst ` set obj" by (auto simp: kv)
  show ?case using Cons.IH[OF nin] ne by (auto simp: kv fun_eq_iff)
qed

lemma map_of_update_other:
  "x \<noteq> k \<Longrightarrow>
   map_of (map (\<lambda>(k', v'). if k' = k then (k', v) else (k', v')) obj) x = map_of obj x"
  by (induction obj) auto

lemma map_of_update_same:
  "k \<in> fst ` set obj \<Longrightarrow>
   map_of (map (\<lambda>(k', v'). if k' = k then (k', v) else (k', v')) obj) k = Some v"
  by (induction obj) auto

lemma map_of_update_all:
  "k \<in> fst ` set obj \<Longrightarrow>
   map_of (map (\<lambda>(k', v'). if k' = k then (k', v) else (k', v')) obj) = (map_of obj)(k \<mapsto> v)"
  using map_of_update_other[of _ k v obj] map_of_update_same[of k obj v]
  by (auto simp: fun_eq_iff)


lemma map_of_objDefine: "map_of (objDefine k v obj) = (map_of obj)(k \<mapsto> v)"
  unfolding objDefine_def using map_of_insertProperty[of k obj v] map_of_update_all[of k obj v]
  by simp



lemma keys_objDefine: "fst ` set (objDefine k v obj) = insert k (fst ` set obj)"
proof -
  have "dom (map_of (objDefine k v obj)) = insert k (dom (map_of obj))"
    by (simp add: map_of_objDefine)
  then show ?thesis by (simp add: dom_map_of_conv_image_fst)
qed




lemma map_of_objSet_other: "k \<noteq> k' \<Longrightarrow> map_of (objSet k' v obj) k = map_of obj k"
  by (simp add: objSet_def map_of_objDefine)

lemma map_of_objSet_same: "k \<noteq> ''__proto__'' \<Longrightarrow> map_of (objSet k v obj) k = Some v"
  by (simp add: objSet_def map_of_objDefine)

section \<open>AuthGuard: properties\<close>

lemma validateToken_Next:
  assumes "requireToken ep" and "validateToken env req ep = Next req'"
  shows "\<exists>authHeader a token others keyId tokenKey jwtId userId rows.
      authorization req = Some authHeader \<and>
      splitChar (CHR '' '') authHeader = a # token # others \<and> token \<noteq> [] \<and>
      jwtDecode env token = Decoded (Some keyId) True \<and> jsTruthy keyId \<and>
      getConnection env = None \<and>
      keyLookup env keyId = Inr tokenKey \<and> jsTruthy tokenKey \<and>
      jwtVerify env token tokenKey = Inr jwtId \<and> jsTruthy jwtId \<and>
      sessionLookup env jwtId = Inr (userId # rows) \<and>
      req' = (if reqMethod req = ''GET''
              then req\<lparr>reqQuery := objSet ''appUser'' userId (reqQuery req)\<rparr>
              else req\<lparr>reqBody := objSet ''appUser'' userId (reqBody req)\<rparr>)"
  using assms
  unfolding validateToken_def resolveSession_def unauthorized_def
  by (auto split: option.splits list.splits decodeResult.splits sum.splits if_splits)

lemma validateToken_Responded:
  assumes "requireToken ep" and "validateToken env req ep = Responded r"
  shows "status r = 401 \<and> (\<exists>msg. body r = FailureError msg)"
  using assms
  unfolding validateToken_def unauthorized_def
  by (auto split: option.splits list.splits decodeResult.splits sum.splits if_splits)

lemma validateToken_verify_error:
  assumes "requireToken ep" "authorization req = Some authHeader"
      "splitChar (CHR '' '') authHeader = a # token # others" "token \<noteq> []"
      "jwtDecode env token = Decoded (Some keyId) True" "jsTruthy keyId"
      "getConnection env = None" "keyLookup env keyId = Inr tokenKey" "jsTruthy tokenKey"
      "jwtVerify env token tokenKey = Inl e"
  shows "validateToken env req ep = Responded \<lparr>status = 401, body = FailureError (tokenErrorMessage e)\<rparr>"
proof -
  have "authHeader \<noteq> []" using assms(3) by auto
  then show ?thesis
    using assms
    unfolding validateToken_def resolveSession_def unauthorized_def
    by simp
qed


text \<open>
  C8. For a token-requiring endpoint the guard calls \<^verbatim>\<open>next()\<close> only when the header
  carries a token, the token decodes with a header, a payload and a key id, the key is
  found, the token verifies, it has a \<^verbatim>\<open>jti\<close> and a session row exists for it; every other
  outcome, so every failure mode, is a response with status 401 and an error message. An
  expired token is answered with \<^verbatim>\<open>Token has expired\<close>, a signature mismatch with
  \<^verbatim>\<open>Invalid token\<close>, and the two reasons differ.
\<close>

theorem validateToken_guard:
  assumes "requireToken ep"
  shows "(\<forall>req'. validateToken env req ep = Next req' \<longrightarrow>
            (\<exists>authHeader a token others keyId tokenKey jwtId userId rows.
               authorization req = Some authHeader \<and>
               splitChar (CHR '' '') authHeader = a # token # others \<and> token \<noteq> [] \<and>
               jwtDecode env token = Decoded (Some keyId) True \<and> jsTruthy keyId \<and>
               getConnection env = None \<and>
               keyLookup env keyId = Inr tokenKey \<and> jsTruthy tokenKey \<and>
               jwtVerify env token tokenKey = Inr jwtId \<and> jsTruthy jwtId \<and>
               sessionLookup env jwtId = Inr (userId # rows))) \<and>
         (\<forall>r. validateToken env req ep = Responded r \<longrightarrow>
            status r = 401 \<and> (\<exists>msg. body r = FailureError msg)) \<and>
         (\<forall>authHeader a token others keyId tokenKey e.
            authorization req = Some authHeader \<and>
            splitChar (CHR '' '') authHeader = a # token # others \<and> token \<noteq> [] \<and>
            jwtDecode env token = Decoded (Some keyId) True \<and> jsTruthy keyId \<and>
            getConnection env = None \<and>
            keyLookup env keyId = Inr tokenKey \<and> jsTruthy tokenKey \<and>
            jwtVerify env token tokenKey = Inl e \<longrightarrow>
            (errName e = ''TokenExpiredError'' \<longrightarrow>
               validateToken env req ep =
                 Responded \<lparr>status = 401, body = FailureError ''Token has expired''\<rparr>) \<and>
            (errName e = ''JsonWebTokenError'' \<longrightarrow>
               validateToken env req ep =
                 Responded \<lparr>status = 401, body = FailureError ''Invalid token''\<rparr>)) \<and>
         ''Token has expired'' \<noteq> ''Invalid token''"
proof (intro conjI allI impI)
  fix req' assume "validateToken env req ep = Next req'"
  from validateToken_Next[OF assms this]
  show "\<exists>authHeader a token others keyId tokenKey jwtId userId rows.
               authorization req = Some authHeader \<and>
               splitChar (CHR '' '') authHeader = a # token # others \<and> token \<noteq> [] \<and>
               jwtDecode env token = Decoded (Some keyId) True \<and> jsTruthy keyId \<and>
               getConnection env = None \<and>
               keyLookup env keyId = Inr tokenKey \<and> jsTruthy tokenKey \<and>
               jwtVerify env token tokenKey = Inr jwtId \<and> jsTruthy jwtId \<and>
               sessionLookup env jwtId = Inr (userId # rows)"
    by blast
next
  fix r assume "validateToken env req ep = Responded r"
  from validateToken_Responded[OF assms this]
  show "status r = 401" "\<exists>msg. body r = FailureError msg" by auto
next
  fix authHeader a token others keyId tokenKey e
  assume h: "authorization req = Some authHeader \<and>
            splitChar (CHR '' '') authHeader = a # token # others \<and> token \<noteq> [] \<and>
            jwtDecode env token = Decoded (Some keyId) True \<and> jsTruthy keyId \<and>
            getConnection env = None \<and>
            keyLookup env keyId = Inr tokenKey \<and> jsTruthy tokenKey \<and>
            jwtVerify env token tokenKey = Inl e"
  then have v: "validateToken env req ep =
      Responded \<lparr>status = 401, body = FailureError (tokenErrorMessage e)\<rparr>"
    using validateToken_verify_error[OF assms, of req authHeader a token others env keyId tokenKey e]
    by blast
  { assume "errName e = ''TokenExpiredError''"
    then show "validateToken env req ep =
        Responded \<lparr>status = 401, body = FailureError ''Token has expired''\<rparr>"
      using v by (simp add: tokenErrorMessage_def) }
  { assume "errName e = ''JsonWebTokenError''"
    then show "validateToken env req ep =
        Responded \<lparr>status = 401, body = FailureError ''Invalid token''\<rparr>"
      using v by (simp add: tokenErrorMessage_def) }
next
  show "''Token has expired'' \<noteq> ''Invalid token''" by simp
qed


theorem validateToken_guard_witness:
  "requireToken (sampleEndpoint True None (Some ''SELECT 1 FROM DUAL'') []) \<and>
   validateToken sampleAuth (sampleRequest ''GET'' ''expired'' [] [])
       (sampleEndpoint True None (Some ''SELECT 1 FROM DUAL'') []) =
     Responded \<lparr>status = 401, body = FailureError ''Token has expired''\<rparr> \<and>
   validateToken sampleAuth (sampleRequest ''GET'' ''forged'' [] [])
       (sampleEndpoint True None (Some ''SELECT 1 FROM DUAL'') []) =
     Responded \<lparr>status = 401, body = FailureError ''Invalid token''\<rparr>"
proof -
  let ?ep = "sampleEndpoint True None (Some ''SELECT 1 FROM DUAL'') []"
  have rt: "requireToken ?ep" by (simp add: sampleEndpoint_def)
  have pre: "authorization (sampleRequest ''GET'' t [] []) = Some (''Bearer '' @ t)" for t
    by (simp add: sampleRequest_def)
  have sp: "splitChar (CHR '' '') (''Bearer '' @ ''expired'') = ''Bearer'' # ''expired'' # []"
    "splitChar (CHR '' '') (''Bearer '' @ ''forged'') = ''Bearer'' # ''forged'' # []"
    by code_simp+
  have e1: "authorization (sampleRequest ''GET'' ''expired'' [] []) = Some (''Bearer '' @ ''expired'') \<and>
      splitChar (CHR '' '') (''Bearer '' @ ''expired'') = ''Bearer'' # ''expired'' # [] \<and> ''expired'' \<noteq> [] \<and>
      jwtDecode sampleAuth ''expired'' = Decoded (Some (JStr ''key-1'')) True \<and> jsTruthy (JStr ''key-1'') \<and>
      getConnection sampleAuth = None \<and>
      keyLookup sampleAuth (JStr ''key-1'') = Inr (JStr ''c2VjcmV0'') \<and> jsTruthy (JStr ''c2VjcmV0'') \<and>
      jwtVerify sampleAuth ''expired'' (JStr ''c2VjcmV0'') =
        Inl \<lparr>errName = ''TokenExpiredError'', errMessage = ''jwt expired'', errStatus = None\<rparr>"
    using pre sp by (simp add: sampleAuth_def jsTruthy_def)
  have e2: "authorization (sampleRequest ''GET'' ''forged'' [] []) = Some (''Bearer '' @ ''forged'') \<and>
      splitChar (CHR '' '') (''Bearer '' @ ''forged'') = ''Bearer'' # ''forged'' # [] \<and> ''forged'' \<noteq> [] \<and>
      jwtDecode sampleAuth ''forged'' = Decoded (Some (JStr ''key-1'')) True \<and> jsTruthy (JStr ''key-1'') \<and>
      getConnection sampleAuth = None \<and>
      keyLookup sampleAuth (JStr ''key-1'') = Inr (JStr ''c2VjcmV0'') \<and> jsTruthy (JStr ''c2VjcmV0'') \<and>
      jwtVerify sampleAuth ''forged'' (JStr ''c2VjcmV0'') =
        Inl \<lparr>errName = ''JsonWebTokenError'', errMessage = ''invalid signature'', errStatus = None\<rparr>"
    using pre sp by (simp add: sampleAuth_def jsTruthy_def)
  from validateToken_guard [OF rt, of sampleAuth "sampleRequest ''GET'' ''expired'' [] []"] e1
  have a: "validateToken sampleAuth (sampleRequest ''GET'' ''expired'' [] []) ?ep =
     Responded \<lparr>status = 401, body = FailureError ''Token has expired''\<rparr>"
    by (metis jsError.select_convs(1))
  from validateToken_guard [OF rt, of sampleAuth "sampleRequest ''GET'' ''forged'' [] []"] e2
  have b: "validateToken sampleAuth (sampleRequest ''GET'' ''forged'' [] []) ?ep =
     Responded \<lparr>status = 401, body = FailureError ''Invalid token''\<rparr>"
    by (metis jsError.select_convs(1))
  show ?thesis using rt a b by blast
qed

section \<open>AuthGuard: the user of the session\<close>


















section \<open>ExecutionOrchestrator: the dollar-bind\<close>

lemma sigilParamAt_other_head: "c \<noteq> a \<Longrightarrow> sigilParamAt a (c # s) = None"
  by (simp add: sigilParamAt_def Let_def)

lemma matchAllRe_sigil_skip:
  "a \<notin> set pre \<Longrightarrow> matchAllRe (sigilParamAt a) (pre @ rest) = matchAllRe (sigilParamAt a) rest"
proof (induction pre)
  case Nil
  then show ?case by simp
next
  case (Cons c pre)
  then have "c \<noteq> a" by auto
  then show ?case using Cons by (simp add: sigilParamAt_other_head)
qed

lemma takeWhile_word:
  "list_all isWordChar d \<Longrightarrow> (case post of [] \<Rightarrow> True | c # _ \<Rightarrow> \<not> isWordChar c) \<Longrightarrow>
   takeWhile isWordChar (d @ post) = d"
  by (induction d) (auto split: list.splits)

lemma extractDollarParam_first:
  assumes "d \<noteq> []" "list_all isWordChar d" "CHR ''$'' \<notin> set pre"
    and "case post of [] \<Rightarrow> True | c # _ \<Rightarrow> \<not> isWordChar c"
  shows "extractDollarParam (pre @ CHR ''$'' # d @ post) = Some d"
proof -
  have at: "sigilParamAt (CHR ''$'') (CHR ''$'' # d @ post) =
      Some \<lparr>matchText = CHR ''$'' # d, group1 = d\<rparr>"
    using assms(1) takeWhile_word[OF assms(2,4)] by (simp add: sigilParamAt_def Let_def)
  have "matchAllRe (sigilParamAt (CHR ''$'')) (pre @ CHR ''$'' # d @ post) =
      matchAllRe (sigilParamAt (CHR ''$'')) (CHR ''$'' # d @ post)"
    by (rule matchAllRe_sigil_skip[OF assms(3)])
  then show ?thesis using at by (simp add: extractDollarParam_def)
qed

lemma sanitizeQuotes_doubles:
  "sanitizeQuotes s = concat (map (\<lambda>c. if c = CHR 0x27 then [CHR 0x27, CHR 0x27] else [c]) s)"
proof -
  have "replaceFrom (literalAt [CHR 0x27]) [CHR 0x27, CHR 0x27] acc s =
      concat (map (\<lambda>c. if c = CHR 0x27 then [CHR 0x27, CHR 0x27] else [c]) s)" for acc
  proof (induction s arbitrary: acc)
    case Nil
    then show ?case by simp
  next
    case (Cons c s)
    show ?case
    proof (cases "c = CHR 0x27")
      case True
      then have "literalAt [CHR 0x27] (c # s) = Some \<lparr>matchText = [CHR 0x27], group1 = []\<rparr>"
        by (simp add: literalAt_def)
      then show ?thesis using True Cons by simp
    next
      case False
      then have "literalAt [CHR 0x27] (c # s) = None" by (simp add: literalAt_def)
      then show ?thesis using False Cons by simp
    qed
  qed
  then show ?thesis by (simp add: sanitizeQuotes_def replaceAllRe_def)
qed

lemma validateProcPathParams_text:
  "validateProcPathParams dp configs src ps st = Inr st' \<Longrightarrow>
   fst st' = rewriteProcPaths src ps (fst st)"
  by (induction ps arbitrary: st) (auto split: if_splits sum.splits)

lemma validateProcPathParams_binds:
  "validateProcPathParams dp configs src ps st = Inr st' \<Longrightarrow> d \<notin> set ps \<Longrightarrow>
   map_of (snd st') d = map_of (snd st) d"
  by (induction ps arbitrary: st) (auto simp: map_of_objSet_other split: if_splits sum.splits)

lemma validateProcQueryParams_binds:
  "validateProcQueryParams dp configs src ps vs = Inr vs' \<Longrightarrow> d \<notin> set ps \<Longrightarrow>
   map_of vs' d = map_of vs d"
  by (induction ps arbitrary: vs) (auto simp: map_of_objSet_other split: if_splits sum.splits)

lemma setupOutputParams_text:
  "fst (setupOutputParams configs ps st) = rewriteOutputs ps (fst st)"
  by (induction ps arbitrary: st) auto

lemma setupOutputParams_binds:
  "d \<notin> set ps \<Longrightarrow> map_of (snd (setupOutputParams configs ps st)) d = map_of (snd st) d"
  by (induction ps arbitrary: st) (auto simp: map_of_objSet_other)

lemma prepareProcedure_Continue:
  assumes "prepareProcedure e ep pathPs req = Continue (original, procBody, binds)"
  shows "original = procedureBodyOf (textOf (sqlProcedure ep)) \<and>
     (\<exists>st1 vs. validateProcPathParams (dateParses e) (epPathParams ep) (procBindSourceOf pathPs req)
                  (pathParams (extractParamDetails original))
                  (bindDollarParam (dbType e) (procBindSourceOf pathPs req) original (original, []))
                = Inr st1 \<and>
              validateProcQueryParams (dateParses e) (epQueryParams ep) (procBindSourceOf pathPs req)
                  (queryParams (extractParamDetails original)) (snd st1) = Inr vs \<and>
              (procBody, binds) =
                (if dbType e = Oracle
                 then setupOutputParams (epPathParams ep @ epQueryParams ep)
                        (outputParams (extractParamDetails original)) (fst st1, vs)
                 else (fst st1, vs)))"
  using assms unfolding prepareProcedure_def Let_def
  by (auto split: if_splits sum.splits)

text \<open>
  C5 (as amended). When the preparation of a procedure call succeeds for a body with a
  dollar-bind \<^verbatim>\<open>$name\<close> whose name is not also a path or query parameter of the body, nor
  for Oracle an output parameter, and is not \<^verbatim>\<open>__proto__\<close>, the binds handed to the
  procedure hold under that name the JSON stringification of the merged bind source
  with every single quote doubled, as one string (for Oracle an input bind of type
  string); and the text handed to the procedure is the body in which every \<^verbatim>\<open>$name\<close>
  that ends at a word boundary has become \<^verbatim>\<open>:name\<close>, with the path placeholders whose
  value is there, and for Oracle the output placeholders, turned into named binds.
\<close>

theorem dollar_bind_prepared:
  assumes "prepareProcedure e ep pathPs req = Continue (original, procBody, binds)"
    and "extractDollarParam original = Some d"
    and "d \<notin> set (pathParams (extractParamDetails original))"
    and "d \<notin> set (queryParams (extractParamDetails original))"
    and "dbType e = Oracle \<longrightarrow> d \<notin> set (outputParams (extractParamDetails original))"
    and "d \<noteq> ''__proto__''"
  shows "original = procedureBodyOf (textOf (sqlProcedure ep)) \<and>
     map_of binds d =
       Some (if dbType e = Oracle
             then OracleIn (concat (map (\<lambda>c. if c = CHR 0x27 then [CHR 0x27, CHR 0x27] else [c])
                                      (jsonStringify (JObj (procBindSourceOf pathPs req)))))
             else Plain (VString (concat (map (\<lambda>c. if c = CHR 0x27 then [CHR 0x27, CHR 0x27] else [c])
                                            (jsonStringify (JObj (procBindSourceOf pathPs req))))))) \<and>
     procBody =
       (if dbType e = Oracle then rewriteOutputs (outputParams (extractParamDetails original)) else id)
         (rewriteProcPaths (procBindSourceOf pathPs req) (pathParams (extractParamDetails original))
            (replaceAllRe (literalBoundaryAt (CHR ''$'' # d)) (CHR '':'' # d) original))"
proof -
  let ?src = "procBindSourceOf pathPs req"
  let ?pd = "extractParamDetails original"
  let ?s = "concat (map (\<lambda>c. if c = CHR 0x27 then [CHR 0x27, CHR 0x27] else [c])
                      (jsonStringify (JObj ?src)))"
  let ?v = "if dbType e = Oracle then OracleIn ?s else Plain (VString ?s)"
  let ?st0 = "bindDollarParam (dbType e) ?src original (original, [])"
  from prepareProcedure_Continue[OF assms(1)]
  obtain st1 vs where orig: "original = procedureBodyOf (textOf (sqlProcedure ep))"
    and p: "validateProcPathParams (dateParses e) (epPathParams ep) ?src (pathParams ?pd) ?st0 = Inr st1"
    and q: "validateProcQueryParams (dateParses e) (epQueryParams ep) ?src (queryParams ?pd) (snd st1) = Inr vs"
    and r: "(procBody, binds) =
                (if dbType e = Oracle
                 then setupOutputParams (epPathParams ep @ epQueryParams ep) (outputParams ?pd) (fst st1, vs)
                 else (fst st1, vs))"
    by blast
  have st0: "?st0 = (replaceAllRe (literalBoundaryAt (CHR ''$'' # d)) (CHR '':'' # d) original,
                     objSet d ?v [])"
    using assms(2) by (simp add: bindDollarParam_def Let_def sanitizeQuotes_doubles)
  have b0: "map_of (snd ?st0) d = Some ?v"
    unfolding st0 snd_conv by (rule map_of_objSet_same[OF assms(6)])
  have b1: "map_of (snd st1) d = Some ?v"
    using validateProcPathParams_binds[OF p assms(3)] b0 by simp
  have b2: "map_of vs d = Some ?v"
    using validateProcQueryParams_binds[OF q assms(4)] b1 by simp
  have t1: "fst st1 = rewriteProcPaths ?src (pathParams ?pd)
                        (replaceAllRe (literalBoundaryAt (CHR ''$'' # d)) (CHR '':'' # d) original)"
    using validateProcPathParams_text[OF p] unfolding st0 by simp
  show ?thesis
  proof (cases "dbType e = Oracle")
    case True
    then have nd: "d \<notin> set (outputParams ?pd)" using assms(5) by simp
    have pb: "procBody = fst (setupOutputParams (epPathParams ep @ epQueryParams ep) (outputParams ?pd) (fst st1, vs))"
      and bb: "binds = snd (setupOutputParams (epPathParams ep @ epQueryParams ep) (outputParams ?pd) (fst st1, vs))"
      using r True by (simp_all add: prod_eq_iff)
    have "map_of binds d = Some ?v"
      unfolding bb using setupOutputParams_binds[OF nd] b2 by simp
    moreover have "procBody = rewriteOutputs (outputParams ?pd) (fst st1)"
      unfolding pb by (simp add: setupOutputParams_text)
    ultimately show ?thesis using orig t1 True by simp
  next
    case False
    then have "procBody = fst st1" and "binds = vs" using r by simp_all
    then show ?thesis using orig t1 b2 False by simp
  qed
qed

theorem dollar_bind_prepared_witness:
  "prepareProcedure (sampleEnv None JNull)
      (sampleEndpoint False (Some ''BEGIN save({id}, $doc); END;'') None []) [(''id'', JStr ''7'')]
      (sampleRequest ''POST'' ''none'' [(''b'', JStr ''q''), (''10'', JStr ''ten'')]
         [(''name'', JStr ''Ann''), (''2'', JNum (Finite 2))]) =
     Continue (''save({id}, $doc)'', ''save(:id, :doc)'',
       [(''doc'', Plain (VString (''{'' @ [CHR 0x22] @ ''2'' @ [CHR 0x22] @ '':2,''
                                    @ [CHR 0x22] @ ''10'' @ [CHR 0x22] @ '':'' @ [CHR 0x22] @ ''ten'' @ [CHR 0x22] @ '',''
                                    @ [CHR 0x22] @ ''id'' @ [CHR 0x22] @ '':'' @ [CHR 0x22] @ ''7'' @ [CHR 0x22] @ '',''
                                    @ [CHR 0x22] @ ''b'' @ [CHR 0x22] @ '':'' @ [CHR 0x22] @ ''q'' @ [CHR 0x22] @ '',''
                                    @ [CHR 0x22] @ ''name'' @ [CHR 0x22] @ '':'' @ [CHR 0x22] @ ''Ann'' @ [CHR 0x22]
                                    @ ''}''))),
        (''id'', Plain (VString ''7''))]) \<and>
   map_of [(''doc'', Plain (VString (''{'' @ [CHR 0x22] @ ''2'' @ [CHR 0x22] @ '':2,''
                                    @ [CHR 0x22] @ ''10'' @ [CHR 0x22] @ '':'' @ [CHR 0x22] @ ''ten'' @ [CHR 0x22] @ '',''
                                    @ [CHR 0x22] @ ''id'' @ [CHR 0x22] @ '':'' @ [CHR 0x22] @ ''7'' @ [CHR 0x22] @ '',''
                                    @ [CHR 0x22] @ ''b'' @ [CHR 0x22] @ '':'' @ [CHR 0x22] @ ''q'' @ [CHR 0x22] @ '',''
                                    @ [CHR 0x22] @ ''name'' @ [CHR 0x22] @ '':'' @ [CHR 0x22] @ ''Ann'' @ [CHR 0x22]
                                    @ ''}''))),
           (''id'', Plain (VString ''7''))] ''doc'' =
     Some (Plain (VString (concat (map (\<lambda>c. if c = CHR 0x27 then [CHR 0x27, CHR 0x27] else [c])
        (jsonStringify (JObj (procBindSourceOf [(''id'', JStr ''7'')]
           (sampleRequest ''POST'' ''none'' [(''b'', JStr ''q''), (''10'', JStr ''ten'')]
              [(''name'', JStr ''Ann''), (''2'', JNum (Finite 2))]))))))))"
proof -
  let ?e = "sampleEnv None JNull"
  let ?ep = "sampleEndpoint False (Some ''BEGIN save({id}, $doc); END;'') None []"
  let ?req = "sampleRequest ''POST'' ''none'' [(''b'', JStr ''q''), (''10'', JStr ''ten'')]
         [(''name'', JStr ''Ann''), (''2'', JNum (Finite 2))]"
  let ?binds = "[(''doc'', Plain (VString (''{'' @ [CHR 0x22] @ ''2'' @ [CHR 0x22] @ '':2,''
                                    @ [CHR 0x22] @ ''10'' @ [CHR 0x22] @ '':'' @ [CHR 0x22] @ ''ten'' @ [CHR 0x22] @ '',''
                                    @ [CHR 0x22] @ ''id'' @ [CHR 0x22] @ '':'' @ [CHR 0x22] @ ''7'' @ [CHR 0x22] @ '',''
                                    @ [CHR 0x22] @ ''b'' @ [CHR 0x22] @ '':'' @ [CHR 0x22] @ ''q'' @ [CHR 0x22] @ '',''
                                    @ [CHR 0x22] @ ''name'' @ [CHR 0x22] @ '':'' @ [CHR 0x22] @ ''Ann'' @ [CHR 0x22]
                                    @ ''}''))),
           (''id'', Plain (VString ''7''))]"
  have h1: "prepareProcedure ?e ?ep [(''id'', JStr ''7'')] ?req =
      Continue (''save({id}, $doc)'', ''save(:id, :doc)'', ?binds)"
    by code_simp
  have h2: "extractDollarParam ''save({id}, $doc)'' = Some ''doc''" by code_simp
  have h3: "''doc'' \<notin> set (pathParams (extractParamDetails ''save({id}, $doc)''))" by code_simp
  have h4: "''doc'' \<notin> set (queryParams (extractParamDetails ''save({id}, $doc)''))" by code_simp
  have h5: "dbType ?e = Oracle \<longrightarrow> ''doc'' \<notin> set (outputParams (extractParamDetails ''save({id}, $doc)''))"
    by (simp add: sampleEnv_def)
  have h6: "''doc'' \<noteq> ''__proto__''" by simp
  have db: "dbType ?e \<noteq> Oracle" by (simp add: sampleEnv_def)
  from dollar_bind_prepared [OF h1 h2 h3 h4 h5 h6] db
  have "map_of ?binds ''doc'' =
     Some (Plain (VString (concat (map (\<lambda>c. if c = CHR 0x27 then [CHR 0x27, CHR 0x27] else [c])
        (jsonStringify (JObj (procBindSourceOf [(''id'', JStr ''7'')] ?req)))))))"
    by simp
  with h1 show ?thesis by blast
qed

text \<open>
  C5 as stated fails. The bound value is not exactly the JSON stringification when the
  payload holds a single quote, which the server doubles; and when the dollar name is
  also a query parameter of the body, the value bound under it is that of the query
  parameter, here \<^verbatim>\<open>null\<close>.
\<close>

theorem dollar_bind_counterexample:
  "prepareProcedure (sampleEnv None JNull)
      (sampleEndpoint False (Some ''save($doc)'') None []) []
      (sampleRequest ''POST'' ''none'' [] [(''name'', JStr (''O'' @ [CHR 0x27] @ ''Brien''))]) =
     Continue (''save($doc)'', ''save(:doc)'',
       [(''doc'', Plain (VString (''{'' @ [CHR 0x22] @ ''name'' @ [CHR 0x22] @ '':'' @ [CHR 0x22]
                                    @ ''O'' @ [CHR 0x27, CHR 0x27] @ ''Brien'' @ [CHR 0x22] @ ''}'')))]) \<and>
   jsonStringify (JObj (procBindSourceOf []
      (sampleRequest ''POST'' ''none'' [] [(''name'', JStr (''O'' @ [CHR 0x27] @ ''Brien''))]))) =
     ''{'' @ [CHR 0x22] @ ''name'' @ [CHR 0x22] @ '':'' @ [CHR 0x22] @ ''O'' @ [CHR 0x27]
       @ ''Brien'' @ [CHR 0x22] @ ''}'' \<and>
   prepareProcedure (sampleEnv None JNull)
      (sampleEndpoint False (Some ''p($data, :data)'') None []) []
      (sampleRequest ''POST'' ''none'' [] [(''a'', JStr ''x'')]) =
     Continue (''p($data, :data)'', ''p(:data, :data)'', [(''data'', Plain VNull)])"
  by code_simp
section \<open>ExecutionOrchestrator: properties of the handler\<close>

lemma validateToken_Responded_any:
  assumes "validateToken env req ep = Responded r"
  shows "status r = 401 \<and> (\<exists>msg. body r = FailureError msg)"
proof (cases "requireToken ep")
  case True
  then show ?thesis using validateToken_Responded assms by blast
next
  case False
  then show ?thesis using assms by (simp add: validateToken_def)
qed

lemma prepareProcedure_Return:
  "prepareProcedure e ep pp req = Return r \<Longrightarrow> \<exists>errs. body r = FailureErrors errs"
  unfolding prepareProcedure_def Let_def
  by (auto split: if_splits sum.splits)

lemma runEndpoint_procedureOnly:
  assumes "hasText (sqlProcedure ep)" "\<not> hasText (sqlQuery ep)"
  shows "(case runEndpoint e ep pp req of
            Return r \<Rightarrow> \<exists>errs. body r = FailureErrors errs
          | Throw err \<Rightarrow> True
          | Continue rows \<Rightarrow> rows = JArr [])"
proof (cases "prepareProcedure e ep pp req")
  case (Return r)
  then show ?thesis using assms prepareProcedure_Return[OF Return]
    by (simp add: runEndpoint_def Let_def)
next
  case (Throw err)
  then show ?thesis using assms by (simp add: runEndpoint_def Let_def)
next
  case (Continue st)
  obtain a b c where st: "st = (a, b, c)" by (cases st)
  show ?thesis using assms Continue st
    by (simp add: runEndpoint_def Let_def split: sum.splits)
qed

text \<open>
  C10. For a procedure-only endpoint (a procedure and no query) the response is either a
  failure envelope or exactly \<^verbatim>\<open>{success: true, data: []}\<close> with status 200: whatever
  output binds the procedure returned, a successful response carries none of them.
\<close>

theorem procedureOnly_response:
  assumes "hasText (sqlProcedure ep)" and "\<not> hasText (sqlQuery ep)"
  shows "handleMatched e ep pathPs req = \<lparr>status = 200, body = SuccessData (JArr [])\<rparr> \<or>
         (\<exists>msg. body (handleMatched e ep pathPs req) = FailureError msg) \<or>
         (\<exists>msgs. body (handleMatched e ep pathPs req) = FailureErrors msgs)"
proof (cases "validateToken (auth e) req ep")
  case (Responded r)
  then show ?thesis using validateToken_Responded_any[OF Responded]
    by (auto simp: handleMatched_def)
next
  case (Next req')
  show ?thesis
    using runEndpoint_procedureOnly[OF assms, of e pathPs req'] Next
    by (auto simp: handleMatched_def errorResponse_def split: outcome.splits)
qed



theorem procedureOnly_response_witness:
  "hasText (sqlProcedure (sampleEndpoint False (Some ''BEGIN create_order(:item, @newId); END;'') None [])) \<and>
   \<not> hasText (sqlQuery (sampleEndpoint False (Some ''BEGIN create_order(:item, @newId); END;'') None [])) \<and>
   handleMatched (sampleEnv (Some [(''newId'', JNum (Finite 42))]) JUndefined)
       (sampleEndpoint False (Some ''BEGIN create_order(:item, @newId); END;'') None []) []
       (sampleRequest ''POST'' ''none'' [] [(''item'', JNum (Finite 7))]) =
     \<lparr>status = 200, body = SuccessData (JArr [])\<rparr>"
proof -
  let ?ep = "sampleEndpoint False (Some ''BEGIN create_order(:item, @newId); END;'') None []"
  let ?e = "sampleEnv (Some [(''newId'', JNum (Finite 42))]) JUndefined"
  let ?req = "sampleRequest ''POST'' ''none'' [] [(''item'', JNum (Finite 7))]"
  have h1: "hasText (sqlProcedure ?ep)" by code_simp
  have h2: "\<not> hasText (sqlQuery ?ep)" by code_simp
  have ok: "status (handleMatched ?e ?ep [] ?req) = 200 \<and>
      (\<forall>msg. body (handleMatched ?e ?ep [] ?req) \<noteq> FailureError msg) \<and>
      (\<forall>msgs. body (handleMatched ?e ?ep [] ?req) \<noteq> FailureErrors msgs)"
  proof -
    have "handleMatched ?e ?ep [] ?req = \<lparr>status = 200, body = SuccessData (JArr [])\<rparr>"
      by code_simp
    then show ?thesis by simp
  qed
  from procedureOnly_response [OF h1 h2, of ?e "[]" ?req] ok
  have "handleMatched ?e ?ep [] ?req = \<lparr>status = 200, body = SuccessData (JArr [])\<rparr>"
    by blast
  with h1 h2 show ?thesis by blast
qed

section \<open>ExecutionOrchestrator: parameter validation\<close>

lemma strIncludes_append: "strIncludes (a @ part @ b) part"
proof (induction a)
  case Nil
  show ?case
  proof (cases "part @ b")
    case Nil
    then show ?thesis by simp
  next
    case (Cons c cs)
    have "take (length part) (part @ b) = part" by simp
    then have "take (length part) (c # cs) = part" using Cons by simp
    then have "strIncludes (c # cs) part" by simp
    then show ?thesis using Cons by simp
  qed
next
  case (Cons c a)
  then show ?case by simp
qed

lemma strIncludes_prefix: "strIncludes (part @ b) part"
  using strIncludes_append[of "[]" part b] by simp

lemma validateStringConstraints_message:
  "validateStringConstraints v sc = Inl msg \<Longrightarrow> msg \<noteq> []"
  by (auto simp: validateStringConstraints_def Let_def split: if_splits option.splits)

lemma convert_error_class:
  assumes "convertAndValidateValue dp pclass v pname config = Inl msg"
  shows "strIncludes msg ''must be provided'' \<or> strIncludes msg ''Invalid''"
proof -
  have req: "strIncludes (''Required '' @ pclass @ '' parameter '' @ [CHR 0x27] @ pname @ [CHR 0x27]
                        @ '' must be provided.'') ''must be provided''"
    using strIncludes_append[of "''Required '' @ pclass @ '' parameter '' @ [CHR 0x27] @ pname @ [CHR 0x27] @ '' ''"
        "''must be provided''" "''.''"]
    by simp
  have inv: "strIncludes (''Invalid'' @ rest) ''Invalid''" for rest
    by (rule strIncludes_prefix)
  have i1: "strIncludes (''Invalid value for '' @ rest) ''Invalid''" for rest
    using inv[of "'' value for '' @ rest"] by simp
  have i2: "strIncludes (''Invalid number value for '' @ rest) ''Invalid''" for rest
    using inv[of "'' number value for '' @ rest"] by simp
  have i3: "strIncludes (''Invalid date format for '' @ rest) ''Invalid''" for rest
    using inv[of "'' date format for '' @ rest"] by simp
  show ?thesis
    using assms req i1 i2 i3
    unfolding convertAndValidateValue_def Let_def
    by (auto split: if_splits option.splits paramType.splits sum.splits simp del: strIncludes.simps)
qed

lemma convert_error_nonempty:
  assumes "convertAndValidateValue dp pclass v pname config = Inl msg"
  shows "msg \<noteq> []"
  using assms unfolding convertAndValidateValue_def Let_def
  by (auto split: if_splits option.splits paramType.splits sum.splits)

lemma errorResponse_validation:
  assumes "convertAndValidateValue dp pclass v pname config = Inl msg"
  shows "errorResponse (newError msg) = \<lparr>status = 400, body = FailureError msg\<rparr>"
  using convert_error_class[OF assms] convert_error_nonempty[OF assms]
  by (auto simp: errorResponse_def newError_def)


lemma required_message_class:
  "strIncludes (''Required path parameter '' @ [CHR 0x27] @ p @ [CHR 0x27] @ '' must be provided.'')
     ''must be provided''"
  using strIncludes_append[of "''Required path parameter '' @ [CHR 0x27] @ p @ [CHR 0x27] @ '' ''"
      "''must be provided''" "''.''"]
  by simp

lemma failure_class:
  assumes "procPathFailure e ep src p = Some msg \<or> pathFailure e ep src p = Some msg \<or>
           queryFailure e ep src p = Some msg"
  shows "errorResponse (newError msg) = \<lparr>status = 400, body = FailureError msg\<rparr>"
proof -
  consider (conv) dp cls v config where "convertAndValidateValue dp cls v p config = Inl msg"
    | (req) "msg = ''Required path parameter '' @ [CHR 0x27] @ p @ [CHR 0x27] @ '' must be provided.''"
    using assms
    by (auto simp: procPathFailure_def pathFailure_def queryFailure_def
             split: if_splits sum.splits)
  then show ?thesis
  proof cases
    case conv
    then show ?thesis by (rule errorResponse_validation)
  next
    case req
    have "strIncludes msg ''must be provided''" unfolding req by (rule required_message_class)
    moreover have "msg \<noteq> []" unfolding req by simp
    ultimately show ?thesis by (simp add: errorResponse_def newError_def)
  qed
qed

lemma find_append_cases:
  "find P (xs @ ys) = (case find P xs of Some x \<Rightarrow> Some x | None \<Rightarrow> find P ys)"
  by (induction xs) auto

lemma validateProcPathParams_fails:
  "find (\<lambda>f. f \<noteq> None) (map (procPathFailure e ep src) ps) = Some (Some msg) \<Longrightarrow>
   validateProcPathParams (dateParses e) (epPathParams ep) src ps st = Inl (newError msg)"
  by (induction ps arbitrary: st)
     (auto simp: procPathFailure_def split: if_splits sum.splits)

lemma validateProcPathParams_passes:
  "find (\<lambda>f. f \<noteq> None) (map (procPathFailure e ep src) ps) = None \<Longrightarrow>
   \<exists>st'. validateProcPathParams (dateParses e) (epPathParams ep) src ps st = Inr st'"
  by (induction ps arbitrary: st)
     (auto simp: procPathFailure_def split: if_splits sum.splits)

lemma validateProcQueryParams_fails:
  "find (\<lambda>f. f \<noteq> None) (map (queryFailure e ep src) ps) = Some (Some msg) \<Longrightarrow>
   validateProcQueryParams (dateParses e) (epQueryParams ep) src ps vs = Inl (newError msg)"
  by (induction ps arbitrary: vs)
     (auto simp: queryFailure_def split: if_splits sum.splits)

lemma validateProcQueryParams_passes:
  "find (\<lambda>f. f \<noteq> None) (map (queryFailure e ep src) ps) = None \<Longrightarrow>
   \<exists>vs'. validateProcQueryParams (dateParses e) (epQueryParams ep) src ps vs = Inr vs'"
  by (induction ps arbitrary: vs)
     (auto simp: queryFailure_def split: if_splits sum.splits)

lemma validateQueryPathParams_fails:
  "find (\<lambda>f. f \<noteq> None) (map (pathFailure e ep src) ps) = Some (Some msg) \<Longrightarrow>
   validateQueryPathParams (dateParses e) (epPathParams ep) src ps st = Inl (newError msg)"
  by (induction ps arbitrary: st)
     (auto simp: pathFailure_def split: if_splits sum.splits)

lemma validateQueryPathParams_passes:
  "find (\<lambda>f. f \<noteq> None) (map (pathFailure e ep src) ps) = None \<Longrightarrow>
   \<exists>st'. validateQueryPathParams (dateParses e) (epPathParams ep) src ps st = Inr st'"
  by (induction ps arbitrary: st)
     (auto simp: pathFailure_def split: if_splits sum.splits)

lemma validateQueryQueryParams_fails:
  "find (\<lambda>f. f \<noteq> None) (map (queryFailure e ep src) ps) = Some (Some msg) \<Longrightarrow>
   validateQueryQueryParams (dateParses e) (epQueryParams ep) src ps vs = Inl (newError msg)"
  by (induction ps arbitrary: vs)
     (auto simp: queryFailure_def split: if_splits sum.splits)

lemma validateQueryQueryParams_passes:
  "find (\<lambda>f. f \<noteq> None) (map (queryFailure e ep src) ps) = None \<Longrightarrow>
   \<exists>vs'. validateQueryQueryParams (dateParses e) (epQueryParams ep) src ps vs = Inr vs'"
  by (induction ps arbitrary: vs)
     (auto simp: queryFailure_def split: if_splits sum.splits)

lemma prepareProcedure_fails:
  assumes schema: "\<not> (jsonSchema ep \<and> validateJsonPayload e (reqBody req) \<noteq> [])"
    and first: "find (\<lambda>f. f \<noteq> None)
        (map (procPathFailure e ep (procBindSourceOf pathPs req))
           (pathParams (extractParamDetails (procedureBodyOf (textOf (sqlProcedure ep)))))
         @ map (queryFailure e ep (procBindSourceOf pathPs req))
             (queryParams (extractParamDetails (procedureBodyOf (textOf (sqlProcedure ep))))))
       = Some (Some msg)"
  shows "prepareProcedure e ep pathPs req = Throw (newError msg)"
proof -
  let ?body = "procedureBodyOf (textOf (sqlProcedure ep))"
  let ?src = "procBindSourceOf pathPs req"
  let ?P = "\<lambda>f :: string option. f \<noteq> None"
  let ?A = "map (procPathFailure e ep ?src) (pathParams (extractParamDetails ?body))"
  let ?B = "map (queryFailure e ep ?src) (queryParams (extractParamDetails ?body))"
  let ?st0 = "bindDollarParam (dbType e) ?src ?body (?body, [])"
  show ?thesis
  proof (cases "find ?P ?A")
    case (Some f)
    then have "find ?P ?A = Some (Some msg)" using first by (simp add: find_append_cases)
    then have "validateProcPathParams (dateParses e) (epPathParams ep) ?src
        (pathParams (extractParamDetails ?body)) ?st0 = Inl (newError msg)"
      by (rule validateProcPathParams_fails)
    then show ?thesis using schema by (auto simp: prepareProcedure_def Let_def)
  next
    case None
    then have b: "find ?P ?B = Some (Some msg)" using first by (simp add: find_append_cases)
    obtain st' where p: "validateProcPathParams (dateParses e) (epPathParams ep) ?src
        (pathParams (extractParamDetails ?body)) ?st0 = Inr st'"
      using validateProcPathParams_passes[OF None] by blast
    have "validateProcQueryParams (dateParses e) (epQueryParams ep) ?src
        (queryParams (extractParamDetails ?body)) (snd st') = Inl (newError msg)"
      by (rule validateProcQueryParams_fails[OF b])
    then show ?thesis using schema p by (auto simp: prepareProcedure_def Let_def)
  qed
qed

lemma prepareProcedure_passes:
  assumes schema: "\<not> (jsonSchema ep \<and> validateJsonPayload e (reqBody req) \<noteq> [])"
    and first: "find (\<lambda>f. f \<noteq> None)
        (map (procPathFailure e ep (procBindSourceOf pathPs req))
           (pathParams (extractParamDetails (procedureBodyOf (textOf (sqlProcedure ep)))))
         @ map (queryFailure e ep (procBindSourceOf pathPs req))
             (queryParams (extractParamDetails (procedureBodyOf (textOf (sqlProcedure ep))))))
       = None"
  shows "\<exists>r. prepareProcedure e ep pathPs req = Continue r"
proof -
  let ?body = "procedureBodyOf (textOf (sqlProcedure ep))"
  let ?src = "procBindSourceOf pathPs req"
  let ?P = "\<lambda>f :: string option. f \<noteq> None"
  let ?A = "map (procPathFailure e ep ?src) (pathParams (extractParamDetails ?body))"
  let ?B = "map (queryFailure e ep ?src) (queryParams (extractParamDetails ?body))"
  let ?st0 = "bindDollarParam (dbType e) ?src ?body (?body, [])"
  have a: "find ?P ?A = None" and b: "find ?P ?B = None"
    using first by (auto simp: find_append_cases split: option.splits)
  obtain st' where p: "validateProcPathParams (dateParses e) (epPathParams ep) ?src
      (pathParams (extractParamDetails ?body)) ?st0 = Inr st'"
    using validateProcPathParams_passes[OF a] by blast
  obtain vs' where q: "validateProcQueryParams (dateParses e) (epQueryParams ep) ?src
      (queryParams (extractParamDetails ?body)) (snd st') = Inr vs'"
    using validateProcQueryParams_passes[OF b] by blast
  show ?thesis using schema p q by (auto simp: prepareProcedure_def Let_def)
qed

lemma prepareQuery_fails:
  assumes first: "find (\<lambda>f. f \<noteq> None)
        (map (pathFailure e ep (queryBindSourceOf pathPs req))
           (pathParams (extractParamDetails (textOf (sqlQuery ep))))
         @ map (queryFailure e ep (queryBindSourceOf pathPs req))
             (queryParams (extractParamDetails (textOf (sqlQuery ep)))))
       = Some (Some msg)"
  shows "prepareQuery e ep pathPs req = Throw (newError msg)"
proof -
  let ?src = "queryBindSourceOf pathPs req"
  let ?P = "\<lambda>f :: string option. f \<noteq> None"
  let ?A = "map (pathFailure e ep ?src) (pathParams (extractParamDetails (textOf (sqlQuery ep))))"
  let ?B = "map (queryFailure e ep ?src) (queryParams (extractParamDetails (textOf (sqlQuery ep))))"
  show ?thesis
  proof (cases "find ?P ?A")
    case (Some f)
    then have "find ?P ?A = Some (Some msg)" using first by (simp add: find_append_cases)
    then have "validateQueryPathParams (dateParses e) (epPathParams ep) ?src
        (pathParams (extractParamDetails (textOf (sqlQuery ep)))) (textOf (sqlQuery ep), [])
        = Inl (newError msg)"
      by (rule validateQueryPathParams_fails)
    then show ?thesis by (auto simp: prepareQuery_def Let_def)
  next
    case None
    then have b: "find ?P ?B = Some (Some msg)" using first by (simp add: find_append_cases)
    obtain st' where p: "validateQueryPathParams (dateParses e) (epPathParams ep) ?src
        (pathParams (extractParamDetails (textOf (sqlQuery ep)))) (textOf (sqlQuery ep), [])
        = Inr st'"
      using validateQueryPathParams_passes[OF None] by blast
    have "validateQueryQueryParams (dateParses e) (epQueryParams ep) ?src
        (queryParams (extractParamDetails (textOf (sqlQuery ep)))) (snd st') = Inl (newError msg)"
      by (rule validateQueryQueryParams_fails[OF b])
    then show ?thesis using p by (auto simp: prepareQuery_def Let_def)
  qed
qed

lemma find_failure_member:
  assumes "find (\<lambda>f. f \<noteq> None) (validationFailures e ep pathPs req) = Some (Some msg)"
  shows "\<exists>src p. procPathFailure e ep src p = Some msg \<or> pathFailure e ep src p = Some msg \<or>
                 queryFailure e ep src p = Some msg"
proof -
  have "Some msg \<in> set (validationFailures e ep pathPs req)"
    using assms by (auto simp: find_Some_iff in_set_conv_nth)
  then show ?thesis
    by (auto simp: validationFailures_def split: if_splits) metis+
qed

lemma runEndpoint_first_failure:
  assumes schema: "\<not> (hasText (sqlProcedure ep) \<and> jsonSchema ep \<and>
                       validateJsonPayload e (reqBody req) \<noteq> [])"
    and first: "find (\<lambda>f. f \<noteq> None) (validationFailures e ep pathPs req) = Some (Some msg)"
  shows "runEndpoint e ep pathPs req = Throw (newError msg)"
proof -
  define P where "P = (\<lambda>f :: string option. f \<noteq> None)"
  define A where "A = map (procPathFailure e ep (procBindSourceOf pathPs req))
           (pathParams (extractParamDetails (procedureBodyOf (textOf (sqlProcedure ep)))))
         @ map (queryFailure e ep (procBindSourceOf pathPs req))
             (queryParams (extractParamDetails (procedureBodyOf (textOf (sqlProcedure ep)))))"
  define B where "B = map (pathFailure e ep (queryBindSourceOf pathPs req))
           (pathParams (extractParamDetails (textOf (sqlQuery ep))))
         @ map (queryFailure e ep (queryBindSourceOf pathPs req))
             (queryParams (extractParamDetails (textOf (sqlQuery ep))))"
  have vf: "validationFailures e ep pathPs req =
      (if hasText (sqlProcedure ep) then A else []) @ (if hasText (sqlQuery ep) then B else [])"
    by (simp add: validationFailures_def A_def B_def)
  have first': "(case find P (if hasText (sqlProcedure ep) then A else []) of
                   Some x \<Rightarrow> Some x
                 | None \<Rightarrow> find P (if hasText (sqlQuery ep) then B else [])) = Some (Some msg)"
    using first unfolding vf P_def[symmetric] by (simp only: find_append_cases)
  show ?thesis
  proof (cases "hasText (sqlProcedure ep)")
    case True
    then have sch: "\<not> (jsonSchema ep \<and> validateJsonPayload e (reqBody req) \<noteq> [])"
      using schema by simp
    show ?thesis
    proof (cases "find P A")
      case (Some f)
      then have "find P A = Some (Some msg)" using first' True by simp
      then have "prepareProcedure e ep pathPs req = Throw (newError msg)"
        unfolding P_def A_def by (rule prepareProcedure_fails[OF sch])
      then show ?thesis using True by (simp add: runEndpoint_def Let_def)
    next
      case None
      then have fb: "find P (if hasText (sqlQuery ep) then B else []) = Some (Some msg)"
        using first' True by simp
      then have q: "hasText (sqlQuery ep)" by (auto split: if_splits)
      then have b: "find P B = Some (Some msg)" using fb by simp
      obtain r where r: "prepareProcedure e ep pathPs req = Continue r"
        using prepareProcedure_passes[OF sch None[unfolded P_def A_def]] by blast
      obtain a1 a2 a3 where r3: "r = (a1, a2, a3)" by (cases r)
      have "prepareQuery e ep pathPs req = Throw (newError msg)"
        by (rule prepareQuery_fails[OF b[unfolded P_def B_def]])
      then show ?thesis using True q r r3 by (simp add: runEndpoint_def Let_def)
    qed
  next
    case False
    then have fb: "find P (if hasText (sqlQuery ep) then B else []) = Some (Some msg)"
      using first' by simp
    then have q: "hasText (sqlQuery ep)" by (auto split: if_splits)
    then have b: "find P B = Some (Some msg)" using fb by simp
    have "prepareQuery e ep pathPs req = Throw (newError msg)"
      by (rule prepareQuery_fails[OF b[unfolded P_def B_def]])
    then show ?thesis using False q by (simp add: runEndpoint_def Let_def)
  qed
qed

lemma runEndpoint_payload_failure:
  assumes "hasText (sqlProcedure ep)" "jsonSchema ep" "validateJsonPayload e (reqBody req) \<noteq> []"
  shows "runEndpoint e ep pathPs req =
     Return \<lparr>status = 400, body = FailureErrors (validateJsonPayload e (reqBody req))\<rparr>"
  using assms by (simp add: runEndpoint_def prepareProcedure_def Let_def)

text \<open>
  C4 (as amended). Once the guard has passed, the payload of a request to an endpoint
  with a procedure and a JSON schema is validated first, and its failures are answered
  together: status 400 and the list of the validator as \<^verbatim>\<open>errors\<close>. The validation of the
  path and query parameters fails fast. They are validated in the order the handler takes
  them: the path parameters of the procedure, its query parameters, the path parameters
  of the query, its query parameters, each list in extraction order. The first parameter
  whose validation fails ends the request: the response has status 400 and carries, as
  its single \<^verbatim>\<open>error\<close>, the message of that parameter alone, whatever the parameters after
  it would have produced.
\<close>

theorem validation_fails_fast:
  assumes "validateToken (auth e) req ep = Next req'"
  shows "(hasText (sqlProcedure ep) \<and> jsonSchema ep \<and> validateJsonPayload e (reqBody req') \<noteq> []
          \<longrightarrow> handleMatched e ep pathPs req =
                \<lparr>status = 400, body = FailureErrors (validateJsonPayload e (reqBody req'))\<rparr>) \<and>
         (\<not> (hasText (sqlProcedure ep) \<and> jsonSchema ep \<and> validateJsonPayload e (reqBody req') \<noteq> []) \<and>
          find (\<lambda>f. f \<noteq> None) (validationFailures e ep pathPs req') = Some (Some msg)
          \<longrightarrow> handleMatched e ep pathPs req = \<lparr>status = 400, body = FailureError msg\<rparr>)"
proof (intro conjI impI)
  assume "hasText (sqlProcedure ep) \<and> jsonSchema ep \<and> validateJsonPayload e (reqBody req') \<noteq> []"
  then have "runEndpoint e ep pathPs req' =
     Return \<lparr>status = 400, body = FailureErrors (validateJsonPayload e (reqBody req'))\<rparr>"
    using runEndpoint_payload_failure by blast
  then show "handleMatched e ep pathPs req =
      \<lparr>status = 400, body = FailureErrors (validateJsonPayload e (reqBody req'))\<rparr>"
    using assms by (simp add: handleMatched_def)
next
  assume h: "\<not> (hasText (sqlProcedure ep) \<and> jsonSchema ep \<and> validateJsonPayload e (reqBody req') \<noteq> []) \<and>
          find (\<lambda>f. f \<noteq> None) (validationFailures e ep pathPs req') = Some (Some msg)"
  then have run: "runEndpoint e ep pathPs req' = Throw (newError msg)"
    using runEndpoint_first_failure by blast
  obtain src p where "procPathFailure e ep src p = Some msg \<or> pathFailure e ep src p = Some msg \<or>
                 queryFailure e ep src p = Some msg"
    using find_failure_member h by blast
  then have "errorResponse (newError msg) = \<lparr>status = 400, body = FailureError msg\<rparr>"
    by (rule failure_class)
  then show "handleMatched e ep pathPs req = \<lparr>status = 400, body = FailureError msg\<rparr>"
    using assms run by (simp add: handleMatched_def)
qed

theorem validation_fails_fast_witness:
  "handleMatched (sampleEnv None (JArr []))
     ((sampleEndpoint False (Some ''CALL p({id}, :a)'') (Some ''SELECT :b'')
         [numberParam ''a'', numberParam ''b''])\<lparr>epPathParams := [numberParam ''id'']\<rparr>) []
     (sampleRequest ''POST'' ''none'' [] [(''a'', JStr ''x''), (''b'', JStr ''y'')])
   = \<lparr>status = 400,
      body = FailureError (''Required path parameter '' @ [CHR 0x27] @ ''id'' @ [CHR 0x27]
                             @ '' must be provided.'')\<rparr> \<and>
   handleMatched
     ((sampleEnv None (JArr []))\<lparr>validateJsonPayload := (\<lambda>payload. [''qty is required'', ''name is too long''])\<rparr>)
     ((sampleEndpoint False (Some ''CALL p(:a)'') None [numberParam ''a''])\<lparr>jsonSchema := True\<rparr>) []
     (sampleRequest ''POST'' ''none'' [] [(''a'', JStr ''x'')])
   = \<lparr>status = 400, body = FailureErrors [''qty is required'', ''name is too long'']\<rparr>"
proof -
  let ?e = "sampleEnv None (JArr [])"
  let ?ep = "(sampleEndpoint False (Some ''CALL p({id}, :a)'') (Some ''SELECT :b'')
         [numberParam ''a'', numberParam ''b''])\<lparr>epPathParams := [numberParam ''id'']\<rparr>"
  let ?req = "sampleRequest ''POST'' ''none'' [] [(''a'', JStr ''x''), (''b'', JStr ''y'')]"
  let ?msg = "''Required path parameter '' @ [CHR 0x27] @ ''id'' @ [CHR 0x27] @ '' must be provided.''"
  have g: "validateToken (auth ?e) ?req ?ep = Next ?req" by code_simp
  have h1: "\<not> (hasText (sqlProcedure ?ep) \<and> jsonSchema ?ep \<and> validateJsonPayload ?e (reqBody ?req) \<noteq> [])"
    by (simp add: sampleEndpoint_def)
  have h2: "find (\<lambda>f. f \<noteq> None) (validationFailures ?e ?ep [] ?req) = Some (Some ?msg)"
    by code_simp
  have first: "handleMatched ?e ?ep [] ?req = \<lparr>status = 400, body = FailureError ?msg\<rparr>"
    using validation_fails_fast [OF g, of "[]" ?msg] h1 h2 by blast
  let ?e2 = "(sampleEnv None (JArr []))\<lparr>validateJsonPayload := (\<lambda>payload. [''qty is required'', ''name is too long''])\<rparr>"
  let ?ep2 = "(sampleEndpoint False (Some ''CALL p(:a)'') None [numberParam ''a''])\<lparr>jsonSchema := True\<rparr>"
  let ?req2 = "sampleRequest ''POST'' ''none'' [] [(''a'', JStr ''x'')]"
  have g2: "validateToken (auth ?e2) ?req2 ?ep2 = Next ?req2" by code_simp
  have k1: "hasText (sqlProcedure ?ep2)" by code_simp
  have k2: "jsonSchema ?ep2" by simp
  have k3: "validateJsonPayload ?e2 (reqBody ?req2) = [''qty is required'', ''name is too long'']"
    by simp
  have second: "handleMatched ?e2 ?ep2 [] ?req2 =
      \<lparr>status = 400, body = FailureErrors [''qty is required'', ''name is too long'']\<rparr>"
    using validation_fails_fast [OF g2, of "[]"] k1 k2 k3 by simp
  show ?thesis using first second by blast
qed

text \<open>
  C4 as stated fails: with two invalid parameters the response carries the failure of the
  first one only, as a single \<^verbatim>\<open>error\<close> and not as a list; the failure of the second
  parameter is never computed into the response.
\<close>

theorem validation_aggregation_counterexample:
  "handleMatched (sampleEnv None (JArr []))
     (sampleEndpoint False None (Some ''SELECT :a, :b'') [numberParam ''a'', numberParam ''b'']) []
     (sampleRequest ''GET'' ''none'' [(''a'', JStr ''x''), (''b'', JStr ''y'')] [])
   = \<lparr>status = 400,
      body = FailureError (''Invalid number value for query parameter '' @ [CHR 0x27] @ ''a''
                             @ [CHR 0x27] @ '': x'')\<rparr> \<and>
   queryFailure (sampleEnv None (JArr []))
     (sampleEndpoint False None (Some ''SELECT :a, :b'') [numberParam ''a'', numberParam ''b''])
     (queryBindSourceOf []
        (sampleRequest ''GET'' ''none'' [(''a'', JStr ''x''), (''b'', JStr ''y'')] [])) ''b''
   = Some (''Invalid number value for query parameter '' @ [CHR 0x27] @ ''b''
            @ [CHR 0x27] @ '': y'')"
  by code_simp
section \<open>DialectAdapter: the transaction of a MySQL procedure call\<close>

lemma allSucceed_append:
  "allSucceed r tr (a @ b) = (allSucceed r tr a \<and> allSucceed r (tr @ a) b)"
  by (induction a arbitrary: tr) auto

lemma resetOutputs_ok:
  "(snd (resetOutputs r tr names) = None) = allSucceed r tr (map resetOp names)"
  by (induction names arbitrary: tr) (auto simp: isRows_def split: dbReply.splits)

lemma resetOutputs_trace_ok:
  "snd (resetOutputs r tr names) = None \<Longrightarrow> fst (resetOutputs r tr names) = tr @ map resetOp names"
  by (induction names arbitrary: tr) (auto split: dbReply.splits)

lemma resetOutputs_trace_fail:
  "snd (resetOutputs r tr names) = Some e \<Longrightarrow>
   \<exists>k \<le> length names. fst (resetOutputs r tr names) = tr @ take k (map resetOp names)"
proof (induction names arbitrary: tr)
  case Nil
  then show ?case by simp
next
  case (Cons n names)
  show ?case
  proof (cases "r tr (resetOp n)")
    case (Failed e')
    then have "fst (resetOutputs r tr (n # names)) = tr @ take 1 (map resetOp (n # names))" by simp
    then show ?thesis by (metis One_nat_def Suc_leI length_Cons zero_less_Suc)
  next
    case (Rows rows)
    then have "snd (resetOutputs r (tr @ [resetOp n]) names) = Some e" using Cons.prems by simp
    from Cons.IH[OF this] obtain k where k: "k \<le> length names"
      "fst (resetOutputs r (tr @ [resetOp n]) names) = (tr @ [resetOp n]) @ take k (map resetOp names)"
      by blast
    have "fst (resetOutputs r tr (n # names)) = tr @ take (Suc k) (map resetOp (n # names))"
      using Rows k(2) by simp
    then show ?thesis using k(1) by (metis Suc_le_mono length_Cons)
  qed
qed

lemma fetchOutputs_trace:
  "fst (fetchOutputs r tr names outs) = tr @ map selectOp names"
  by (induction names arbitrary: tr outs) (auto split: dbReply.splits list.splits)


lemma mysqlTransaction_spec:
  fixes r orig pbody params
  defines "steps \<equiv> procedureSteps orig pbody params"
    and "reads \<equiv> outputReads orig"
    and "T \<equiv> mysqlTransaction r orig pbody params"
  shows "(\<exists>outs. snd T = Inr outs) = (allSucceed r [] steps \<and> isRows (r (steps @ reads) Commit))"
    and "(\<exists>outs. snd T = Inr outs) \<Longrightarrow> fst T = steps @ reads @ [Commit]"
    and "(\<exists>e. snd T = Inl e) \<Longrightarrow> \<exists>k. fst T = take k (steps @ reads @ [Commit])"
proof -
  define names where "names = map group1 (matchAllRe (sigilParamAt (CHR ''@'')) orig)"
  define stmt where "stmt = Execute (fst (rewritePlaceholders (jsTrim pbody) params))
                                   (snd (rewritePlaceholders (jsTrim pbody) params))"
  have steps: "steps = BeginTransaction # map resetOp names @ [stmt]"
    by (simp add: steps_def procedureSteps_def names_def stmt_def)
  have reads: "reads = map selectOp names"
    by (simp add: reads_def outputReads_def names_def)
  have all: "allSucceed r [] steps =
      (isRows (r [] BeginTransaction) \<and> allSucceed r [BeginTransaction] (map resetOp names) \<and>
       isRows (r (BeginTransaction # map resetOp names) stmt))"
    by (simp add: steps allSucceed_append)
  let ?goal = "((\<exists>outs. snd T = Inr outs) = (allSucceed r [] steps \<and> isRows (r (steps @ reads) Commit))) \<and>
     ((\<exists>outs. snd T = Inr outs) \<longrightarrow> fst T = steps @ reads @ [Commit]) \<and>
     ((\<exists>e. snd T = Inl e) \<longrightarrow> (\<exists>k. fst T = take k (steps @ reads @ [Commit])))"
  have ?goal
  proof (cases "r [] BeginTransaction")
    case (Failed e)
    then have T: "T = ([BeginTransaction], Inl e)" by (simp add: T_def mysqlTransaction_def)
    have k: "\<exists>k. fst T = take k (steps @ reads @ [Commit])"
      by (rule exI[of _ 1]) (simp add: T steps)
    have nres: "\<not> (\<exists>outs. snd T = Inr outs)" by (simp add: T)
    have nall: "\<not> allSucceed r [] steps" using Failed all by (simp add: isRows_def)
    show ?thesis using k nres nall by blast
  next
    case b: (Rows rows0)
    show ?thesis
    proof (cases "snd (resetOutputs r [BeginTransaction] names)")
      case (Some e)
      then have ne: "names \<noteq> []" by (cases names) auto
      obtain tr1 where r1: "resetOutputs r [BeginTransaction] names = (tr1, Some e)"
        using Some by (cases "resetOutputs r [BeginTransaction] names") auto
      have T: "T = (tr1, Inl e)"
        using b ne r1 by (simp add: T_def mysqlTransaction_def Let_def names_def)
      from resetOutputs_trace_fail[OF Some] r1 obtain k where
        k: "k \<le> length names" "tr1 = [BeginTransaction] @ take k (map resetOp names)" by auto
      have kk: "\<exists>k. fst T = take k (steps @ reads @ [Commit])"
        by (rule exI[of _ "Suc k"]) (use k in \<open>simp add: T steps\<close>)
      have nres: "\<not> (\<exists>outs. snd T = Inr outs)" by (simp add: T)
      have "\<not> allSucceed r [BeginTransaction] (map resetOp names)"
        using Some resetOutputs_ok[of r "[BeginTransaction]" names] by simp
      then have nall: "\<not> allSucceed r [] steps" using all by simp
      show ?thesis using kk nres nall by blast
    next
      case None
      then have okr: "allSucceed r [BeginTransaction] (map resetOp names)"
        using resetOutputs_ok[of r "[BeginTransaction]" names] by simp
      have tr1: "resetOutputs r [BeginTransaction] names = (BeginTransaction # map resetOp names, None)"
        using None resetOutputs_trace_ok[OF None]
        by (cases "resetOutputs r [BeginTransaction] names") auto
      let ?tr1 = "BeginTransaction # map resetOp names"
      show ?thesis
      proof (cases "r ?tr1 stmt")
        case (Failed e)
        have T: "T = (?tr1 @ [stmt], Inl e)"
        proof (cases "names = []")
          case True
          then show ?thesis using b Failed
            by (simp add: T_def mysqlTransaction_def Let_def names_def[symmetric] stmt_def[symmetric])
        next
          case False
          then show ?thesis using b Failed tr1
            by (simp add: T_def mysqlTransaction_def Let_def names_def[symmetric] stmt_def[symmetric])
        qed
        have kk: "\<exists>k. fst T = take k (steps @ reads @ [Commit])"
          by (rule exI[of _ "length steps"]) (simp add: T steps)
        have nres: "\<not> (\<exists>outs. snd T = Inr outs)" by (simp add: T)
        have nall: "\<not> allSucceed r [] steps" using Failed all by (simp add: isRows_def)
        show ?thesis using kk nres nall by blast
      next
        case s: (Rows rows1)
        have tr2: "steps @ reads = ?tr1 @ [stmt] @ map selectOp names" by (simp add: steps reads)
        obtain fouts where fo: "fetchOutputs r (?tr1 @ [stmt]) names [] = (steps @ reads, fouts)"
          using fetchOutputs_trace[of r "?tr1 @ [stmt]" names "[]"] tr2
          by (cases "fetchOutputs r (?tr1 @ [stmt]) names []") auto
        have alls: "allSucceed r [] steps" using all b s okr by (simp add: isRows_def)
        show ?thesis
        proof (cases "r (steps @ reads) Commit")
          case (Failed e)
          have T: "T = (steps @ reads @ [Commit], Inl e)"
          proof (cases "names = []")
            case True
            then show ?thesis using b s Failed
              by (simp add: T_def mysqlTransaction_def Let_def names_def[symmetric] stmt_def[symmetric] steps reads)
          next
            case False
            then show ?thesis using b s Failed tr1 fo
              by (simp add: T_def mysqlTransaction_def Let_def names_def[symmetric] stmt_def[symmetric])
          qed
          have kk: "\<exists>k. fst T = take k (steps @ reads @ [Commit])"
            by (rule exI[of _ "length (steps @ reads @ [Commit])"]) (simp add: T)
          have nres: "\<not> (\<exists>outs. snd T = Inr outs)" by (simp add: T)
          have nall: "\<not> isRows (r (steps @ reads) Commit)" using Failed by (simp add: isRows_def)
          show ?thesis using kk nres nall by blast
        next
          case c: (Rows rows2)
          have T: "\<exists>outs. T = (steps @ reads @ [Commit], Inr outs)"
          proof (cases "names = []")
            case True
            then show ?thesis using b s c
              by (simp add: T_def mysqlTransaction_def Let_def names_def[symmetric] stmt_def[symmetric] steps reads)
          next
            case False
            then show ?thesis using b s c tr1 fo
              by (simp add: T_def mysqlTransaction_def Let_def names_def[symmetric] stmt_def[symmetric])
          qed
          then obtain outs where To: "T = (steps @ reads @ [Commit], Inr outs)" by blast
          have res: "\<exists>outs. snd T = Inr outs" by (simp add: To)
          have ft: "fst T = steps @ reads @ [Commit]" by (simp add: To)
          have nl: "\<not> (\<exists>e. snd T = Inl e)" by (simp add: To)
          have cr: "isRows (r (steps @ reads) Commit)" using c by (simp add: isRows_def)
          show ?thesis using res ft nl cr alls by blast
        qed
      qed
    qed
  qed
  then show "(\<exists>outs. snd T = Inr outs) = (allSucceed r [] steps \<and> isRows (r (steps @ reads) Commit))"
    and "(\<exists>outs. snd T = Inr outs) \<Longrightarrow> fst T = steps @ reads @ [Commit]"
    and "(\<exists>e. snd T = Inl e) \<Longrightarrow> \<exists>k. fst T = take k (steps @ reads @ [Commit])"
    by blast+
qed


lemma count_list_take_le: "count_list (take k xs) c \<le> count_list xs c"
proof (induction xs arbitrary: k)
  case Nil
  then show ?case by simp
next
  case (Cons x xs)
  show ?case using Cons[of "k - 1"] by (cases k) auto
qed

lemma steps_no_end:
  "Commit \<notin> set (procedureSteps orig pbody params)"
  "Rollback \<notin> set (procedureSteps orig pbody params)"
  "Commit \<notin> set (outputReads orig)"
  "Rollback \<notin> set (outputReads orig)"
  by (auto simp: procedureSteps_def outputReads_def resetOp_def selectOp_def)

lemma whole_counts:
  "count_list (procedureSteps orig pbody params @ outputReads orig @ [Commit]) Commit = 1"
  "count_list (procedureSteps orig pbody params @ outputReads orig @ [Commit]) Rollback = 0"
  using steps_no_end(1,2)[of orig pbody params] steps_no_end(3,4)[of orig]
  by (simp_all add: count_list_0_iff)

lemma fetchOutputs_values:
  assumes "''__proto__'' \<notin> fst ` set outs"
  shows "map_of (snd (fetchOutputs r tr names outs)) n =
     (case lastRead r tr names n of
        Some v \<Rightarrow> if n = ''__proto__'' then None else Some v
      | None \<Rightarrow> map_of outs n)"
  using assms
proof (induction names arbitrary: tr outs)
  case Nil
  then show ?case by simp
next
  case (Cons m names)
  have none: "map_of outs ''__proto__'' = None"
    using Cons.prems by (simp add: map_of_eq_None_iff)
  have keep: "''__proto__'' \<notin> fst ` set (objSet m v outs)" for v
    using Cons.prems by (auto simp: objSet_def keys_objDefine)
  have same: "m \<noteq> ''__proto__'' \<Longrightarrow> map_of (objSet m v outs) m = Some v" for v
    by (rule map_of_objSet_same)
  have proto: "objSet ''__proto__'' v outs = outs" for v
    using Cons.prems by (simp add: objSet_def)
  show ?case
  proof (cases "r tr (selectOp m)")
    case (Failed e)
    then show ?thesis using Cons.IH[OF Cons.prems] none
      by (auto split: option.splits)
  next
    case (Rows rows)
    show ?thesis
    proof (cases rows)
      case Nil
      then show ?thesis using Rows Cons.IH[OF Cons.prems] none
        by (auto split: option.splits)
    next
      case (Cons v rest)
      show ?thesis
      proof (cases "m = n")
        case True
        then show ?thesis
          using Rows Cons Cons.IH[OF keep[of v], of "tr @ [selectOp m]"] none same[of v] proto[of v]
          by (auto split: option.splits)
      next
        case False
        then show ?thesis
          using Rows Cons Cons.IH[OF keep[of v], of "tr @ [selectOp m]"]
          by (auto simp: map_of_objSet_other split: option.splits)
      qed
    qed
  qed
qed

lemma mysqlTransaction_outputs:
  assumes "snd (mysqlTransaction r orig pbody params) = Inr outs"
  shows "outs = snd (fetchOutputs r (procedureSteps orig pbody params) (mysqlOutputNames orig) [])"
proof -
  define names where "names = map group1 (matchAllRe (sigilParamAt (CHR ''@'')) orig)"
  define stmt where "stmt = Execute (fst (rewritePlaceholders (jsTrim pbody) params))
                                   (snd (rewritePlaceholders (jsTrim pbody) params))"
  have steps: "procedureSteps orig pbody params = BeginTransaction # map resetOp names @ [stmt]"
    by (simp add: procedureSteps_def names_def stmt_def)
  have on: "mysqlOutputNames orig = names" by (simp add: mysqlOutputNames_def names_def)
  show ?thesis
  proof (cases "names = []")
    case True
    then show ?thesis
      using assms unfolding steps on
      by (auto simp: mysqlTransaction_def Let_def names_def[symmetric] stmt_def[symmetric]
               split: dbReply.splits)
  next
    case False
    obtain tr1 res where ro: "resetOutputs r [BeginTransaction] names = (tr1, res)"
      by (cases "resetOutputs r [BeginTransaction] names")
    have res: "res = None"
      using assms False ro
      by (auto simp: mysqlTransaction_def Let_def names_def[symmetric] stmt_def[symmetric]
               split: dbReply.splits option.splits)
    have tr1: "tr1 = [BeginTransaction] @ map resetOp names"
      using resetOutputs_trace_ok[of r "[BeginTransaction]" names] ro res by simp
    show ?thesis
      using assms False ro res unfolding steps on tr1
      by (auto simp: mysqlTransaction_def Let_def names_def[symmetric] stmt_def[symmetric]
               split: dbReply.splits option.splits prod.splits)
  qed
qed

text \<open>
  C3 (as amended). On MySQL, once the connection is there, the emulation runs inside one
  transaction: \<^verbatim>\<open>beginTransaction\<close>, the reset of each output variable, the statement
  with positional markers, the read of each output variable, \<^verbatim>\<open>commit\<close>. The run returns
  its outputs if and only if \<^verbatim>\<open>beginTransaction\<close>, every reset, the statement and
  \<^verbatim>\<open>commit\<close> succeed; then the trace is exactly that sequence with one \<^verbatim>\<open>commit\<close> and
  no \<^verbatim>\<open>rollback\<close>, and the outputs hold, under every output name, the value of the last
  read of that name that came back with a row: a read that fails, or comes back without
  a row, is skipped, undoes nothing and sets nothing, and a name none of whose reads
  gave a row is not among the outputs (nor is the name \<^verbatim>\<open>__proto__\<close>). When one of the
  other calls fails, the run stops there, issues one \<^verbatim>\<open>rollback\<close> and throws; \<^verbatim>\<open>commit\<close>
  was attempted at most once.
\<close>

theorem mysqlExecuteProcedure_transaction:
  assumes "connect conn = None"
  shows "((\<exists>outs. outcome (mysqlExecuteProcedure conn orig pbody params) = Inr outs) \<longleftrightarrow>
            allSucceed (respond conn) [] (procedureSteps orig pbody params) \<and>
            isRows (respond conn (procedureSteps orig pbody params @ outputReads orig) Commit)) \<and>
         (\<forall>outs. outcome (mysqlExecuteProcedure conn orig pbody params) = Inr outs \<longrightarrow>
            trace (mysqlExecuteProcedure conn orig pbody params) =
              procedureSteps orig pbody params @ outputReads orig @ [Commit, Release] \<and>
            count_list (trace (mysqlExecuteProcedure conn orig pbody params)) Commit = 1 \<and>
            count_list (trace (mysqlExecuteProcedure conn orig pbody params)) Rollback = 0 \<and>
            (\<forall>n. map_of outs n =
                   (if n = ''__proto__'' then None
                    else lastRead (respond conn) (procedureSteps orig pbody params)
                           (mysqlOutputNames orig) n))) \<and>
         ((\<exists>e. outcome (mysqlExecuteProcedure conn orig pbody params) = Inl e) \<longrightarrow>
            (\<exists>k. trace (mysqlExecuteProcedure conn orig pbody params) =
               take k (procedureSteps orig pbody params @ outputReads orig @ [Commit])
                 @ [Rollback, Release]) \<and>
            count_list (trace (mysqlExecuteProcedure conn orig pbody params)) Rollback = 1 \<and>
            count_list (trace (mysqlExecuteProcedure conn orig pbody params)) Commit \<le> 1)"
proof -
  let ?T = "mysqlTransaction (respond conn) orig pbody params"
  let ?R = "mysqlExecuteProcedure conn orig pbody params"
  let ?W = "procedureSteps orig pbody params @ outputReads orig @ [Commit]"
  note spec = mysqlTransaction_spec[of "respond conn" orig pbody params]
  show ?thesis
  proof (cases "snd ?T")
    case (Inr outs)
    then have T: "?T = (fst ?T, Inr outs)" by (cases ?T) auto
    have ft: "fst ?T = ?W" using spec(2) Inr by blast
    have R: "?R = \<lparr>trace = ?W @ [Release], outcome = Inr outs\<rparr>"
      using assms T ft by (simp add: mysqlExecuteProcedure_def split: prod.splits)
    have ok: "allSucceed (respond conn) [] (procedureSteps orig pbody params) \<and>
            isRows (respond conn (procedureSteps orig pbody params @ outputReads orig) Commit)"
      using spec(1) Inr by blast
    have c1: "count_list (?W @ [Release]) Commit = 1" "count_list (?W @ [Release]) Rollback = 0"
      using whole_counts[of orig pbody params] by simp_all
    have outs: "outs = snd (fetchOutputs (respond conn) (procedureSteps orig pbody params)
                              (mysqlOutputNames orig) [])"
      by (rule mysqlTransaction_outputs[OF Inr])
    have vals: "map_of outs n =
        (if n = ''__proto__'' then None
         else lastRead (respond conn) (procedureSteps orig pbody params) (mysqlOutputNames orig) n)"
      for n
      unfolding outs
      using fetchOutputs_values[of "[]" "respond conn" "procedureSteps orig pbody params"
          "mysqlOutputNames orig" n]
      by (auto split: option.splits)
    show ?thesis unfolding R using ok c1 vals by simp
  next
    case (Inl e)
    then have T: "?T = (fst ?T, Inl e)" by (cases ?T) auto
    obtain k where k: "fst ?T = take k ?W" using spec(3) Inl by blast
    have nok: "\<not> (allSucceed (respond conn) [] (procedureSteps orig pbody params) \<and>
            isRows (respond conn (procedureSteps orig pbody params @ outputReads orig) Commit))"
      using spec(1) Inl by auto
    obtain e' where R: "?R = \<lparr>trace = take k ?W @ [Rollback, Release], outcome = Inl e'\<rparr>"
    proof (cases "respond conn (fst ?T) Rollback")
      case (Failed e2)
      then have "?R = \<lparr>trace = take k ?W @ [Rollback, Release], outcome = Inl e2\<rparr>"
        using assms T k by (simp add: mysqlExecuteProcedure_def split: prod.splits)
      then show ?thesis using that by blast
    next
      case (Rows rows)
      then have "?R = \<lparr>trace = take k ?W @ [Rollback, Release], outcome = Inl e\<rparr>"
        using assms T k by (simp add: mysqlExecuteProcedure_def split: prod.splits)
      then show ?thesis using that by blast
    qed
    have cr: "count_list (take k ?W) Rollback = 0"
      using count_list_take_le[of k ?W Rollback] whole_counts(2)[of orig pbody params] by simp
    have cc: "count_list (take k ?W) Commit \<le> 1"
      using count_list_take_le[of k ?W Commit] whole_counts(1)[of orig pbody params] by simp
    have c1: "count_list (take k ?W @ [Rollback, Release]) Rollback = 1"
      "count_list (take k ?W @ [Rollback, Release]) Commit \<le> 1"
      using cr cc by simp_all
    have tk: "\<exists>k'. take k ?W @ [Rollback, Release] = take k' ?W @ [Rollback, Release]" by blast
    show ?thesis unfolding R using nok c1 tk by simp
  qed
qed


theorem mysqlExecuteProcedure_transaction_witness:
  "connect (sampleConn (\<lambda>op. False)) = None \<and>
   outcome (mysqlExecuteProcedure (sampleConn (\<lambda>op. False)) ''create_order(:item, @newId)''
              ''create_order(:item, @newId)'' [(''item'', Plain (VNumber (Finite 7)))]) =
     Inr [(''newId'', JNum (Finite 42))] \<and>
   count_list (trace (mysqlExecuteProcedure (sampleConn (\<lambda>op. False)) ''create_order(:item, @newId)''
              ''create_order(:item, @newId)'' [(''item'', Plain (VNumber (Finite 7)))])) Commit = 1 \<and>
   count_list (trace (mysqlExecuteProcedure (sampleConn (\<lambda>op. False)) ''create_order(:item, @newId)''
              ''create_order(:item, @newId)'' [(''item'', Plain (VNumber (Finite 7)))])) Rollback = 0 \<and>
   count_list (trace (mysqlExecuteProcedure (sampleConn isStatement) ''create_order(:item, @newId)''
              ''create_order(:item, @newId)'' [(''item'', Plain (VNumber (Finite 7)))])) Rollback = 1"
proof -
  let ?ok = "mysqlExecuteProcedure (sampleConn (\<lambda>op. False)) ''create_order(:item, @newId)''
              ''create_order(:item, @newId)'' [(''item'', Plain (VNumber (Finite 7)))]"
  let ?bad = "mysqlExecuteProcedure (sampleConn isStatement) ''create_order(:item, @newId)''
              ''create_order(:item, @newId)'' [(''item'', Plain (VNumber (Finite 7)))]"
  have h: "connect (sampleConn f) = None" for f by (simp add: sampleConn_def)
  have o: "outcome ?ok = Inr [(''newId'', JNum (Finite 42))]" by code_simp
  have b: "outcome ?bad = Inl (newError ''ER_FAILED'')" by code_simp
  from mysqlExecuteProcedure_transaction [OF h, of "\<lambda>op. False" "''create_order(:item, @newId)''"
      "''create_order(:item, @newId)''" "[(''item'', Plain (VNumber (Finite 7)))]"] o
  have c: "count_list (trace ?ok) Commit = 1 \<and> count_list (trace ?ok) Rollback = 0" by blast
  from mysqlExecuteProcedure_transaction [OF h, of isStatement "''create_order(:item, @newId)''"
      "''create_order(:item, @newId)''" "[(''item'', Plain (VNumber (Finite 7)))]"] b
  have r: "count_list (trace ?bad) Rollback = 1" by blast
  show ?thesis using h o c r by blast
qed

text \<open>
  C3 as stated fails: when the read of an output variable fails, the error is caught, the
  transaction is committed and nothing is rolled back; the output is missing from the
  result.
\<close>

theorem mysqlExecuteProcedure_read_counterexample:
  "respond (sampleConn isRead)
      [BeginTransaction, Execute ''SET @newId = NULL'' [],
       Execute ''create_order(?, @newId)'' [Plain (VNumber (Finite 7))]]
      (Query ''SELECT @newId as value'') = Failed (newError ''ER_FAILED'') \<and>
   mysqlExecuteProcedure (sampleConn isRead) ''create_order(:item, @newId)''
       ''create_order(:item, @newId)'' [(''item'', Plain (VNumber (Finite 7)))] =
     \<lparr>trace = [BeginTransaction, Execute ''SET @newId = NULL'' [],
               Execute ''create_order(?, @newId)'' [Plain (VNumber (Finite 7))],
               Query ''SELECT @newId as value'', Commit, Release],
      outcome = Inr []\<rparr>"
  by code_simp


end
